(* ===== verification/Prelude.thy ===== *)
theory Prelude
  imports Complex_Main "HOL-Library.AList" "HOL-Library.Char_ord" "HOL-Library.List_Lexorder"
    "HOL-Library.Product_Lexorder" "HOL-Library.Multiset" "HOL-Library.Sublist"
begin

text \<open>
  The generic layer of the development: the Python features every component uses, written
  once. Strings are lists of characters (one character per code point, so exact for code
  points below 256), integers are \<^typ>\<open>int\<close>, a float is the real number it denotes (rounding
  is not modelled), a dict is an association list in insertion order
  (\<^const>\<open>AList.update\<close> replaces in place or appends, as \<open>d[k] = v\<close> does) and a call that may
  raise returns a value of the sum type \<open>exc + 'a\<close>.
\<close>

section \<open>Types and collections\<close>

type_synonym time = real
type_synonym agent = string
type_synonym channel = string

named_theorems sox_simps \<open>rewrite rules shared by the component proofs\<close>
named_theorems sox_intros \<open>introduction rules: invariants kept by operations\<close>

section \<open>Dicts\<close>

abbreviation dget :: "('k \<times> 'v) list \<Rightarrow> 'k \<Rightarrow> 'v option" where
  "dget d k \<equiv> map_of d k"

abbreviation dset :: "('k \<times> 'v) list \<Rightarrow> 'k \<Rightarrow> 'v \<Rightarrow> ('k \<times> 'v) list" where
  "dset d k v \<equiv> AList.update k v d"

abbreviation dpop :: "('k \<times> 'v) list \<Rightarrow> 'k \<Rightarrow> ('k \<times> 'v) list" where
  "dpop d k \<equiv> AList.delete k d"

definition dget_default :: "('k \<times> 'v) list \<Rightarrow> 'k \<Rightarrow> 'v \<Rightarrow> 'v" where
  "dget_default d k dflt = (case map_of d k of None \<Rightarrow> dflt | Some v \<Rightarrow> v)"

definition has_key :: "('k \<times> 'v) list \<Rightarrow> 'k \<Rightarrow> bool" where
  "has_key d k \<longleftrightarrow> k \<in> fst ` set d"

lemma has_key_map_of: "has_key d k \<longleftrightarrow> map_of d k \<noteq> None"
  by (auto simp: has_key_def dest: weak_map_of_SomeI map_of_SomeD)
    (metis fst_conv image_eqI map_of_SomeD option.exhaust_sel weak_map_of_SomeI)

lemma dget_dset [simp]: "dget (dset d k v) k' = (if k' = k then Some v else dget d k')"
  by (simp add: update_conv')

lemma dget_default_dset [simp]:
  "dget_default (dset d k v) k' dflt = (if k' = k then v else dget_default d k' dflt)"
  by (simp add: dget_default_def)

lemma has_key_dset [simp]: "has_key (dset d k v) k' \<longleftrightarrow> k' = k \<or> has_key d k'"
  by (auto simp: has_key_map_of)

lemma dget_dpop [simp]: "dget (dpop d k) k' = (if k' = k then None else dget d k')"
  by (simp add: delete_conv')

lemma keys_dset: "fst ` set (dset d k v) = insert k (fst ` set d)"
  by (simp add: dom_update)

lemma map_of_Some_has_key: "map_of d k = Some v \<Longrightarrow> has_key d k"
  by (auto simp: has_key_map_of)

section \<open>Results\<close>

text \<open>\<open>bind_res\<close> runs the rest of a function only when the call before it did not raise.\<close>

definition bind_res :: "'e + 'a \<Rightarrow> ('a \<Rightarrow> 'e + 'b) \<Rightarrow> 'e + 'b" where
  "bind_res r f = (case r of Inl e \<Rightarrow> Inl e | Inr x \<Rightarrow> f x)"

lemma bind_res_simps [simp]:
  "bind_res (Inl e) f = Inl e" "bind_res (Inr x) f = f x"
  by (simp_all add: bind_res_def)

lemma bind_res_eq_Inr: "bind_res r f = Inr y \<longleftrightarrow> (\<exists>x. r = Inr x \<and> f x = Inr y)"
  by (cases r) auto

lemma bind_res_eq_Inl: "bind_res r f = Inl e \<longleftrightarrow> r = Inl e \<or> (\<exists>x. r = Inr x \<and> f x = Inl e)"
  by (cases r) auto

section \<open>Slices and bounded loops\<close>

text \<open>\<open>xs[:n]\<close>: a negative bound drops elements from the end.\<close>

definition slice_to :: "int \<Rightarrow> 'a list \<Rightarrow> 'a list" where
  "slice_to n xs = (if 0 \<le> n then take (nat n) xs else take (length xs - nat (- n)) xs)"

lemma slice_to_nonneg: "0 \<le> n \<Longrightarrow> slice_to n xs = take (nat n) xs"
  by (simp add: slice_to_def)

lemma set_slice_to: "set (slice_to n xs) \<subseteq> set xs"
  by (simp add: slice_to_def set_take_subset)

text \<open>
  The two shapes of the \<open>recv\<close> loops: \<open>collect_before\<close> tests the bound before it looks at
  an element, \<open>collect_after\<close> tests it after it has appended one.
\<close>

fun collect_before :: "int \<Rightarrow> ('a \<Rightarrow> bool) \<Rightarrow> 'a list \<Rightarrow> 'a list \<Rightarrow> 'a list" where
  "collect_before mx P [] acc = acc"
| "collect_before mx P (x # xs) acc =
     (if int (length acc) \<ge> mx then acc
      else if \<not> P x then collect_before mx P xs acc
      else collect_before mx P xs (acc @ [x]))"

fun collect_after :: "int \<Rightarrow> ('a \<Rightarrow> bool) \<Rightarrow> 'a list \<Rightarrow> 'a list \<Rightarrow> 'a list" where
  "collect_after mx P [] acc = acc"
| "collect_after mx P (x # xs) acc =
     (if \<not> P x then collect_after mx P xs acc
      else if int (length (acc @ [x])) \<ge> mx then acc @ [x]
      else collect_after mx P xs (acc @ [x]))"

lemma collect_before_take:
  "collect_before mx P xs acc = acc @ take (nat (mx - int (length acc))) (filter P xs)"
proof (induction xs arbitrary: acc)
  case (Cons x xs)
  show ?case
  proof (cases "int (length acc) \<ge> mx")
    case False
    then have "nat (mx - int (length acc)) = Suc (nat (mx - int (length (acc @ [x]))))"
      by (auto simp: nat_eq_iff)
    with False Cons.IH show ?thesis by simp
  qed simp
qed simp

lemma collect_after_take:
  assumes "int (length acc) < mx"
  shows "collect_after mx P xs acc = acc @ take (nat (mx - int (length acc))) (filter P xs)"
  using assms
proof (induction xs arbitrary: acc)
  case (Cons x xs)
  show ?case
  proof (cases "P x \<and> int (length (acc @ [x])) < mx")
    case True
    then have "nat (mx - int (length acc)) = Suc (nat (mx - int (length (acc @ [x]))))"
      by (auto simp: nat_eq_iff)
    with True Cons.IH [of "acc @ [x]"] show ?thesis by simp
  next
    case False
    with Cons.prems have "P x \<Longrightarrow> nat (mx - int (length acc)) = 1" by simp
    with False Cons show ?thesis by auto
  qed
qed simp

text \<open>At a bound below one the second loop still returns one element.\<close>

lemma collect_after_nonpos:
  assumes "mx \<le> 0"
  shows "collect_after mx P xs [] = take 1 (filter P xs)"
  using assms by (induction xs) auto

section \<open>Strings\<close>

definition py_isspace :: "char \<Rightarrow> bool" where
  "py_isspace c \<longleftrightarrow>
     (let n = of_char c :: nat in 9 \<le> n \<and> n \<le> 13 \<or> 28 \<le> n \<and> n \<le> 32 \<or> n = 133 \<or> n = 160)"

definition lstrip :: "string \<Rightarrow> string" where
  "lstrip s = dropWhile py_isspace s"

definition rstrip :: "string \<Rightarrow> string" where
  "rstrip s = rev (dropWhile py_isspace (rev s))"

definition strip :: "string \<Rightarrow> string" where
  "strip s = rstrip (lstrip s)"

definition upper_char :: "char \<Rightarrow> char" where
  "upper_char c = (let n = of_char c :: nat in if 97 \<le> n \<and> n \<le> 122 then char_of (n - 32) else c)"

definition lower_char :: "char \<Rightarrow> char" where
  "lower_char c = (let n = of_char c :: nat in if 65 \<le> n \<and> n \<le> 90 then char_of (n + 32) else c)"

definition upper :: "string \<Rightarrow> string" where
  "upper s = map upper_char s"

definition lower :: "string \<Rightarrow> string" where
  "lower s = map lower_char s"

definition starts_with :: "string \<Rightarrow> string \<Rightarrow> bool" where
  "starts_with s p \<longleftrightarrow> take (length p) s = p"

text \<open>\<open>p in s\<close> for a non-empty \<open>p\<close>.\<close>

definition contains_str :: "string \<Rightarrow> string \<Rightarrow> bool" where
  "contains_str s p \<longleftrightarrow> list_ex (\<lambda>i. starts_with (drop i s) p) [0..<length s]"

text \<open>\<open>s.replace(old, new)\<close> for a non-empty \<open>old\<close>: leftmost occurrences, not overlapping.\<close>

function str_replace :: "string \<Rightarrow> string \<Rightarrow> string \<Rightarrow> string" where
  "str_replace old new [] = []"
| "str_replace old new (c # cs) =
     (if old \<noteq> [] \<and> starts_with (c # cs) old
      then new @ str_replace old new (drop (length old) (c # cs))
      else c # str_replace old new cs)"
  by pat_completeness auto
termination
  by (relation "measure (\<lambda>(old, new, s). length s)") auto

declare str_replace.simps(2) [simp del]

lemma starts_with_append [simp]: "starts_with (p @ s) p"
  by (simp add: starts_with_def)

lemma starts_with_iff: "starts_with s p \<longleftrightarrow> (\<exists>t. s = p @ t)"
  by (auto simp: starts_with_def) (metis append_take_drop_id)

text \<open>\<open>s.split()\<close>: the maximal runs of non-space characters.\<close>

function split_ws :: "string \<Rightarrow> string list" where
  "split_ws s =
     (let t = dropWhile py_isspace s
      in if t = [] then []
         else takeWhile (\<lambda>c. \<not> py_isspace c) t # split_ws (dropWhile (\<lambda>c. \<not> py_isspace c) t))"
  by pat_completeness auto
termination
proof (relation "measure length", goal_cases)
  case (2 s t)
  then have "t \<noteq> []" and "\<not> py_isspace (hd t)"
    using hd_dropWhile [of py_isspace s] by auto
  then have "length (dropWhile (\<lambda>c. \<not> py_isspace c) t) < length t"
    by (cases t) (auto simp: le_imp_less_Suc length_dropWhile_le)
  moreover have "length t \<le> length s"
    using 2 by (simp add: length_dropWhile_le)
  ultimately show ?case by simp
qed simp

declare split_ws.simps [simp del]

text \<open>\<open>s.split(c)\<close> on a single character: always at least one part.\<close>

fun split_on :: "char \<Rightarrow> string \<Rightarrow> string list" where
  "split_on d [] = [[]]"
| "split_on d (c # cs) =
     (if c = d then [] # split_on d cs
      else case split_on d cs of [] \<Rightarrow> [[c]] | p # ps \<Rightarrow> (c # p) # ps)"

text \<open>\<open>sep.join(parts)\<close>.\<close>

fun join :: "string \<Rightarrow> string list \<Rightarrow> string" where
  "join sep [] = []"
| "join sep [p] = p"
| "join sep (p # q # ps) = p @ sep @ join sep (q # ps)"

lemma split_on_not_Nil [simp]: "split_on d s \<noteq> []"
  by (cases s) (auto split: list.splits)

lemma join_split_on: "join [d] (split_on d s) = s"
proof (induction s)
  case (Cons c cs)
  then show ?case
    by (cases "split_on d cs" rule: list.exhaust; cases "tl (split_on d cs)") auto
qed simp

lemma split_on_no_sep: "d \<notin> set s \<Longrightarrow> split_on d s = [s]"
  by (induction s) auto

lemma split_on_append: "d \<notin> set p \<Longrightarrow> split_on d (p @ d # s) = p # split_on d s"
  by (induction p) auto

lemma split_on_join:
  "ps \<noteq> [] \<Longrightarrow> \<forall>p \<in> set ps. d \<notin> set p \<Longrightarrow> split_on d (join [d] ps) = ps"
  by (induction "[d]" ps rule: join.induct) (auto simp: split_on_no_sep split_on_append)

section \<open>Decimal integers\<close>

definition digit_char :: "nat \<Rightarrow> char" where
  "digit_char d = char_of (48 + d)"

definition digit_val :: "char \<Rightarrow> nat" where
  "digit_val c = of_char c - 48"

definition is_digit :: "char \<Rightarrow> bool" where
  "is_digit c \<longleftrightarrow> (let n = of_char c :: nat in 48 \<le> n \<and> n \<le> 57)"

fun str_nat :: "nat \<Rightarrow> string" where
  "str_nat n = (if n < 10 then [digit_char n] else str_nat (n div 10) @ [digit_char (n mod 10)])"

declare str_nat.simps [simp del]

definition str_int :: "int \<Rightarrow> string" where
  "str_int i = (if i < 0 then CHR ''-'' # str_nat (nat (- i)) else str_nat (nat i))"

definition nat_of_digits :: "string \<Rightarrow> nat" where
  "nat_of_digits s = foldl (\<lambda>a c. 10 * a + digit_val c) 0 s"

lemma of_char_digit: "d < 10 \<Longrightarrow> (of_char (digit_char d) :: nat) = 48 + d"
  by (simp add: digit_char_def)

lemma digit_val_char [simp]: "d < 10 \<Longrightarrow> digit_val (digit_char d) = d"
  by (simp add: digit_val_def of_char_digit)

lemma is_digit_char [simp]: "d < 10 \<Longrightarrow> is_digit (digit_char d)"
  by (simp add: is_digit_def of_char_digit)

lemma nat_of_digits_snoc [simp]:
  "nat_of_digits (s @ [c]) = 10 * nat_of_digits s + digit_val c"
  by (simp add: nat_of_digits_def)

lemma nat_of_digits_str_nat [simp]: "nat_of_digits (str_nat n) = n"
proof (induction n rule: str_nat.induct)
  case (1 n)
  show ?case
  proof (cases "n < 10")
    case True
    then show ?thesis by (subst str_nat.simps) (simp add: nat_of_digits_def)
  next
    case False
    with 1 show ?thesis by (subst str_nat.simps) simp
  qed
qed

lemma str_nat_digits: "\<forall>c \<in> set (str_nat n). is_digit c"
proof (induction n rule: str_nat.induct)
  case (1 n)
  then show ?case by (subst str_nat.simps) auto
qed

lemma str_nat_not_Nil [simp]: "str_nat n \<noteq> []"
  by (subst str_nat.simps) simp

lemma str_nat_inject [simp]: "str_nat m = str_nat n \<longleftrightarrow> m = n"
  by (metis nat_of_digits_str_nat)

lemma minus_not_digit: "\<not> is_digit (CHR ''-'')"
  by (simp add: is_digit_def)

lemma str_int_inject [simp]: "str_int i = str_int j \<longleftrightarrow> i = j"
proof
  assume eq: "str_int i = str_int j"
  have nd: "str_nat n \<noteq> CHR ''-'' # s" for n s
    using str_nat_digits [of n] minus_not_digit by auto
  from eq nd nd [symmetric] show "i = j"
    by (auto simp: str_int_def split: if_splits)
qed simp

lemma str_int_small:
  "str_int 0 = ''0''" "str_int 1 = ''1''" "str_int 2 = ''2''" "str_int 3 = ''3''" "str_int 4 = ''4''"
  by code_simp+

lemma str_int_not_Nil [simp]: "str_int i \<noteq> []"
  by (simp add: str_int_def)

end
