(* ===== verification/Py_Values.thy ===== *)
theory Py_Values
  imports Prelude
begin

text \<open>
  The dynamically typed values that cross the component boundaries: JSON values, dicts of
  them, and the \<open>SignedRequest\<close> object a transport puts into the metadata of a call. The
  exceptions of the program are the constructors of \<open>exc\<close>; a function that may raise returns
  \<open>exc + 'a\<close>.
\<close>

section \<open>The signed request (core/identity/envelope.py)\<close>

type_synonym bytes = "char list"

record signed_request =
  sr_agent_id :: agent
  sr_nonce :: string
  sr_timestamp :: time
  sr_method :: string
  sr_body_hash :: string
  sr_signature :: bytes

section \<open>Values\<close>

datatype pyval =
    PNone
  | PBool bool
  | PInt int
  | PFloat real
  | PStr string
  | PList "pyval list"
  | PDict "(string \<times> pyval) list"
  | PSigned signed_request

type_synonym pydict = "(string \<times> pyval) list"

text \<open>Optional strings travel as \<open>None\<close> or \<open>str\<close>.\<close>

definition opt_str :: "string option \<Rightarrow> pyval" where
  "opt_str o_s = (case o_s of None \<Rightarrow> PNone | Some s \<Rightarrow> PStr s)"

lemma opt_str_inject [simp]: "opt_str x = opt_str y \<longleftrightarrow> x = y"
  by (auto simp: opt_str_def split: option.splits)

text \<open>\<open>bool(v)\<close>.\<close>

fun truthy :: "pyval \<Rightarrow> bool" where
  "truthy PNone = False"
| "truthy (PBool b) = b"
| "truthy (PInt i) = (i \<noteq> 0)"
| "truthy (PFloat x) = (x \<noteq> 0)"
| "truthy (PStr s) = (s \<noteq> [])"
| "truthy (PList vs) = (vs \<noteq> [])"
| "truthy (PDict d) = (d \<noteq> [])"
| "truthy (PSigned r) = True"

text \<open>
  \<open>str(v)\<close>. The text of a float, a list, a dict or an object is the parameter \<open>repr\<close>: no
  property depends on it.
\<close>

fun py_str :: "(pyval \<Rightarrow> string) \<Rightarrow> pyval \<Rightarrow> string" where
  "py_str repr (PStr s) = s"
| "py_str repr (PInt i) = str_int i"
| "py_str repr (PBool b) = (if b then ''True'' else ''False'')"
| "py_str repr PNone = ''None''"
| "py_str repr v = repr v"

section \<open>Exceptions\<close>

datatype id_failure =
    UnknownAgent
  | RevokedCredential
  | SignatureMismatch
  | ReplayDetected
  | MalformedRequest

datatype exc =
    ValueError string
  | KeyError string
  | AttributeError string
  | TypeError string
  | RuntimeError string
  | OperationalError string
  | SystemExit int
  | IdentityFailure id_failure string
  | ShortCircuit pydict
  | ChainConfigurationError "string list"
  | PluginNotAllowed string
  | PluginNotFound string
  | PluginManifestInvalid string string
  | PluginProtocolVersionMismatch string
  | PluginCapabilityConflict string
  | PluginOrderingCycle "string list"
  | PluginRequirementUnmet string string

type_synonym 'a result = "exc + 'a"

section \<open>Conversions\<close>

fun valid_int_digits :: "string \<Rightarrow> bool" where
  "valid_int_digits [] = False"
| "valid_int_digits [c] = is_digit c"
| "valid_int_digits (c # d # cs) =
     (is_digit c \<and> (if d = CHR ''_'' then valid_int_digits cs else valid_int_digits (d # cs)))"

text \<open>\<open>int(s)\<close> on a string.\<close>

definition parse_int :: "string \<Rightarrow> int result" where
  "parse_int s =
     (let t = strip s;
          (neg, ds) = (case t of [] \<Rightarrow> (False, []) | c # r \<Rightarrow>
                         if c = CHR ''-'' then (True, r)
                         else if c = CHR ''+'' then (False, r) else (False, t))
      in if valid_int_digits ds
         then (let n = int (nat_of_digits (filter is_digit ds)) in Inr (if neg then - n else n))
         else Inl (ValueError ''invalid literal for int()''))"

text \<open>\<open>int(x)\<close> on a float truncates towards zero.\<close>

definition trunc_real :: "real \<Rightarrow> int" where
  "trunc_real x = (if x < 0 then \<lceil>x\<rceil> else \<lfloor>x\<rfloor>)"

text \<open>\<open>int(v)\<close>; a \<open>bool\<close> is an \<open>int\<close>.\<close>

fun py_int :: "pyval \<Rightarrow> int result" where
  "py_int (PInt i) = Inr i"
| "py_int (PBool b) = Inr (if b then 1 else 0)"
| "py_int (PFloat x) = Inr (trunc_real x)"
| "py_int (PStr s) = parse_int s"
| "py_int v = Inl (TypeError ''int() argument'')"

text \<open>\<open>isinstance(v, (int, float))\<close>, \<open>isinstance(v, (int, float, str))\<close> and the like.\<close>

fun is_num :: "pyval \<Rightarrow> bool" where
  "is_num (PInt i) = True"
| "is_num (PBool b) = True"
| "is_num (PFloat x) = True"
| "is_num v = False"

fun is_str :: "pyval \<Rightarrow> bool" where
  "is_str (PStr s) = True"
| "is_str v = False"

fun is_list :: "pyval \<Rightarrow> bool" where
  "is_list (PList vs) = True"
| "is_list v = False"

fun is_dict :: "pyval \<Rightarrow> bool" where
  "is_dict (PDict d) = True"
| "is_dict v = False"

fun as_dict :: "pyval \<Rightarrow> pydict" where
  "as_dict (PDict d) = d"
| "as_dict v = []"

fun as_list :: "pyval \<Rightarrow> pyval list" where
  "as_list (PList vs) = vs"
| "as_list v = []"

lemma py_int_num: "is_num v \<Longrightarrow> \<exists>i. py_int v = Inr i"
  by (cases v) auto

lemma trunc_real_nonneg: "0 \<le> x \<Longrightarrow> trunc_real x = \<lfloor>x\<rfloor>"
  by (simp add: trunc_real_def)

end
