(* ===== verification/Fnmatch.thy ===== *)
theory Fnmatch
  imports Prelude
begin

text \<open>
  \<open>fnmatch.fnmatchcase(name, pattern)\<close> of Python's standard library, the glob matching every
  subscription goes through (\<open>_matches_pattern\<close>, \<open>_matches_agent\<close>, \<open>_agent_matches_channel\<close>,
  \<open>_matches_any\<close>). A pattern is read into tokens the way \<open>fnmatch.translate\<close> reads it:
  \<open>*\<close>, \<open>?\<close>, a bracket set with ranges and negation, any other character itself; a \<open>[\<close>
  without its \<open>]\<close> is an ordinary character. The lemmas give the facts the stores rely on: a
  pattern without glob characters matches its own name only, and a trailing \<open>*\<close> matches a
  prefix.
\<close>

datatype set_item = SetChar char | SetRange char char

datatype glob = Star | AnyChar | Lit char | InSet bool "set_item list"

section \<open>Bracket sets\<close>

text \<open>
  Inside the brackets \<open>a-b\<close> is a range, except that the hyphen needs a character on both
  sides. Ranges whose ends are in the wrong order match nothing and are dropped before the
  leading \<open>!\<close> is read as negation.
\<close>

fun set_items :: "string \<Rightarrow> set_item list" where
  "set_items (a # h # b # cs) =
     (if h = CHR ''-'' then SetRange a b # set_items cs else SetChar a # set_items (h # b # cs))"
| "set_items (a # cs) = SetChar a # set_items cs"
| "set_items [] = []"

fun valid_item :: "set_item \<Rightarrow> bool" where
  "valid_item (SetChar c) = True"
| "valid_item (SetRange a b) = (a \<le> b)"

definition bracket :: "string \<Rightarrow> glob" where
  "bracket stuff =
     (if take 1 stuff = ''!'' then InSet False (filter valid_item (set_items (drop 1 stuff)))
      else case filter valid_item (set_items stuff) of
             SetChar c # items \<Rightarrow>
               if c = CHR ''!'' then InSet False items else InSet True (SetChar c # items)
           | SetRange a b # items \<Rightarrow>
               if a = CHR ''!'' then InSet False (SetChar (CHR ''-'') # SetChar b # items)
               else InSet True (SetRange a b # items)
           | [] \<Rightarrow> InSet True [])"

text \<open>
  The position of the closing bracket: a \<open>!\<close> and then a \<open>]\<close> right after the opening one
  belong to the set.
\<close>

definition bracket_end :: "string \<Rightarrow> nat option" where
  "bracket_end cs =
     (let j0 = (if take 1 cs = ''!'' then 1 else 0);
          j1 = (if take 1 (drop j0 cs) = '']'' then j0 + 1 else j0);
          k = length (takeWhile (\<lambda>c. c \<noteq> CHR '']'') (drop j1 cs))
      in if j1 + k < length cs then Some (j1 + k) else None)"

lemma bracket_end_less: "bracket_end cs = Some j \<Longrightarrow> j < length cs"
  by (auto simp: bracket_end_def Let_def split: if_splits)

function glob_of :: "string \<Rightarrow> glob list" where
  "glob_of [] = []"
| "glob_of (c # cs) =
     (if c = CHR ''*'' then Star # glob_of cs
      else if c = CHR ''?'' then AnyChar # glob_of cs
      else if c = CHR ''['' then
        (case bracket_end cs of
           None \<Rightarrow> Lit c # glob_of cs
         | Some j \<Rightarrow> bracket (take j cs) # glob_of (drop (Suc j) cs))
      else Lit c # glob_of cs)"
  by pat_completeness auto
termination
  by (relation "measure length") auto

section \<open>Matching\<close>

fun item_match :: "set_item \<Rightarrow> char \<Rightarrow> bool" where
  "item_match (SetChar d) c = (c = d)"
| "item_match (SetRange a b) c = (a \<le> c \<and> c \<le> b)"

fun glob_match :: "glob list \<Rightarrow> string \<Rightarrow> bool" where
  "glob_match [] s = (s = [])"
| "glob_match (Star # gs) [] = glob_match gs []"
| "glob_match (Star # gs) (c # s) = (glob_match gs (c # s) \<or> glob_match (Star # gs) s)"
| "glob_match (AnyChar # gs) s = (case s of [] \<Rightarrow> False | c # s' \<Rightarrow> glob_match gs s')"
| "glob_match (Lit d # gs) s = (case s of [] \<Rightarrow> False | c # s' \<Rightarrow> c = d \<and> glob_match gs s')"
| "glob_match (InSet pos items # gs) s =
     (case s of [] \<Rightarrow> False
      | c # s' \<Rightarrow> (list_ex (\<lambda>i. item_match i c) items \<longleftrightarrow> pos) \<and> glob_match gs s')"

definition fnmatchcase :: "string \<Rightarrow> string \<Rightarrow> bool" where
  "fnmatchcase name pat \<longleftrightarrow> glob_match (glob_of pat) name"

definition matches_any :: "string \<Rightarrow> string list \<Rightarrow> bool" where
  "matches_any name pats \<longleftrightarrow> list_ex (fnmatchcase name) pats"

text \<open>A pattern without glob characters, as \<open>list_channels\<close> tests it.\<close>

definition exact_pattern :: "string \<Rightarrow> bool" where
  "exact_pattern p \<longleftrightarrow> CHR ''*'' \<notin> set p \<and> CHR ''?'' \<notin> set p \<and> CHR ''['' \<notin> set p"

section \<open>Lemmas\<close>

lemma matches_any_iff: "matches_any name pats \<longleftrightarrow> (\<exists>p \<in> set pats. fnmatchcase name p)"
  by (simp add: matches_any_def list_ex_iff)

lemma matches_any_simps [simp]:
  "matches_any name [] = False"
  "matches_any name (p # ps) = (fnmatchcase name p \<or> matches_any name ps)"
  by (simp_all add: matches_any_def)

lemma glob_of_exact: "exact_pattern p \<Longrightarrow> glob_of p = map Lit p"
  by (induction p) (auto simp: exact_pattern_def)

lemma glob_of_exact_append: "exact_pattern p \<Longrightarrow> glob_of (p @ q) = map Lit p @ glob_of q"
  by (induction p) (auto simp: exact_pattern_def)

lemma glob_match_Lits: "glob_match (map Lit p @ gs) s \<longleftrightarrow> (\<exists>t. s = p @ t \<and> glob_match gs t)"
  by (induction p arbitrary: s) (auto split: list.splits)

lemma fnmatchcase_exact: "exact_pattern p \<Longrightarrow> fnmatchcase name p \<longleftrightarrow> name = p"
  using glob_match_Lits [of p "[]" name] by (simp add: fnmatchcase_def glob_of_exact)

lemma glob_match_Star: "glob_match [Star] s"
  by (induction s) auto

lemma glob_match_Star_append: "glob_match (Star # gs) s \<longleftrightarrow> (\<exists>u t. s = u @ t \<and> glob_match gs t)"
proof (induction s)
  case (Cons c s)
  show ?case
    by (simp add: Cons.IH) (metis append_Cons append_Nil list.exhaust list.sel(3))
qed simp

lemma fnmatchcase_star: "fnmatchcase name ''*''"
  by (simp add: fnmatchcase_def glob_match_Star)

lemma fnmatchcase_prefix: "exact_pattern p \<Longrightarrow> fnmatchcase name (p @ ''*'') \<longleftrightarrow> starts_with name p"
  by (auto simp: fnmatchcase_def glob_of_exact_append glob_match_Lits glob_match_Star
      starts_with_iff)

end
