(* ===== verification/Backing_Store.thy ===== *)
theory Backing_Store
  imports Py_Values Fnmatch
begin

text \<open>
  The BackingStore port (core/ports/backing_store.py): the values its methods exchange and
  the contract its adapters promise, as two locales. \<open>mailbox\<close> states delivery: what a
  store hands to an agent was not delivered to it before, is recorded as delivered, and a
  pending message stays pending until it is handed over or dropped by the agent itself.
  \<open>sequenced\<close> states numbering: a channel only ever grows, by the next number. The lemmas of
  the locales lift these one-step laws to whole runs; the adapters' theories interpret them.
\<close>

section \<open>Records shared by the adapters\<close>

record backpressure =
  bp_queue_depth :: int
  bp_threshold :: int
  bp_over_limit :: bool
  bp_mode :: string
  bp_state :: string

text \<open>The dataclass defaults, and the value every adapter's \<open>send\<close> builds.\<close>

definition default_backpressure :: backpressure where
  "default_backpressure =
     \<lparr>bp_queue_depth = 0, bp_threshold = 1000, bp_over_limit = False,
      bp_mode = ''enforced'', bp_state = ''ok''\<rparr>"

definition send_backpressure :: "int \<Rightarrow> backpressure" where
  "send_backpressure queue_depth =
     (let threshold = 1000
      in default_backpressure\<lparr>bp_queue_depth := queue_depth, bp_threshold := threshold,
           bp_over_limit := (queue_depth \<ge> threshold), bp_mode := ''enforced''\<rparr>)"

lemma send_backpressure_fields [simp]:
  "bp_queue_depth (send_backpressure d) = d"
  "bp_threshold (send_backpressure d) = 1000"
  "bp_over_limit (send_backpressure d) \<longleftrightarrow> d \<ge> 1000"
  "bp_mode (send_backpressure d) = ''enforced''"
  "bp_state (send_backpressure d) = ''ok''"
  by (simp_all add: send_backpressure_def default_backpressure_def)

type_synonym send_result = "string \<times> time \<times> int \<times> backpressure"

record ack_record =
  ak_agent_id :: agent
  ak_status :: string
  ak_reason :: "string option"
  ak_acked_at :: time

record liveness_record =
  lv_status :: string
  lv_recorded_at :: time
  lv_expires_at :: time
  lv_namespace :: "string option"

record group_member =
  gm_agent_id :: agent
  gm_status :: string
  gm_joined_at :: time

record agent_entry =
  ae_agent_id :: agent
  ae_presence_state :: string
  ae_last_heartbeat_at :: int
  ae_namespace :: "string option"

text \<open>The 12-field message object of \<open>recv\<close>, \<open>watch\<close> and \<open>replay\<close>.\<close>

definition wire_message ::
  "string \<Rightarrow> channel \<Rightarrow> agent \<Rightarrow> pydict \<Rightarrow> string option \<Rightarrow> time \<Rightarrow> int \<Rightarrow> string option \<Rightarrow> pydict"
where
  "wire_message mid ch sender body corr sent_at seq reply_to =
     [(''message_id'', PStr mid), (''channel'', PStr ch), (''sender'', PStr sender),
      (''body'', PDict body), (''correlation_id'', opt_str corr), (''sent_at'', PFloat sent_at),
      (''seq'', PInt seq), (''ts'', PNone), (''reply_to'', opt_str reply_to),
      (''delivered_to'', PNone), (''origin_server'', PNone), (''_meta'', PNone)]"

text \<open>The identifier a caller reads back from a message object.\<close>

definition wire_id :: "pydict \<Rightarrow> string" where
  "wire_id m = (case dget m ''message_id'' of Some (PStr s) \<Rightarrow> s | _ \<Rightarrow> [])"

lemma wire_id_message [simp]: "wire_id (wire_message mid ch sender body corr sent seq rt) = mid"
  by (simp add: wire_id_def wire_message_def)

section \<open>Operations shared by the adapters\<close>

text \<open>\<open>ttl or 30\<close>: a missing and a zero TTL both give 30 seconds.\<close>

definition effective_ttl :: "int option \<Rightarrow> int" where
  "effective_ttl ttl = (case ttl of None \<Rightarrow> 30 | Some t \<Rightarrow> if t = 0 then 30 else t)"

definition presence_of :: "time \<Rightarrow> string \<Rightarrow> time \<Rightarrow> string" where
  "presence_of now reported expires_at =
     (if reported = ''offline'' then ''offline''
      else if expires_at \<le> now then ''stale''
      else reported)"

definition active_member :: "agent \<Rightarrow> group_member list \<Rightarrow> bool" where
  "active_member a members \<longleftrightarrow>
     list_ex (\<lambda>m. gm_agent_id m = a \<and> gm_status m = ''active'') members"

text \<open>The loop of \<open>group_join\<close>: the first invited entry of the agent becomes active.\<close>

fun activate_first :: "agent \<Rightarrow> time \<Rightarrow> group_member list \<Rightarrow> group_member list" where
  "activate_first a now [] = []"
| "activate_first a now (m # ms) =
     (if gm_agent_id m = a \<and> gm_status m = ''invited''
      then m\<lparr>gm_status := ''active'', gm_joined_at := now\<rparr> # ms
      else m # activate_first a now ms)"

definition active_count :: "group_member list \<Rightarrow> int" where
  "active_count members = int (length (filter (\<lambda>m. gm_status m = ''active'') members))"

lemma activate_first_agents [simp]:
  "map gm_agent_id (activate_first a now ms) = map gm_agent_id ms"
  by (induction ms) auto

lemma activate_first_other:
  "b \<noteq> a \<Longrightarrow> active_member b (activate_first a now ms) = active_member b ms"
  by (induction ms) (auto simp: active_member_def)

lemma activate_first_invited:
  assumes "m \<in> set ms" and "gm_agent_id m = a" and "gm_status m = ''invited''"
  shows "active_member a (activate_first a now ms)"
  using assms by (induction ms) (auto simp: active_member_def)

lemma activate_first_self:
  "active_member a (activate_first a now ms) \<longleftrightarrow>
     active_member a ms \<or> (\<exists>m \<in> set ms. gm_agent_id m = a \<and> gm_status m = ''invited'')"
  by (induction ms) (auto simp: active_member_def)

lemma activate_first_idle:
  "(\<forall>m \<in> set ms. gm_agent_id m = a \<longrightarrow> gm_status m \<noteq> ''invited'') \<Longrightarrow> activate_first a now ms = ms"
  by (induction ms) auto

section \<open>The operations of a run\<close>

text \<open>
  One call on the port. The runs of the contract are lists of these calls, from any agents,
  in any order. The clock value of a call is an argument of it.
\<close>

datatype store_op =
    Send time channel agent pydict "string option" "string option"
  | Recv agent "channel list option" int
  | Subscribe agent string
  | Unsubscribe agent "string list"
  | Ack time agent string string "string option"
  | Heartbeat time agent string "int option"
  | GroupCreate time agent "string option"
  | GroupInvite time agent string agent
  | GroupJoin time agent string
  | GroupLeave time agent string

text \<open>The calls by which an agent drops messages it has not read.\<close>

fun drops_for :: "store_op \<Rightarrow> agent set" where
  "drops_for (Unsubscribe a ps) = {a}"
| "drops_for (GroupLeave now a g) = {a}"
| "drops_for _ = {}"

text \<open>Runs: the messages each call hands over, in order, and the final state.\<close>

fun run_ops ::
  "(store_op \<Rightarrow> 's \<Rightarrow> (agent \<times> string) list \<times> 's) \<Rightarrow> store_op list \<Rightarrow> 's \<Rightarrow> (agent \<times> string) list \<times> 's"
where
  "run_ops step [] s = ([], s)"
| "run_ops step (op # ops) s =
     (let (ds, s') = step op s; (es, s'') = run_ops step ops s' in (ds @ es, s''))"

lemma run_ops_Cons:
  "run_ops step (op # ops) s =
     (fst (step op s) @ fst (run_ops step ops (snd (step op s))),
      snd (run_ops step ops (snd (step op s))))"
  by (simp add: split_beta Let_def)

section \<open>Delivery\<close>

locale mailbox =
  fixes step :: "store_op \<Rightarrow> 's \<Rightarrow> (agent \<times> string) list \<times> 's"
    and inv :: "'s \<Rightarrow> bool"
    and delivered :: "'s \<Rightarrow> (agent \<times> string) set"
    and pending :: "'s \<Rightarrow> (agent \<times> string) set"
  assumes step_inv: "inv s \<Longrightarrow> inv (snd (step op s))"
    and step_fresh: "inv s \<Longrightarrow> d \<in> set (fst (step op s)) \<Longrightarrow> d \<notin> delivered s"
    and step_records: "inv s \<Longrightarrow> set (fst (step op s)) \<subseteq> delivered (snd (step op s))"
    and step_distinct: "inv s \<Longrightarrow> distinct (fst (step op s))"
    and step_delivered: "inv s \<Longrightarrow> delivered s \<subseteq> delivered (snd (step op s))"
    and step_pending: "inv s \<Longrightarrow> d \<in> pending s \<Longrightarrow> fst d \<notin> drops_for op \<Longrightarrow>
        d \<in> set (fst (step op s)) \<or> d \<in> pending (snd (step op s))"
begin

lemma run_inv: "inv s \<Longrightarrow> inv (snd (run_ops step ops s))"
  by (induction ops arbitrary: s) (auto simp: run_ops_Cons step_inv simp del: run_ops.simps(2))

lemma run_fresh: "inv s \<Longrightarrow> d \<in> set (fst (run_ops step ops s)) \<Longrightarrow> d \<notin> delivered s"
proof (induction ops arbitrary: s)
  case (Cons op ops)
  then have "d \<in> set (fst (step op s)) \<or> d \<in> set (fst (run_ops step ops (snd (step op s))))"
    by (simp only: run_ops_Cons) auto
  then show ?case
    using Cons.IH [of "snd (step op s)"] Cons.prems(1) step_fresh step_inv step_delivered by blast
qed simp

lemma at_most_once: "inv s \<Longrightarrow> distinct (fst (run_ops step ops s))"
proof (induction ops arbitrary: s)
  case (Cons op ops)
  let ?s = "snd (step op s)"
  have "set (fst (step op s)) \<inter> set (fst (run_ops step ops ?s)) = {}"
    using run_fresh [of ?s _ ops] step_records [OF Cons.prems, of op] step_inv [OF Cons.prems]
    by blast
  with Cons.IH [of ?s] Cons.prems show ?case
    by (simp only: run_ops_Cons) (simp add: step_distinct step_inv)
qed simp

lemma never_lost:
  "inv s \<Longrightarrow> d \<in> pending s \<Longrightarrow> (\<forall>op \<in> set ops. fst d \<notin> drops_for op) \<Longrightarrow>
     d \<in> set (fst (run_ops step ops s)) \<or> d \<in> pending (snd (run_ops step ops s))"
proof (induction ops arbitrary: s)
  case (Cons op ops)
  have "d \<in> set (fst (step op s)) \<or> d \<in> pending (snd (step op s))"
    using step_pending Cons.prems by simp
  then show ?case
    using Cons.IH [of "snd (step op s)"] Cons.prems step_inv
    by (auto simp: run_ops_Cons simp del: run_ops.simps(2))
qed simp

end

section \<open>Numbering\<close>

lemma numbered_grow:
  assumes "xs = map int [1..<Suc (length xs)]" and "ys = xs \<or> ys = xs @ [int (length xs) + 1]"
  shows "ys = map int [1..<Suc (length ys)]"
  using assms by auto

locale sequenced =
  fixes step :: "store_op \<Rightarrow> 's \<Rightarrow> (agent \<times> string) list \<times> 's"
    and inv :: "'s \<Rightarrow> bool"
    and seqs :: "'s \<Rightarrow> channel \<Rightarrow> int list"
  assumes seq_inv: "inv s \<Longrightarrow> inv (snd (step op s))"
    and seq_grow: "inv s \<Longrightarrow> seqs (snd (step op s)) c = seqs s c \<or>
        seqs (snd (step op s)) c = seqs s c @ [int (length (seqs s c)) + 1]"
begin

lemma gapless_step:
  assumes "inv s" and "seqs s c = map int [1..<Suc (length (seqs s c))]"
  shows "seqs (snd (step op s)) c = map int [1..<Suc (length (seqs (snd (step op s)) c))]"
  by (rule numbered_grow [OF assms(2) seq_grow [OF assms(1)]])

lemma gapless:
  "inv s \<Longrightarrow> seqs s c = map int [1..<Suc (length (seqs s c))] \<Longrightarrow>
     seqs (snd (run_ops step ops s)) c = map int [1..<Suc (length (seqs (snd (run_ops step ops s)) c))]"
proof (induction ops arbitrary: s)
  case (Cons op ops)
  show ?case
    using Cons.IH [of "snd (step op s)"] gapless_step [OF Cons.prems] seq_inv [OF Cons.prems(1)]
    by (simp only: run_ops_Cons snd_conv)
qed simp

lemma gapless_distinct:
  assumes "inv s" and "seqs s c = map int [1..<Suc (length (seqs s c))]"
  shows "distinct (seqs (snd (run_ops step ops s)) c)"
  by (subst gapless [OF assms]) (simp add: distinct_map)

end

end
