(* ===== verification/Memory_Store.thy ===== *)
theory Memory_Store
  imports Backing_Store
begin

text \<open>
  The in-memory adapter (adapters/backing_stores/memory/store.py). One record holds the
  attributes of \<open>MemoryStore\<close>; every method is a function from its arguments, the clock value
  it reads and the state to its result and the new state. Each method holds the store's lock
  for its whole critical section, so a run of the store is a sequence of whole calls.
\<close>

section \<open>State\<close>

record stored_message =
  mm_id :: int
  mm_channel :: channel
  mm_sender :: agent
  mm_body :: pydict
  mm_correlation_id :: "string option"
  mm_sent_at :: time
  mm_seq :: int
  mm_reply_to :: "string option"
  mm_delivered_to :: "agent set"

definition to_wire :: "stored_message \<Rightarrow> pydict" where
  "to_wire m = wire_message (str_int (mm_id m)) (mm_channel m) (mm_sender m) (mm_body m)
     (mm_correlation_id m) (mm_sent_at m) (mm_seq m) (mm_reply_to m)"

record memory_store =
  ms_messages :: "stored_message list"
  ms_subscriptions :: "(agent \<times> string list) list"
  ms_next_id :: int
  ms_channel_seq :: "(channel \<times> int) list"
  ms_new_message_event :: bool
  ms_ack_records :: "(string \<times> ack_record) list"
  ms_liveness :: "(agent \<times> liveness_record) list"
  ms_groups :: "(string \<times> group_member list) list"

definition memory_init :: memory_store where
  "memory_init = \<lparr>ms_messages = [], ms_subscriptions = [], ms_next_id = 1, ms_channel_seq = [],
     ms_new_message_event = False, ms_ack_records = [], ms_liveness = [], ms_groups = []\<rparr>"

definition mem_patterns_for :: "memory_store \<Rightarrow> agent \<Rightarrow> string list" where
  "mem_patterns_for s a = dget_default (ms_subscriptions s) a []"

definition mem_matches_agent :: "memory_store \<Rightarrow> channel \<Rightarrow> agent \<Rightarrow> bool" where
  "mem_matches_agent s ch a = matches_any ch (mem_patterns_for s a)"

section \<open>send and recv\<close>

definition mem_append ::
  "channel \<Rightarrow> agent \<Rightarrow> pydict \<Rightarrow> string option \<Rightarrow> time \<Rightarrow> string option \<Rightarrow> memory_store \<Rightarrow>
     stored_message \<times> memory_store"
where
  "mem_append ch sender body corr sent_at reply_to s =
     (let msg_id = ms_next_id s;
          seq = dget_default (ms_channel_seq s) ch 0 + 1;
          msg = \<lparr>mm_id = msg_id, mm_channel = ch, mm_sender = sender, mm_body = body,
                 mm_correlation_id = corr, mm_sent_at = sent_at, mm_seq = seq,
                 mm_reply_to = reply_to, mm_delivered_to = {}\<rparr>
      in (msg, s\<lparr>ms_next_id := msg_id + 1, ms_channel_seq := dset (ms_channel_seq s) ch seq,
                 ms_messages := ms_messages s @ [msg]\<rparr>))"

definition mem_send ::
  "time \<Rightarrow> channel \<Rightarrow> agent \<Rightarrow> pydict \<Rightarrow> string option \<Rightarrow> string option \<Rightarrow> memory_store \<Rightarrow>
     send_result \<times> memory_store"
where
  "mem_send now ch sender body corr reply_to s =
     (let (msg, s') = mem_append ch sender body corr now reply_to s;
          queue_depth = int (length (filter
            (\<lambda>m. mm_channel m = ch \<and> mm_delivered_to m = {}) (ms_messages s')))
      in ((str_int (mm_id msg), now, mm_seq msg, send_backpressure queue_depth),
          s'\<lparr>ms_new_message_event := True\<rparr>))"

text \<open>
  \<open>msg.delivered_to.add(agent_id)\<close> on the shared message objects: the identity of an object
  is its id.
\<close>

definition mark_delivered :: "agent \<Rightarrow> int set \<Rightarrow> stored_message list \<Rightarrow> stored_message list" where
  "mark_delivered a ids ms =
     map (\<lambda>m. if mm_id m \<in> ids then m\<lparr>mm_delivered_to := insert a (mm_delivered_to m)\<rparr> else m) ms"

definition mem_wanted :: "memory_store \<Rightarrow> agent \<Rightarrow> channel list option \<Rightarrow> stored_message \<Rightarrow> bool" where
  "mem_wanted s a chans m \<longleftrightarrow>
     a \<notin> mm_delivered_to m \<and>
     (case chans of Some cs \<Rightarrow> mm_channel m \<in> set cs
      | None \<Rightarrow> matches_any (mm_channel m) (mem_patterns_for s a))"

definition message_order :: "stored_message \<Rightarrow> channel \<times> time \<times> int" where
  "message_order m = (mm_channel m, mm_sent_at m, mm_id m)"

definition mem_eligible ::
  "agent \<Rightarrow> channel list option \<Rightarrow> int \<Rightarrow> memory_store \<Rightarrow> stored_message list"
where
  "mem_eligible a chans max_messages s =
     sort_key message_order
       (collect_before max_messages (mem_wanted s a chans) (ms_messages s) [])"

definition mem_recv ::
  "agent \<Rightarrow> channel list option \<Rightarrow> int \<Rightarrow> memory_store \<Rightarrow> pydict list \<times> memory_store"
where
  "mem_recv a chans max_messages s =
     (let eligible = mem_eligible a chans max_messages s
      in (map to_wire eligible,
          s\<lparr>ms_messages := mark_delivered a (mm_id ` set eligible) (ms_messages s)\<rparr>))"

section \<open>Subscriptions\<close>

text \<open>\<open>self._subscriptions.setdefault(agent_id, [])\<close> and the append of a new pattern.\<close>

definition mem_add_pattern :: "agent \<Rightarrow> string \<Rightarrow> memory_store \<Rightarrow> memory_store" where
  "mem_add_pattern a p s =
     (let patterns = mem_patterns_for s a
      in s\<lparr>ms_subscriptions :=
             dset (ms_subscriptions s) a (if p \<in> set patterns then patterns else patterns @ [p])\<rparr>)"

definition mem_known_channels :: "memory_store \<Rightarrow> channel list" where
  "mem_known_channels s = sort (remdups (map mm_channel (ms_messages s)))"

definition mem_subscribe :: "agent \<Rightarrow> string \<Rightarrow> memory_store \<Rightarrow> channel list \<times> memory_store" where
  "mem_subscribe a p s =
     (let s' = mem_add_pattern a p s
      in (filter (\<lambda>ch. fnmatchcase ch p) (mem_known_channels s'), s'))"

definition mem_list_channels :: "time \<Rightarrow> time option \<Rightarrow> memory_store \<Rightarrow> (channel \<times> int) list" where
  "mem_list_channels now since s =
     (let cutoff = (case since of Some t \<Rightarrow> t | None \<Rightarrow> now - 86400);
          from_messages = map mm_channel (filter (\<lambda>m. mm_sent_at m \<ge> cutoff) (ms_messages s));
          from_patterns = filter exact_pattern (concat (map snd (ms_subscriptions s)));
          channels = sort (remdups (from_messages @ from_patterns))
      in map (\<lambda>ch. (ch, int (length (filter (matches_any ch) (map snd (ms_subscriptions s))))))
           channels)"

text \<open>
  The loop of \<open>unsubscribe\<close> over the agent's patterns, with the messages, the removed and the
  kept patterns and the count as its state.
\<close>

fun mem_unsubscribe_loop ::
  "agent \<Rightarrow> string list \<Rightarrow> string list \<Rightarrow> stored_message list \<Rightarrow> string list \<Rightarrow> string list \<Rightarrow> int \<Rightarrow>
     stored_message list \<times> string list \<times> string list \<times> int"
where
  "mem_unsubscribe_loop a patterns [] msgs removed kept cleared = (msgs, removed, kept, cleared)"
| "mem_unsubscribe_loop a patterns (p # ps) msgs removed kept cleared =
     (if p \<in> set patterns
      then (let hit = filter (\<lambda>m. a \<notin> mm_delivered_to m \<and> fnmatchcase (mm_channel m) p) msgs
            in mem_unsubscribe_loop a patterns ps
                 (mark_delivered a (mm_id ` set hit) msgs) (removed @ [p]) kept
                 (cleared + int (length hit)))
      else mem_unsubscribe_loop a patterns ps msgs removed (kept @ [p]) cleared)"

definition mem_unsubscribe ::
  "agent \<Rightarrow> string list \<Rightarrow> memory_store \<Rightarrow> (string list \<times> int) \<times> memory_store"
where
  "mem_unsubscribe a patterns s =
     (let (msgs, removed, kept, cleared) =
            mem_unsubscribe_loop a patterns (mem_patterns_for s a) (ms_messages s) [] [] 0
      in ((removed, cleared),
          s\<lparr>ms_messages := msgs, ms_subscriptions := dset (ms_subscriptions s) a kept\<rparr>))"

section \<open>watch\<close>

text \<open>
  The generator: \<open>watch_start\<close> takes the snapshot on entry, \<open>watch_poll\<close> is one round of the
  loop, which sees the store as it is then.
\<close>

definition mem_watch_start :: "agent \<Rightarrow> memory_store \<Rightarrow> int" where
  "mem_watch_start a s =
     Max (set (0 # map mm_id (filter (\<lambda>m. a \<in> mm_delivered_to m) (ms_messages s))))"

definition mem_watch_new :: "agent \<Rightarrow> int \<Rightarrow> memory_store \<Rightarrow> stored_message list" where
  "mem_watch_new a last_seen s =
     sort_key message_order (filter (\<lambda>m. mm_id m > last_seen \<and> a \<notin> mm_delivered_to m \<and>
       matches_any (mm_channel m) (mem_patterns_for s a)) (ms_messages s))"

definition mem_watch_poll :: "agent \<Rightarrow> int \<Rightarrow> memory_store \<Rightarrow> pydict list \<times> int" where
  "mem_watch_poll a last_seen s =
     (let new_msgs = mem_watch_new a last_seen s
      in (map to_wire new_msgs,
          if new_msgs = [] then last_seen else Max (mm_id ` set new_msgs)))"

section \<open>Acknowledgement, liveness and replay\<close>

definition mem_ack ::
  "time \<Rightarrow> agent \<Rightarrow> string \<Rightarrow> string \<Rightarrow> string option \<Rightarrow> memory_store \<Rightarrow>
     (string \<times> string \<times> time) \<times> memory_store"
where
  "mem_ack now a message_id status reason s =
     ((message_id, status, now),
      s\<lparr>ms_ack_records := dset (ms_ack_records s) message_id
          \<lparr>ak_agent_id = a, ak_status = status, ak_reason = reason, ak_acked_at = now\<rparr>\<rparr>)"

definition mem_heartbeat ::
  "time \<Rightarrow> agent \<Rightarrow> string \<Rightarrow> int option \<Rightarrow> memory_store \<Rightarrow>
     (agent \<times> string \<times> time \<times> time) \<times> memory_store"
where
  "mem_heartbeat now a status ttl s =
     (let expires_at = now + real_of_int (effective_ttl ttl);
          ns = (case dget (ms_liveness s) a of None \<Rightarrow> None | Some r \<Rightarrow> lv_namespace r);
          s1 = s\<lparr>ms_liveness := dset (ms_liveness s) a
                   \<lparr>lv_status = status, lv_recorded_at = now, lv_expires_at = expires_at,
                    lv_namespace = ns\<rparr>\<rparr>;
          (msg, s2) = mem_append ''sox/presence'' ''__server__''
                        [(''event'', PStr (''agent_'' @ status)), (''agent_id'', PStr a),
                         (''state'', PStr status), (''changed_at'', PFloat now)]
                        None now None s1
      in ((a, status, now, expires_at), s2\<lparr>ms_new_message_event := True\<rparr>))"

fun mem_list_agents_loop ::
  "time \<Rightarrow> string list option \<Rightarrow> string option \<Rightarrow> (agent \<times> liveness_record) list \<Rightarrow> agent_entry list"
where
  "mem_list_agents_loop now status_filter ns [] = []"
| "mem_list_agents_loop now status_filter ns ((aid, rec) # recs) =
     (if ns \<noteq> None \<and> lv_namespace rec \<noteq> ns then mem_list_agents_loop now status_filter ns recs
      else let presence = presence_of now (lv_status rec) (lv_expires_at rec)
           in if (case status_filter of None \<Rightarrow> False | Some f \<Rightarrow> presence \<notin> set f)
              then mem_list_agents_loop now status_filter ns recs
              else \<lparr>ae_agent_id = aid, ae_presence_state = presence,
                    ae_last_heartbeat_at = trunc_real (lv_recorded_at rec * 1000000000),
                    ae_namespace = lv_namespace rec\<rparr>
                   # mem_list_agents_loop now status_filter ns recs)"

definition mem_list_agents ::
  "time \<Rightarrow> string list option \<Rightarrow> string option \<Rightarrow> memory_store \<Rightarrow> agent_entry list"
where
  "mem_list_agents now status_filter ns s = mem_list_agents_loop now status_filter ns (ms_liveness s)"

definition mem_replay ::
  "channel \<Rightarrow> int \<Rightarrow> int option \<Rightarrow> int \<Rightarrow> memory_store \<Rightarrow> pydict list \<times> bool"
where
  "mem_replay ch since until_seq limit s =
     (let matches = sort_key (\<lambda>m. (mm_seq m, mm_id m))
            (filter (\<lambda>m. mm_channel m = ch \<and> mm_seq m \<ge> since \<and>
               (case until_seq of None \<Rightarrow> True | Some u \<Rightarrow> mm_seq m \<le> u)) (ms_messages s))
      in (map to_wire (slice_to limit matches), int (length matches) > limit))"

section \<open>Groups\<close>

definition mem_group_create ::
  "time \<Rightarrow> agent \<Rightarrow> string option \<Rightarrow> memory_store \<Rightarrow> (string \<times> time) \<times> memory_store"
where
  "mem_group_create now creator group_id s =
     (let bare = (case group_id of Some g \<Rightarrow> if g \<noteq> [] then g else ''grp-'' @ str_int (trunc_real now)
                  | None \<Rightarrow> ''grp-'' @ str_int (trunc_real now));
          full_id = ''group/'' @ bare;
          s1 = s\<lparr>ms_groups := dset (ms_groups s) full_id
                   [\<lparr>gm_agent_id = creator, gm_status = ''active'', gm_joined_at = now\<rparr>]\<rparr>
      in ((full_id, now), mem_add_pattern creator full_id s1))"

definition mem_group_invite ::
  "time \<Rightarrow> agent \<Rightarrow> string \<Rightarrow> agent \<Rightarrow> memory_store \<Rightarrow> (agent \<times> time) result \<times> memory_store"
where
  "mem_group_invite now inviter group_id invitee s =
     (let members = dget_default (ms_groups s) group_id []
      in if \<not> active_member inviter members
         then (Inl (ValueError ''inviter is not an active member''), s)
         else let members' = (if list_ex (\<lambda>m. gm_agent_id m = invitee) members then members
                else members @ [\<lparr>gm_agent_id = invitee, gm_status = ''invited'', gm_joined_at = now\<rparr>])
              in (Inr (invitee, now), s\<lparr>ms_groups := dset (ms_groups s) group_id members'\<rparr>))"

text \<open>
  \<open>group_join\<close> changes the member entries in place: a group that is not in the table stays
  out of it, and the subscription is added in every case.
\<close>

definition mem_group_join ::
  "time \<Rightarrow> agent \<Rightarrow> string \<Rightarrow> memory_store \<Rightarrow> (string \<times> int \<times> time) \<times> memory_store"
where
  "mem_group_join now a group_id s =
     (let members = activate_first a now (dget_default (ms_groups s) group_id []);
          s1 = (if has_key (ms_groups s) group_id
                then s\<lparr>ms_groups := dset (ms_groups s) group_id members\<rparr> else s)
      in ((group_id, active_count members, now), mem_add_pattern a group_id s1))"

definition mem_group_leave ::
  "time \<Rightarrow> agent \<Rightarrow> string \<Rightarrow> memory_store \<Rightarrow> (string \<times> time) \<times> memory_store"
where
  "mem_group_leave now a group_id s =
     (let members = dget_default (ms_groups s) group_id [];
          patterns = mem_patterns_for s a
      in ((group_id, now),
          s\<lparr>ms_groups := dset (ms_groups s) group_id (filter (\<lambda>m. gm_agent_id m \<noteq> a) members),
            ms_subscriptions := dset (ms_subscriptions s) a (filter (\<lambda>p. p \<noteq> group_id) patterns)\<rparr>))"

definition mem_group_list_members ::
  "agent \<Rightarrow> string \<Rightarrow> memory_store \<Rightarrow> string \<times> group_member list"
where
  "mem_group_list_members a group_id s = (group_id, dget_default (ms_groups s) group_id [])"

end
