(* ===== verification/Message_Log.thy ===== *)
theory Message_Log
  imports Backing_Store
begin

text \<open>
  The abstract machine behind every adapter of the port: a log of entries, each with the set
  of agents that have read it, and the patterns each agent subscribes to. A call appends an
  entry, or marks entries as read by the agent that calls; nothing else happens to the log.
  The locale \<open>message_log\<close> says when a concrete store implements this machine, and derives
  the delivery and the numbering contract (\<open>mailbox\<close>, \<open>sequenced\<close>) from it.
\<close>

section \<open>The abstract log\<close>

record log_entry =
  le_id :: string
  le_channel :: channel
  le_seq :: int
  le_readers :: "agent set"

definition mark_read :: "agent \<Rightarrow> string set \<Rightarrow> log_entry list \<Rightarrow> log_entry list" where
  "mark_read a ids es =
     map (\<lambda>e. if le_id e \<in> ids then e\<lparr>le_readers := insert a (le_readers e)\<rparr> else e) es"

definition log_seqs :: "log_entry list \<Rightarrow> channel \<Rightarrow> int list" where
  "log_seqs es c = map le_seq (filter (\<lambda>e. le_channel e = c) es)"

definition fresh_entry :: "log_entry list \<Rightarrow> log_entry \<Rightarrow> bool" where
  "fresh_entry es e \<longleftrightarrow> le_readers e = {} \<and> le_id e \<notin> le_id ` set es \<and>
     le_seq e = int (length (log_seqs es (le_channel e))) + 1"

definition log_delivered :: "log_entry list \<Rightarrow> (agent \<times> string) set" where
  "log_delivered es = {(a, le_id e) | a e. e \<in> set es \<and> a \<in> le_readers e}"

definition log_pending :: "log_entry list \<Rightarrow> (agent \<Rightarrow> string list) \<Rightarrow> (agent \<times> string) set" where
  "log_pending es pats = {(a, le_id e) | a e. e \<in> set es \<and> a \<notin> le_readers e \<and>
     matches_any (le_channel e) (pats a)}"

text \<open>The three things that may happen to the log in one call.\<close>

definition log_step :: "agent set \<Rightarrow> log_entry list \<Rightarrow> log_entry list \<Rightarrow> bool" where
  "log_step A es es' \<longleftrightarrow> es' = es \<or> (\<exists>a \<in> A. \<exists>ids. es' = mark_read a ids es) \<or>
     (\<exists>e. fresh_entry es e \<and> es' = es @ [e])"

section \<open>Lemmas on the log\<close>

lemma map_id_mark_read [simp]: "map le_id (mark_read a ids es) = map le_id es"
  by (induction es) (simp_all add: mark_read_def)

lemma mark_read_none [simp]: "mark_read a {} es = es"
  by (simp add: mark_read_def)

lemma mark_read_twice: "mark_read a ids (mark_read a ids' es) = mark_read a (ids \<union> ids') es"
  by (induction es) (auto simp: mark_read_def)

lemma log_seqs_mark_read [simp]: "log_seqs (mark_read a ids es) c = log_seqs es c"
  by (induction es) (auto simp: mark_read_def log_seqs_def)

lemma log_seqs_append [simp]:
  "log_seqs (es @ [e]) c = log_seqs es c @ (if le_channel e = c then [le_seq e] else [])"
  by (simp add: log_seqs_def)

lemma log_step_ids:
  "log_step A es es' \<Longrightarrow> distinct (map le_id es) \<Longrightarrow> distinct (map le_id es')"
  by (auto simp: log_step_def fresh_entry_def)

lemma log_step_seqs:
  "log_step A es es' \<Longrightarrow> log_seqs es' c = log_seqs es c \<or>
     log_seqs es' c = log_seqs es c @ [int (length (log_seqs es c)) + 1]"
  by (auto simp: log_step_def fresh_entry_def)

lemma log_deliveredI: "e \<in> set es \<Longrightarrow> a \<in> le_readers e \<Longrightarrow> (a, le_id e) \<in> log_delivered es"
  unfolding log_delivered_def by blast

lemma log_deliveredE:
  assumes "d \<in> log_delivered es"
  obtains a e where "d = (a, le_id e)" "e \<in> set es" "a \<in> le_readers e"
  using assms unfolding log_delivered_def by blast

lemma log_pendingI:
  "e \<in> set es \<Longrightarrow> a \<notin> le_readers e \<Longrightarrow> matches_any (le_channel e) (pats a) \<Longrightarrow>
     (a, le_id e) \<in> log_pending es pats"
  unfolding log_pending_def by blast

lemma log_pendingE:
  assumes "d \<in> log_pending es pats"
  obtains a e where "d = (a, le_id e)" "e \<in> set es" "a \<notin> le_readers e"
    "matches_any (le_channel e) (pats a)"
  using assms unfolding log_pending_def by blast

lemma mark_read_entry:
  assumes "e \<in> set es"
  obtains e' where "e' \<in> set (mark_read a ids es)" "le_id e' = le_id e" "le_channel e' = le_channel e"
    "le_readers e' = (if le_id e \<in> ids then insert a (le_readers e) else le_readers e)"
  using that [of "if le_id e \<in> ids then e\<lparr>le_readers := insert a (le_readers e)\<rparr> else e"] assms
  by (auto simp: mark_read_def)

text \<open>An entry survives a step, and only the callers in \<open>A\<close> are added to its readers.\<close>

lemma log_step_entry:
  assumes "log_step A es es'" and "e \<in> set es"
  obtains e' where "e' \<in> set es'" "le_id e' = le_id e" "le_channel e' = le_channel e"
    "le_readers e \<subseteq> le_readers e'" "le_readers e' \<subseteq> le_readers e \<union> A"
proof -
  consider "es' = es" | a ids where "a \<in> A" "es' = mark_read a ids es" | e0 where "es' = es @ [e0]"
    using assms(1) unfolding log_step_def by blast
  then show thesis
  proof cases
    case 2
    obtain e' where "e' \<in> set (mark_read a ids es)" "le_id e' = le_id e" "le_channel e' = le_channel e"
      "le_readers e' = (if le_id e \<in> ids then insert a (le_readers e) else le_readers e)"
      using assms(2) by (rule mark_read_entry)
    with 2 show thesis by (intro that [of e']) (auto split: if_splits)
  qed (use that [of e] assms(2) in auto)
qed

lemma log_step_delivered:
  assumes "log_step A es es'" shows "log_delivered es \<subseteq> log_delivered es'"
proof
  fix d assume "d \<in> log_delivered es"
  then obtain a e where "d = (a, le_id e)" "e \<in> set es" "a \<in> le_readers e"
    by (rule log_deliveredE)
  with log_step_entry [OF assms] show "d \<in> log_delivered es'"
    by (metis log_deliveredI subsetD)
qed

text \<open>What a pending entry becomes: marked for a caller, or still pending.\<close>

lemma log_step_pending:
  assumes "log_step A es es'" and "d \<in> log_pending es pats" and "fst d \<notin> A"
    and "set (pats (fst d)) \<subseteq> set (pats' (fst d))"
  shows "d \<in> log_pending es' pats'"
proof -
  obtain a e where d: "d = (a, le_id e)" "e \<in> set es" "a \<notin> le_readers e"
    "matches_any (le_channel e) (pats a)" using assms(2) by (rule log_pendingE)
  obtain e' where e': "e' \<in> set es'" "le_id e' = le_id e" "le_channel e' = le_channel e"
    "le_readers e' \<subseteq> le_readers e \<union> A"
    using log_step_entry [OF assms(1) d(2)] by metis
  moreover have "a \<notin> le_readers e'"
    using e'(4) d(1,3) assms(3) by auto
  moreover have "matches_any (le_channel e') (pats' a)"
    using d(1,4) assms(4) e'(3) by (auto simp: matches_any_iff)
  ultimately show ?thesis
    using log_pendingI [of e' es' a pats'] d(1) by simp
qed

lemma mark_read_delivered:
  assumes "e \<in> set es" and "le_id e \<in> ids"
  shows "(a, le_id e) \<in> log_delivered (mark_read a ids es)"
proof -
  obtain e' where "e' \<in> set (mark_read a ids es)" "le_id e' = le_id e"
    "le_readers e' = (if le_id e \<in> ids then insert a (le_readers e) else le_readers e)"
    using assms(1) by (rule mark_read_entry)
  with assms(2) show ?thesis using log_deliveredI [of e' _ a] by simp
qed

section \<open>Stores that implement the log\<close>

fun is_recv :: "store_op \<Rightarrow> bool" where
  "is_recv (Recv a chans n) = True"
| "is_recv _ = False"

text \<open>What \<open>recv\<close> takes out: distinct entries the agent has not read, all marked.\<close>

definition log_take :: "agent \<Rightarrow> log_entry list \<Rightarrow> (agent \<times> string) list \<Rightarrow> log_entry list \<Rightarrow> bool" where
  "log_take a es out es' \<longleftrightarrow> (\<exists>taken. set taken \<subseteq> {e \<in> set es. a \<notin> le_readers e} \<and>
     distinct (map le_id taken) \<and> out = map (\<lambda>e. (a, le_id e)) taken \<and>
     es' = mark_read a (le_id ` set taken) es)"

lemma log_takeE:
  assumes "log_take a es out es'"
  obtains taken where "set taken \<subseteq> {e \<in> set es. a \<notin> le_readers e}" "distinct (map le_id taken)"
    "out = map (\<lambda>e. (a, le_id e)) taken" "es' = mark_read a (le_id ` set taken) es"
  using assms unfolding log_take_def by blast

lemma log_take_step: "log_take a es out es' \<Longrightarrow> log_step {a} es es'"
  by (auto simp: log_take_def log_step_def)

text \<open>What is taken out was not delivered before, is delivered now, and is taken out once.\<close>

lemma log_take_law:
  assumes take: "log_take a es out es'" and ids: "distinct (map le_id es)"
  shows "set out \<inter> log_delivered es = {}" and "set out \<subseteq> log_delivered es'" and "distinct out"
proof -
  obtain taken where t: "set taken \<subseteq> {e \<in> set es. a \<notin> le_readers e}" "distinct (map le_id taken)"
    "out = map (\<lambda>e. (a, le_id e)) taken" "es' = mark_read a (le_id ` set taken) es"
    using take by (rule log_takeE)
  show "set out \<inter> log_delivered es = {}"
  proof (rule equals0I, elim IntE)
    fix d assume "d \<in> set out" "d \<in> log_delivered es"
    then obtain e e' where "e \<in> set taken" "e' \<in> set es" "le_id e = le_id e'" "a \<in> le_readers e'"
      using t(3) by (auto elim!: log_deliveredE)
    with t(1) ids show False by (auto simp: distinct_map dest: inj_onD)
  qed
  show "set out \<subseteq> log_delivered es'"
    using t(1,3,4) mark_read_delivered by auto
  show "distinct out" using t(2,3) by (auto simp: distinct_map inj_on_def)
qed

locale message_log =
  fixes step :: "store_op \<Rightarrow> 's \<Rightarrow> (agent \<times> string) list \<times> 's"
    and inv :: "'s \<Rightarrow> bool"
    and log :: "'s \<Rightarrow> log_entry list"
    and pats :: "'s \<Rightarrow> agent \<Rightarrow> string list"
  assumes log_inv: "inv s \<Longrightarrow> inv (snd (step op s))"
    and log_ids: "inv s \<Longrightarrow> distinct (map le_id (log s))"
    and log_quiet: "\<not> is_recv op \<Longrightarrow> fst (step op s) = []"
    and log_other: "inv s \<Longrightarrow> \<not> is_recv op \<Longrightarrow> log_step (drops_for op) (log s) (log (snd (step op s)))"
    and log_recv: "inv s \<Longrightarrow> log_take a (log s) (fst (step (Recv a chans n) s))
        (log (snd (step (Recv a chans n) s)))"
    and log_pats: "inv s \<Longrightarrow> a \<notin> drops_for op \<Longrightarrow> set (pats s a) \<subseteq> set (pats (snd (step op s)) a)"
begin

lemma any_step:
  assumes "inv s" shows "\<exists>A. log_step A (log s) (log (snd (step op s)))"
proof (cases "is_recv op")
  case True
  then obtain a chans n where "op = Recv a chans n" by (cases op) auto
  with log_take_step [OF log_recv [OF assms]] show ?thesis by blast
qed (use log_other [OF assms] in blast)

lemma recv_law:
  assumes inv: "inv s"
  shows "set (fst (step op s)) \<inter> log_delivered (log s) = {}"
    and "set (fst (step op s)) \<subseteq> log_delivered (log (snd (step op s)))"
    and "distinct (fst (step op s))"
proof (atomize (full), cases "is_recv op")
  case True
  then obtain a chans n where op: "op = Recv a chans n" by (cases op) auto
  show "set (fst (step op s)) \<inter> log_delivered (log s) = {} \<and>
      set (fst (step op s)) \<subseteq> log_delivered (log (snd (step op s))) \<and> distinct (fst (step op s))"
    using log_take_law [OF log_recv [OF inv, of a chans n] log_ids [OF inv]] op by simp
qed (simp add: log_quiet)

lemma pending_step:
  assumes inv: "inv s" and d: "d \<in> log_pending (log s) (pats s)" and keep: "fst d \<notin> drops_for op"
  shows "d \<in> set (fst (step op s)) \<or> d \<in> log_pending (log (snd (step op s))) (pats (snd (step op s)))"
proof (cases "is_recv op")
  case False
  then show ?thesis
    using log_step_pending [OF log_other [OF inv False] d keep] log_pats [OF inv keep] by blast
next
  case True
  then obtain a chans n where op: "op = Recv a chans n" by (cases op) auto
  note take = log_recv [OF inv, of a chans n]
  show ?thesis
  proof (cases "fst d = a \<and> d \<notin> set (fst (step op s))")
    case False
    then show ?thesis
      using log_step_pending [OF log_take_step [OF take] d] log_pats [OF inv keep] op by auto
  next
    case True
    obtain e where e: "d = (a, le_id e)" "e \<in> set (log s)" "a \<notin> le_readers e"
      "matches_any (le_channel e) (pats s a)"
      using d True by (auto elim!: log_pendingE)
    obtain taken where t: "set taken \<subseteq> {e \<in> set (log s). a \<notin> le_readers e}"
      "fst (step op s) = map (\<lambda>e. (a, le_id e)) taken"
      "log (snd (step op s)) = mark_read a (le_id ` set taken) (log s)"
      using take unfolding op by (rule log_takeE)
    have "le_id e \<notin> le_id ` set taken" using True t(2) e(1) by auto
    then have "e \<in> set (log (snd (step op s)))"
      using e(2) t(3) by (auto simp: mark_read_def image_iff)
    moreover have "matches_any (le_channel e) (pats (snd (step op s)) a)"
      using e(1,4) log_pats [OF inv keep] by (auto simp: matches_any_iff)
    ultimately show ?thesis using e log_pendingI by blast
  qed
qed

end

sublocale message_log \<subseteq> mailbox step inv "\<lambda>s. log_delivered (log s)" "\<lambda>s. log_pending (log s) (pats s)"
proof
  fix s op d
  assume inv: "inv s"
  show "inv (snd (step op s))" using inv by (rule log_inv)
  show "d \<notin> log_delivered (log s)" if "d \<in> set (fst (step op s))"
    using recv_law(1) [OF inv] that by blast
  show "set (fst (step op s)) \<subseteq> log_delivered (log (snd (step op s)))" using inv by (rule recv_law(2))
  show "distinct (fst (step op s))" using inv by (rule recv_law(3))
  show "log_delivered (log s) \<subseteq> log_delivered (log (snd (step op s)))"
    using any_step [OF inv] log_step_delivered by blast
  show "d \<in> set (fst (step op s)) \<or> d \<in> log_pending (log (snd (step op s))) (pats (snd (step op s)))"
    if "d \<in> log_pending (log s) (pats s)" "fst d \<notin> drops_for op"
    using pending_step [OF inv that] .
qed

sublocale message_log \<subseteq> numbered: sequenced step inv "\<lambda>s. log_seqs (log s)"
  using any_step log_step_seqs by unfold_locales (blast intro: log_inv)+

end
