(* ===== verification/Memory_Proofs.thy ===== *)
theory Memory_Proofs
  imports Memory_Store Message_Log
begin

text \<open>
  The in-memory adapter implements the abstract log: its entries are the stored messages,
  \<open>mem_step\<close> is one call on the store as a step of a run, and \<open>mem_inv\<close> is the invariant that
  ties the id counter and the channel counters to the message list.
\<close>

section \<open>The step function of a run\<close>

fun mem_step :: "store_op \<Rightarrow> memory_store \<Rightarrow> (agent \<times> string) list \<times> memory_store" where
  "mem_step (Send now ch sender body corr reply_to) s =
     ([], snd (mem_send now ch sender body corr reply_to s))"
| "mem_step (Recv a chans mx) s =
     (let (msgs, s') = mem_recv a chans mx s in (map (\<lambda>m. (a, wire_id m)) msgs, s'))"
| "mem_step (Subscribe a p) s = ([], snd (mem_subscribe a p s))"
| "mem_step (Unsubscribe a ps) s = ([], snd (mem_unsubscribe a ps s))"
| "mem_step (Ack now a mid status reason) s = ([], snd (mem_ack now a mid status reason s))"
| "mem_step (Heartbeat now a status ttl) s = ([], snd (mem_heartbeat now a status ttl s))"
| "mem_step (GroupCreate now a g) s = ([], snd (mem_group_create now a g s))"
| "mem_step (GroupInvite now a g b) s = ([], snd (mem_group_invite now a g b s))"
| "mem_step (GroupJoin now a g) s = ([], snd (mem_group_join now a g s))"
| "mem_step (GroupLeave now a g) s = ([], snd (mem_group_leave now a g s))"

section \<open>The abstraction\<close>

definition mem_entry :: "stored_message \<Rightarrow> log_entry" where
  "mem_entry m = \<lparr>le_id = str_int (mm_id m), le_channel = mm_channel m, le_seq = mm_seq m,
     le_readers = mm_delivered_to m\<rparr>"

definition mem_log :: "memory_store \<Rightarrow> log_entry list" where
  "mem_log s = map mem_entry (ms_messages s)"

definition mem_inv :: "memory_store \<Rightarrow> bool" where
  "mem_inv s \<longleftrightarrow> distinct (map mm_id (ms_messages s)) \<and>
     (\<forall>i \<in> mm_id ` set (ms_messages s). i < ms_next_id s) \<and>
     (\<forall>c. dget_default (ms_channel_seq s) c 0 = int (length (log_seqs (mem_log s) c)))"

lemma mem_entry_fields [simp]:
  "le_id (mem_entry m) = str_int (mm_id m)" "le_channel (mem_entry m) = mm_channel m"
  "le_seq (mem_entry m) = mm_seq m" "le_readers (mem_entry m) = mm_delivered_to m"
  by (simp_all add: mem_entry_def)

lemma mem_inv_init: "mem_inv memory_init"
  by (simp add: mem_inv_def memory_init_def mem_log_def log_seqs_def dget_default_def)

lemma mem_log_ids: "mem_inv s \<Longrightarrow> distinct (map le_id (mem_log s))"
  by (simp add: mem_inv_def mem_log_def distinct_map inj_on_def)

lemma mem_id_unique:
  "mem_inv s \<Longrightarrow> m \<in> set (ms_messages s) \<Longrightarrow> m' \<in> set (ms_messages s) \<Longrightarrow>
     mm_id m = mm_id m' \<Longrightarrow> m = m'"
  by (simp add: mem_inv_def distinct_map inj_on_def)

section \<open>How a call changes the messages\<close>

lemma mark_delivered_log:
  "map mem_entry (mark_delivered a ids ms) = mark_read a (str_int ` ids) (map mem_entry ms)"
  by (induction ms) (auto simp: mark_delivered_def mark_read_def mem_entry_def)

lemma mark_delivered_ids [simp]: "map mm_id (mark_delivered a ids ms) = map mm_id ms"
  by (induction ms) (simp_all add: mark_delivered_def)

lemma mark_delivered_id_set [simp]: "mm_id ` set (mark_delivered a ids ms) = mm_id ` set ms"
  using mark_delivered_ids [of a ids ms] by (metis set_map)

lemma mark_delivered_twice:
  "mark_delivered a ids (mark_delivered a ids' ms) = mark_delivered a (ids \<union> ids') ms"
  by (induction ms) (auto simp: mark_delivered_def)

lemma unsubscribe_loop_marks:
  "\<exists>ids. fst (mem_unsubscribe_loop a patterns ps msgs removed kept cleared) = mark_delivered a ids msgs"
proof (induction a patterns ps msgs removed kept cleared rule: mem_unsubscribe_loop.induct)
  case (1 a patterns msgs removed kept cleared)
  then show ?case by (auto simp: mark_delivered_def intro: exI [where x = "{}"])
next
  case (2 a patterns p ps msgs removed kept cleared)
  then show ?case by (auto simp: Let_def mark_delivered_twice)
qed

lemma mem_inv_marked:
  assumes "mem_inv s" and "ms_messages s' = mark_delivered a ids (ms_messages s)"
    and "ms_next_id s' = ms_next_id s" and "ms_channel_seq s' = ms_channel_seq s"
  shows "mem_inv s'"
  using assms
  by (simp add: mem_inv_def mem_log_def mark_delivered_log image_image del: ball_simps image_iff
      flip: set_map)

definition mem_appended :: "memory_store \<Rightarrow> memory_store \<Rightarrow> bool" where
  "mem_appended s s' \<longleftrightarrow> (\<exists>m. ms_messages s' = ms_messages s @ [m] \<and> ms_next_id s' = ms_next_id s + 1 \<and>
     mm_id m = ms_next_id s \<and> mm_delivered_to m = {} \<and>
     mm_seq m = dget_default (ms_channel_seq s) (mm_channel m) 0 + 1 \<and>
     ms_channel_seq s' = dset (ms_channel_seq s) (mm_channel m) (mm_seq m))"

lemma mem_send_appended: "mem_appended s (snd (mem_send now ch sender body corr rt s))"
  by (simp add: mem_appended_def mem_send_def mem_append_def Let_def)

lemma mem_heartbeat_appended: "mem_appended s (snd (mem_heartbeat now a status ttl s))"
  by (simp add: mem_appended_def mem_heartbeat_def mem_append_def Let_def)

lemma mem_inv_appended:
  assumes "mem_inv s" and "mem_appended s s'" shows "mem_inv s'"
proof -
  obtain m where m: "ms_messages s' = ms_messages s @ [m]" "ms_next_id s' = ms_next_id s + 1"
    "mm_id m = ms_next_id s" "mm_seq m = dget_default (ms_channel_seq s) (mm_channel m) 0 + 1"
    "ms_channel_seq s' = dset (ms_channel_seq s) (mm_channel m) (mm_seq m)"
    using assms(2) by (auto simp: mem_appended_def)
  have "mm_id m \<notin> mm_id ` set (ms_messages s)"
    "\<forall>i \<in> mm_id ` set (ms_messages s). i < ms_next_id s'"
    using assms(1) m(2,3) unfolding mem_inv_def by force+
  with assms(1) m show ?thesis by (simp add: mem_inv_def mem_log_def)
qed

lemma mem_appended_log:
  assumes "mem_inv s" and "mem_appended s s'" shows "log_step A (mem_log s) (mem_log s')"
proof -
  obtain m where m: "ms_messages s' = ms_messages s @ [m]" "mm_id m = ms_next_id s"
    "mm_delivered_to m = {}" "mm_seq m = dget_default (ms_channel_seq s) (mm_channel m) 0 + 1"
    using assms(2) by (auto simp: mem_appended_def)
  have "fresh_entry (mem_log s) (mem_entry m)"
    using assms(1) m by (auto simp: fresh_entry_def mem_inv_def mem_log_def)
  then show ?thesis using m(1) by (auto simp: log_step_def mem_log_def)
qed

lemma mem_add_pattern_fields [simp]:
  "ms_messages (mem_add_pattern a p s) = ms_messages s"
  "ms_next_id (mem_add_pattern a p s) = ms_next_id s"
  "ms_channel_seq (mem_add_pattern a p s) = ms_channel_seq s"
  "ms_groups (mem_add_pattern a p s) = ms_groups s"
  by (simp_all add: mem_add_pattern_def Let_def)

lemma mem_inv_kept:
  "mem_inv s \<Longrightarrow> ms_messages s' = ms_messages s \<Longrightarrow> ms_next_id s' = ms_next_id s \<Longrightarrow>
     ms_channel_seq s' = ms_channel_seq s \<Longrightarrow> mem_inv s'"
  by (simp add: mem_inv_def mem_log_def)

section \<open>One call as a step of the log\<close>

definition mem_keeps :: "memory_store \<Rightarrow> memory_store \<Rightarrow> bool" where
  "mem_keeps s s' \<longleftrightarrow> ms_messages s' = ms_messages s \<and> ms_next_id s' = ms_next_id s \<and>
     ms_channel_seq s' = ms_channel_seq s"

lemma mem_step_cases:
  obtains (marked) a ids where "a \<in> drops_for op \<or> (\<exists>chans n. op = Recv a chans n)"
      "ms_messages (snd (mem_step op s)) = mark_delivered a ids (ms_messages s)"
      "ms_next_id (snd (mem_step op s)) = ms_next_id s"
      "ms_channel_seq (snd (mem_step op s)) = ms_channel_seq s"
  | (appended) "\<not> is_recv op" "mem_appended s (snd (mem_step op s))"
  | (kept) "\<not> is_recv op" "mem_keeps s (snd (mem_step op s))"
proof (cases op)
  case (Recv a chans n)
  then show thesis
    by (intro marked [of a "mm_id ` set (mem_eligible a chans n s)"])
      (simp_all add: mem_recv_def Let_def)
next
  case (Unsubscribe a ps)
  obtain ids where "fst (mem_unsubscribe_loop a ps (mem_patterns_for s a) (ms_messages s) [] [] 0) =
      mark_delivered a ids (ms_messages s)"
    using unsubscribe_loop_marks by blast
  with Unsubscribe show thesis
    by (intro marked [of a ids]) (simp_all add: mem_unsubscribe_def Let_def split_beta)
qed (use mem_send_appended [of s] mem_heartbeat_appended [of s] appended kept in
  \<open>auto simp: mem_keeps_def mem_subscribe_def mem_ack_def mem_group_create_def mem_group_invite_def
    mem_group_join_def mem_group_leave_def Let_def\<close>)

lemma mem_step_inv [sox_intros]:
  assumes "mem_inv s" shows "mem_inv (snd (mem_step op s))"
proof (cases rule: mem_step_cases [of op s])
  case (marked a ids)
  from assms marked(2-4) show ?thesis by (rule mem_inv_marked)
next
  case appended
  from assms appended(2) show ?thesis by (rule mem_inv_appended)
next
  case kept
  then show ?thesis
    using mem_inv_kept [OF assms] unfolding mem_keeps_def by blast
qed

lemma mem_step_log:
  assumes "mem_inv s" and "\<not> is_recv op"
  shows "log_step (drops_for op) (mem_log s) (mem_log (snd (mem_step op s)))"
proof (cases rule: mem_step_cases [of op s])
  case (marked a ids)
  then have "mem_log (snd (mem_step op s)) = mark_read a (str_int ` ids) (mem_log s)"
    by (simp add: mem_log_def mark_delivered_log)
  with marked(1) assms(2) show ?thesis by (auto simp: log_step_def)
qed (use mem_appended_log [OF assms(1)] in \<open>auto simp: mem_keeps_def mem_log_def log_step_def\<close>)

section \<open>What \<open>recv\<close> takes\<close>

lemma set_mem_eligible:
  "set (mem_eligible a chans mx s) \<subseteq> {m \<in> set (ms_messages s). mem_wanted s a chans m}"
  by (auto simp: mem_eligible_def collect_before_take dest: in_set_takeD)

lemma wire_id_to_wire [simp]: "wire_id (to_wire m) = str_int (mm_id m)"
  by (simp add: to_wire_def)

lemma distinct_mem_eligible: "mem_inv s \<Longrightarrow> distinct (mem_eligible a chans mx s)"
  by (simp add: mem_eligible_def collect_before_take mem_inv_def distinct_map)

lemma mem_recv_messages:
  "ms_messages (snd (mem_recv a chans mx s)) =
     mark_delivered a (mm_id ` set (mem_eligible a chans mx s)) (ms_messages s)"
  by (simp add: mem_recv_def Let_def)

lemma mem_step_Recv:
  "fst (mem_step (Recv a chans mx) s) =
     map (\<lambda>m. (a, str_int (mm_id m))) (mem_eligible a chans mx s)"
  by (simp add: mem_recv_def Let_def)

lemma mem_recv_takes:
  assumes "mem_inv s"
  shows "log_take a (mem_log s) (fst (mem_step (Recv a chans n) s)) (mem_log (snd (mem_step (Recv a chans n) s)))"
proof -
  let ?es = "mem_eligible a chans n s"
  have sub: "m \<in> set (ms_messages s) \<and> a \<notin> mm_delivered_to m" if "m \<in> set ?es" for m
    using that set_mem_eligible [of a chans n s] by (auto simp: mem_wanted_def)
  have ids: "distinct (map (\<lambda>m. str_int (mm_id m)) ?es)"
    using distinct_mem_eligible [OF assms] sub mem_id_unique [OF assms]
    by (auto simp: distinct_map inj_on_def)
  have marks: "mem_log (snd (mem_recv a chans n s)) =
      mark_read a (le_id ` set (map mem_entry ?es)) (mem_log s)"
    by (simp add: mem_log_def mem_recv_messages mark_delivered_log image_image)
  show ?thesis
    unfolding log_take_def mem_step_Recv
    by (intro exI [of _ "map mem_entry ?es"])
      (use sub ids marks in \<open>auto simp: mem_log_def comp_def Let_def split_beta\<close>)
qed

section \<open>Subscriptions\<close>

lemma mem_patterns_add:
  "set (mem_patterns_for (mem_add_pattern b p s) a) =
     set (mem_patterns_for s a) \<union> (if a = b then {p} else {})"
  by (auto simp: mem_patterns_for_def mem_add_pattern_def Let_def)

lemma mem_patterns_groups [simp]:
  "mem_patterns_for (s\<lparr>ms_groups := g\<rparr>) a = mem_patterns_for s a"
  by (simp add: mem_patterns_for_def)

lemma mem_step_patterns:
  assumes "a \<notin> drops_for op"
  shows "set (mem_patterns_for s a) \<subseteq> set (mem_patterns_for (snd (mem_step op s)) a)"
  using assms
  by (cases op) (simp_all add: mem_send_def mem_append_def mem_recv_def mem_subscribe_def
      mem_unsubscribe_def mem_ack_def mem_heartbeat_def mem_group_create_def mem_group_invite_def
      mem_group_join_def mem_group_leave_def mem_patterns_add Let_def split_beta,
    auto simp: mem_patterns_for_def)

section \<open>The contract of the port\<close>

interpretation mem: message_log mem_step mem_inv mem_log mem_patterns_for
proof
  fix s op a chans n
  assume inv: "mem_inv s"
  show "mem_inv (snd (mem_step op s))" using inv by (rule mem_step_inv)
  show "distinct (map le_id (mem_log s))" using inv by (rule mem_log_ids)
  show "log_step (drops_for op) (mem_log s) (mem_log (snd (mem_step op s)))" if "\<not> is_recv op"
    using inv that by (rule mem_step_log)
  show "log_take a (mem_log s) (fst (mem_step (Recv a chans n) s))
      (mem_log (snd (mem_step (Recv a chans n) s)))" using inv by (rule mem_recv_takes)
  show "set (mem_patterns_for s a) \<subseteq> set (mem_patterns_for (snd (mem_step op s)) a)"
    if "a \<notin> drops_for op" using that by (rule mem_step_patterns)
next
  fix op s
  show "fst (mem_step op s) = []" if "\<not> is_recv op" using that by (cases op) simp_all
qed

end
