(* ===== verification/Memory_Properties.thy ===== *)
theory Memory_Properties
  imports Memory_Proofs
begin

text \<open>
  What a client of the in-memory adapter can rely on, from the empty store on: at most one
  delivery per agent and message, delivery of everything a subscriber has not dropped,
  gapless channel numbers, and the exact selection \<open>recv\<close> makes.
\<close>

section \<open>Runs from the empty store\<close>

abbreviation mem_run :: "store_op list \<Rightarrow> memory_store" where
  "mem_run ops \<equiv> snd (run_ops mem_step ops memory_init)"

lemma mem_run_inv [sox_intros]: "mem_inv (mem_run ops)"
  by (rule mem.run_inv [OF mem_inv_init])

lemma run_ops_append:
  "run_ops step (xs @ ys) s =
     (fst (run_ops step xs s) @ fst (run_ops step ys (snd (run_ops step xs s))),
      snd (run_ops step ys (snd (run_ops step xs s))))"
  by (induction xs arbitrary: s) (simp_all add: run_ops_Cons del: run_ops.simps(2))

lemma length_mem_eligible:
  "0 \<le> n \<Longrightarrow> length (mem_eligible a chans n s) \<le> nat n"
  by (simp add: mem_eligible_def collect_before_take)

lemma mem_eligible_all:
  assumes "int (length (ms_messages s)) \<le> n"
  shows "set (mem_eligible a chans n s) = {m \<in> set (ms_messages s). mem_wanted s a chans m}"
proof -
  have "length (filter (mem_wanted s a chans) (ms_messages s)) \<le> nat n"
    using length_filter_le [of "mem_wanted s a chans" "ms_messages s"] assms by linarith
  then show ?thesis by (simp add: mem_eligible_def collect_before_take)
qed

lemma mem_send_pending:
  assumes "mem_matches_agent s ch a"
  shows "(a, fst (fst (mem_send now ch sender body corr rt s))) \<in>
    log_pending (mem_log (snd (mem_send now ch sender body corr rt s)))
      (mem_patterns_for (snd (mem_send now ch sender body corr rt s)))"
proof -
  let ?s = "snd (mem_send now ch sender body corr rt s)"
  let ?m = "fst (mem_append ch sender body corr now rt s)"
  have "mem_entry ?m \<in> set (mem_log ?s)"
    by (simp add: mem_log_def mem_send_def mem_append_def Let_def)
  moreover have "a \<notin> le_readers (mem_entry ?m)" by (simp add: mem_append_def Let_def)
  moreover have "matches_any (le_channel (mem_entry ?m)) (mem_patterns_for ?s a)"
    using assms by (simp add: mem_matches_agent_def mem_send_def mem_append_def Let_def mem_patterns_for_def)
  moreover have "le_id (mem_entry ?m) = fst (fst (mem_send now ch sender body corr rt s))"
    by (simp add: mem_send_def mem_append_def Let_def)
  ultimately show ?thesis using log_pendingI [of "mem_entry ?m" _ a] by metis
qed

lemma mem_pending_received:
  assumes "(a, i) \<in> log_pending (mem_log s) (mem_patterns_for s)"
    and "int (length (ms_messages s)) \<le> n"
  shows "(a, i) \<in> set (fst (mem_step (Recv a None n) s))"
proof -
  obtain e where "e \<in> set (mem_log s)" "a \<notin> le_readers e" "i = le_id e"
    "matches_any (le_channel e) (mem_patterns_for s a)"
    using assms(1) by (auto elim!: log_pendingE)
  then obtain m where m: "m \<in> set (ms_messages s)" "a \<notin> mm_delivered_to m"
    "matches_any (mm_channel m) (mem_patterns_for s a)" "i = str_int (mm_id m)"
    by (auto simp: mem_log_def)
  then have "m \<in> set (mem_eligible a None n s)"
    by (simp add: mem_eligible_all [OF assms(2)] mem_wanted_def)
  with m(4) show ?thesis unfolding mem_step_Recv by auto
qed

section \<open>Properties\<close>

text \<open>
  C1. At-most-once delivery: over every sequence of calls on a fresh \<open>MemoryStore\<close>, by any
  agents, no message is handed to the same agent twice.
\<close>

theorem mem_at_most_once:
  "distinct (fst (run_ops mem_step ops memory_init))"
  by (rule mem.at_most_once [OF mem_inv_init])

text \<open>
  C7. No message is lost: a message sent to a channel an agent subscribes to is returned to
  this agent by one of its later \<open>recv\<close> calls, whatever other calls come in between, as long
  as the agent itself does not unsubscribe or leave a group; a final \<open>recv\<close> whose bound is
  at least the number of stored messages returns it at the latest.
\<close>

theorem mem_send_delivered:
  assumes "mem_matches_agent (mem_run before) ch a"
    and "s1 = snd (mem_send now ch sender body corr rt (mem_run before))"
    and "mid = fst (fst (mem_send now ch sender body corr rt (mem_run before)))"
    and "\<forall>op \<in> set later. a \<notin> drops_for op"
    and "int (length (ms_messages (snd (run_ops mem_step later s1)))) \<le> n"
  shows "(a, mid) \<in> set (fst (run_ops mem_step (later @ [Recv a None n]) s1))"
proof -
  have inv: "mem_inv s1"
    using mem_step_inv [OF mem_run_inv, of "Send now ch sender body corr rt"] assms(2) by simp
  have "(a, mid) \<in> log_pending (mem_log s1) (mem_patterns_for s1)"
    unfolding assms(2,3) by (rule mem_send_pending [OF assms(1)])
  then have "(a, mid) \<in> set (fst (run_ops mem_step later s1)) \<or>
      (a, mid) \<in> log_pending (mem_log (snd (run_ops mem_step later s1)))
        (mem_patterns_for (snd (run_ops mem_step later s1)))"
    using mem.never_lost [OF inv] assms(4) by simp
  then show ?thesis
    using mem_pending_received [OF _ assms(5)]
    by (auto simp: run_ops_append run_ops_Cons simp del: run_ops.simps(2) mem_step.simps)
qed

theorem mem_send_delivered_witness:
  "(''a'', ''1'') \<in> set (fst (run_ops mem_step ([Heartbeat 2 ''b'' ''online'' None] @ [Recv ''a'' None 5])
     (snd (mem_send 1 ''c'' ''b'' [] None None (mem_run [Subscribe ''a'' ''c'']))) ))"
  by (rule mem_send_delivered [where before = "[Subscribe ''a'' ''c'']"])
    (simp_all add: mem_matches_agent_def mem_patterns_for_def mem_subscribe_def mem_add_pattern_def
      memory_init_def dget_default_def matches_any_iff fnmatchcase_exact exact_pattern_def mem_send_def
      mem_append_def mem_heartbeat_def Let_def str_int_small)

text \<open>
  C8. Channel numbers: after every run, the messages of a channel carry the numbers 1, 2, 3
  and so on, in the order in which they were stored, without a gap or a repetition.
\<close>

theorem mem_channel_numbers:
  "map mm_seq (filter (\<lambda>m. mm_channel m = ch) (ms_messages (mem_run ops))) =
     map int [1..<Suc (length (filter (\<lambda>m. mm_channel m = ch) (ms_messages (mem_run ops))))]"
proof -
  have "log_seqs (mem_log s) ch = map mm_seq (filter (\<lambda>m. mm_channel m = ch) (ms_messages s))" for s
    by (simp add: log_seqs_def mem_log_def filter_map comp_def)
  then show ?thesis
    using mem.numbered.gapless [OF mem_inv_init, of ch ops] by (simp add: memory_init_def)
qed

text \<open>
  What one \<open>recv\<close> returns: the first \<open>max_messages\<close> undelivered messages of the requested
  channels, or of the subscribed ones, in storage order, then sorted by channel, time and id;
  they are exactly the messages that leave the agent's undelivered set.
\<close>

theorem mem_recv_selection:
  assumes "0 \<le> n"
  shows "fst (mem_recv a chans n (mem_run ops)) =
      map to_wire (sort_key message_order
        (take (nat n) (filter (mem_wanted (mem_run ops) a chans) (ms_messages (mem_run ops))))) \<and>
    {m \<in> set (ms_messages (snd (mem_recv a chans n (mem_run ops)))). a \<notin> mm_delivered_to m} =
      {m \<in> set (ms_messages (mem_run ops)). a \<notin> mm_delivered_to m} -
        set (take (nat n) (filter (mem_wanted (mem_run ops) a chans) (ms_messages (mem_run ops))))"
    (is "?A \<and> ?B")
proof
  let ?s = "mem_run ops"
  have sel: "set (mem_eligible a chans n ?s) =
      set (take (nat n) (filter (mem_wanted ?s a chans) (ms_messages ?s)))"
    by (simp add: mem_eligible_def collect_before_take)
  have unique: "mm_id m \<in> mm_id ` set (mem_eligible a chans n ?s) \<longleftrightarrow>
      m \<in> set (mem_eligible a chans n ?s)" if "m \<in> set (ms_messages ?s)" for m
    using mem_id_unique [OF mem_run_inv that] set_mem_eligible [of a chans n ?s] by blast
  show ?A by (simp add: mem_recv_def mem_eligible_def collect_before_take Let_def)
  show ?B unfolding mem_recv_messages sel [symmetric]
    by (auto simp: mark_delivered_def unique)
qed

theorem mem_recv_selection_witness:
  "map wire_id (fst (mem_recv ''a'' (Some [''c'']) 1 (mem_run
     [Send 1 ''c'' ''b'' [] None None, Send 2 ''c'' ''b'' [] None None]))) = [''1'']"
  by (subst mem_recv_selection [THEN conjunct1])
    (simp_all add: memory_init_def mem_send_def mem_append_def mem_wanted_def Let_def
      dget_default_def str_int_small message_order_def comp_def)

text \<open>
  \<open>group_join\<close>: the caller is an active member afterwards exactly when it was one or had
  a pending invitation, and nobody else's membership changes; but the caller is subscribed
  to the group's channel in every case, so an uninvited agent reads what is sent there.
\<close>

theorem mem_group_join_effect:
  assumes "exact_pattern g" and "s' = snd (mem_group_join now a g s)"
  shows "mem_matches_agent s' g a \<and>
    (active_member a (dget_default (ms_groups s') g []) \<longleftrightarrow>
       active_member a (dget_default (ms_groups s) g []) \<or>
       (\<exists>m \<in> set (dget_default (ms_groups s) g []). gm_agent_id m = a \<and> gm_status m = ''invited'')) \<and>
    (\<forall>b h. b \<noteq> a \<or> h \<noteq> g \<longrightarrow> active_member b (dget_default (ms_groups s') h []) =
       active_member b (dget_default (ms_groups s) h []))"
proof -
  have groups: "dget_default (ms_groups s') h [] =
      (if h = g then activate_first a now (dget_default (ms_groups s) g [])
       else dget_default (ms_groups s) h [])" for h
    by (auto simp: assms(2) mem_group_join_def Let_def has_key_map_of dget_default_def)
  have sub: "mem_matches_agent s' g a"
    using fnmatchcase_exact [OF assms(1), of g] by (auto simp: assms(2) mem_matches_agent_def matches_any_iff mem_group_join_def
        mem_add_pattern_def mem_patterns_for_def Let_def intro!: bexI [where x = g])
  show ?thesis
    by (simp add: groups sub activate_first_self activate_first_other)
qed

theorem mem_group_join_effect_witness:
  "mem_matches_agent (snd (mem_group_join 2 ''eve'' ''group/g''
       (mem_run [GroupCreate 1 ''bob'' (Some ''g'')]))) ''group/g'' ''eve'' \<and>
   \<not> active_member ''eve'' (dget_default (ms_groups (snd (mem_group_join 2 ''eve'' ''group/g''
       (mem_run [GroupCreate 1 ''bob'' (Some ''g'')])))) ''group/g'' [])"
  using mem_group_join_effect [OF _ refl, of "''group/g''" 2 "''eve''"
      "mem_run [GroupCreate 1 ''bob'' (Some ''g'')]"]
  by (simp add: exact_pattern_def mem_group_create_def memory_init_def active_member_def
      dget_default_def Let_def)

end
