(* ===== verification/Sqlite_Store.thy ===== *)
theory Sqlite_Store
  imports Backing_Store
begin

text \<open>
  The SQLite adapter (adapters/backing_stores/sqlite/store.py). The database is a record of
  its tables: \<open>messages\<close> as the list of its rows in rowid order (\<open>AUTOINCREMENT\<close> hands out
  increasing ids), \<open>subscriptions\<close> as a list of distinct pairs (its primary key), \<open>liveness\<close>
  keyed by agent. Each SQL statement is written out on these lists; where SQLite leaves the
  order of a result open, rows come in table order. The JSON text columns (\<open>body\<close>,
  \<open>delivered_to\<close>) are held decoded. A method that calls \<open>_require_conn\<close> on a closed store
  raises; what it has changed before that stays changed.
\<close>

section \<open>State\<close>

record message_row =
  rw_id :: int
  rw_channel :: channel
  rw_sender :: agent
  rw_body :: pydict
  rw_correlation_id :: "string option"
  rw_sent_at :: time
  rw_delivered_to :: "agent list"
  rw_seq :: int
  rw_reply_to :: "string option"

record sqlite_store =
  sq_conn :: bool
  sq_messages :: "message_row list"
  sq_last_id :: int
  sq_subscriptions :: "(agent \<times> string) list"
  sq_liveness :: "(agent \<times> liveness_record) list"
  sq_new_message_event :: bool
  sq_ack_records :: "(string \<times> ack_record) list"
  sq_groups :: "(string \<times> group_member list) list"

definition sqlite_init :: sqlite_store where
  "sqlite_init = \<lparr>sq_conn = False, sq_messages = [], sq_last_id = 0, sq_subscriptions = [],
     sq_liveness = [], sq_new_message_event = False, sq_ack_records = [], sq_groups = []\<rparr>"

definition build_message :: "message_row \<Rightarrow> pydict" where
  "build_message r = wire_message (str_int (rw_id r)) (rw_channel r) (rw_sender r) (rw_body r)
     (rw_correlation_id r) (rw_sent_at r) (rw_seq r) (rw_reply_to r)"

section \<open>Lifecycle\<close>

text \<open>
  \<open>initialize\<close> opens the connection (the tables of the file are the ones of the state; the
  migration of an older file is the subject of the theory \<open>Migration\<close>).
\<close>

definition sq_initialize :: "sqlite_store \<Rightarrow> sqlite_store" where
  "sq_initialize s = s\<lparr>sq_conn := True\<rparr>"

definition sq_close :: "sqlite_store \<Rightarrow> sqlite_store" where
  "sq_close s = (if sq_conn s then s\<lparr>sq_conn := False\<rparr> else s)"

definition no_conn :: exc where
  "no_conn = RuntimeError ''SqliteStore.initialize() must be called before using the store.''"

definition require_conn :: "sqlite_store \<Rightarrow> unit result" where
  "require_conn s = (if sq_conn s then Inr () else Inl no_conn)"

definition get_patterns_for_agent :: "agent \<Rightarrow> sqlite_store \<Rightarrow> string list result" where
  "get_patterns_for_agent a s =
     bind_res (require_conn s) (\<lambda>_. Inr (map snd (filter (\<lambda>r. fst r = a) (sq_subscriptions s))))"

definition agent_matches_channel :: "string list \<Rightarrow> channel \<Rightarrow> bool" where
  "agent_matches_channel patterns ch = matches_any ch patterns"

section \<open>send\<close>

text \<open>The three statements of \<open>send\<close>; an await between them lets other coroutines run.\<close>

definition select_next_seq :: "channel \<Rightarrow> message_row list \<Rightarrow> int" where
  "select_next_seq ch rows =
     (let seqs = map rw_seq (filter (\<lambda>r. rw_channel r = ch) rows)
      in (if seqs = [] then 0 else Max (set seqs)) + 1)"

definition select_count :: "channel \<Rightarrow> message_row list \<Rightarrow> int" where
  "select_count ch rows = int (length (filter (\<lambda>r. rw_channel r = ch) rows))"

definition insert_message ::
  "channel \<Rightarrow> agent \<Rightarrow> pydict \<Rightarrow> string option \<Rightarrow> time \<Rightarrow> int \<Rightarrow> string option \<Rightarrow> sqlite_store \<Rightarrow>
     int \<times> sqlite_store"
where
  "insert_message ch sender body corr sent_at seq reply_to s =
     (let row_id = sq_last_id s + 1
      in (row_id, s\<lparr>sq_last_id := row_id, sq_messages := sq_messages s @
           [\<lparr>rw_id = row_id, rw_channel = ch, rw_sender = sender, rw_body = body,
             rw_correlation_id = corr, rw_sent_at = sent_at, rw_delivered_to = [],
             rw_seq = seq, rw_reply_to = reply_to\<rparr>]\<rparr>))"

definition sq_send ::
  "time \<Rightarrow> channel \<Rightarrow> agent \<Rightarrow> pydict \<Rightarrow> string option \<Rightarrow> string option \<Rightarrow> sqlite_store \<Rightarrow>
     send_result result \<times> sqlite_store"
where
  "sq_send now ch sender body corr reply_to s =
     (case require_conn s of Inl e \<Rightarrow> (Inl e, s)
      | Inr _ \<Rightarrow>
          let seq = select_next_seq ch (sq_messages s);
              queue_depth = select_count ch (sq_messages s);
              (row_id, s') = insert_message ch sender body corr now seq reply_to s
          in (Inr (str_int row_id, now, seq, send_backpressure queue_depth),
              s'\<lparr>sq_new_message_event := True\<rparr>))"

section \<open>recv\<close>

definition row_order :: "message_row \<Rightarrow> channel \<times> time \<times> int" where
  "row_order r = (rw_channel r, rw_sent_at r, rw_id r)"

definition row_wanted :: "agent \<Rightarrow> channel list option \<Rightarrow> string list \<Rightarrow> message_row \<Rightarrow> bool" where
  "row_wanted a chans patterns r \<longleftrightarrow>
     a \<notin> set (rw_delivered_to r) \<and>
     (case chans of Some cs \<Rightarrow> rw_channel r \<in> set cs
      | None \<Rightarrow> agent_matches_channel patterns (rw_channel r))"

text \<open>\<open>UPDATE messages SET delivered_to = ? WHERE id = ?\<close> for every eligible row.\<close>

definition update_delivered :: "agent \<Rightarrow> int set \<Rightarrow> message_row list \<Rightarrow> message_row list" where
  "update_delivered a ids rows =
     map (\<lambda>r. if rw_id r \<in> ids then r\<lparr>rw_delivered_to := rw_delivered_to r @ [a]\<rparr> else r) rows"

definition eligible_rows ::
  "agent \<Rightarrow> channel list option \<Rightarrow> int \<Rightarrow> string list \<Rightarrow> message_row list \<Rightarrow> message_row list"
where
  "eligible_rows a chans max_messages patterns rows =
     collect_after max_messages (row_wanted a chans patterns) (sort_key row_order rows) []"

definition sq_recv ::
  "agent \<Rightarrow> channel list option \<Rightarrow> int \<Rightarrow> sqlite_store \<Rightarrow> pydict list result \<times> sqlite_store"
where
  "sq_recv a chans max_messages s =
     (case require_conn s of Inl e \<Rightarrow> (Inl e, s)
      | Inr _ \<Rightarrow>
          let patterns = (case chans of None \<Rightarrow> map snd (filter (\<lambda>r. fst r = a) (sq_subscriptions s))
                          | Some _ \<Rightarrow> [])
          in if chans = None \<and> patterns = [] then (Inr [], s)
             else let eligible = eligible_rows a chans max_messages patterns (sq_messages s)
                  in if eligible = [] then (Inr [], s)
                     else (Inr (map build_message eligible),
                           s\<lparr>sq_messages := update_delivered a (rw_id ` set eligible) (sq_messages s)\<rparr>))"

section \<open>Subscriptions\<close>

text \<open>\<open>INSERT OR IGNORE INTO subscriptions\<close>.\<close>

definition insert_subscription :: "agent \<Rightarrow> string \<Rightarrow> sqlite_store \<Rightarrow> sqlite_store" where
  "insert_subscription a p s =
     (if (a, p) \<in> set (sq_subscriptions s) then s
      else s\<lparr>sq_subscriptions := sq_subscriptions s @ [(a, p)]\<rparr>)"

definition delete_subscription :: "agent \<Rightarrow> string \<Rightarrow> sqlite_store \<Rightarrow> sqlite_store" where
  "delete_subscription a p s = s\<lparr>sq_subscriptions := filter (\<lambda>r. r \<noteq> (a, p)) (sq_subscriptions s)\<rparr>"

definition sq_subscribe :: "agent \<Rightarrow> string \<Rightarrow> sqlite_store \<Rightarrow> channel list result \<times> sqlite_store" where
  "sq_subscribe a p s =
     (case require_conn s of Inl e \<Rightarrow> (Inl e, s)
      | Inr _ \<Rightarrow>
          let s' = insert_subscription a p s
          in (Inr (filter (\<lambda>ch. fnmatchcase ch p) (remdups (map rw_channel (sq_messages s')))), s'))"

text \<open>The count is over rows of \<open>subscriptions\<close>, one per pattern of an agent.\<close>

definition sq_list_channels :: "time \<Rightarrow> time option \<Rightarrow> sqlite_store \<Rightarrow> (channel \<times> int) list result" where
  "sq_list_channels now since s =
     bind_res (require_conn s) (\<lambda>_.
       let cutoff = (case since of Some t \<Rightarrow> t | None \<Rightarrow> now - 86400);
           from_messages = map rw_channel (filter (\<lambda>r. rw_sent_at r \<ge> cutoff) (sq_messages s));
           from_patterns = filter exact_pattern (map snd (sq_subscriptions s))
       in Inr (map (\<lambda>ch. (ch, int (length (filter (\<lambda>sub. fnmatchcase ch (snd sub)) (sq_subscriptions s)))))
                (sort (remdups (from_messages @ from_patterns)))))"

definition delete_subscriptions :: "agent \<Rightarrow> string list \<Rightarrow> sqlite_store \<Rightarrow> sqlite_store" where
  "delete_subscriptions a ps s = fold (delete_subscription a) ps s"

definition sq_unsubscribe ::
  "agent \<Rightarrow> string list \<Rightarrow> sqlite_store \<Rightarrow> (string list \<times> int) result \<times> sqlite_store"
where
  "sq_unsubscribe a patterns s =
     (case require_conn s of Inl e \<Rightarrow> (Inl e, s)
      | Inr _ \<Rightarrow>
          let existing = map snd (filter (\<lambda>r. fst r = a) (sq_subscriptions s));
              removed = filter (\<lambda>p. p \<in> set patterns) existing
          in if removed = [] then (Inr ([], 0), s)
             else let s1 = delete_subscriptions a removed s;
                      hit = filter (\<lambda>r. a \<notin> set (rw_delivered_to r) \<and>
                              matches_any (rw_channel r) removed) (sq_messages s1)
                  in (Inr (removed, int (length hit)),
                      s1\<lparr>sq_messages := update_delivered a (rw_id ` set hit) (sq_messages s1)\<rparr>))"

section \<open>watch\<close>

definition get_max_delivered_id :: "agent \<Rightarrow> sqlite_store \<Rightarrow> int result" where
  "get_max_delivered_id a s = bind_res (require_conn s) (\<lambda>_.
     Inr (foldl max 0 (map rw_id (filter (\<lambda>r. a \<in> set (rw_delivered_to r)) (sq_messages s)))))"

definition fetch_new_for_agent :: "agent \<Rightarrow> int \<Rightarrow> sqlite_store \<Rightarrow> pydict list result" where
  "fetch_new_for_agent a after_id s =
     bind_res (get_patterns_for_agent a s) (\<lambda>patterns.
       if patterns = [] then Inr []
       else Inr (map build_message (filter (\<lambda>r. a \<notin> set (rw_delivered_to r) \<and>
              agent_matches_channel patterns (rw_channel r))
              (sort_key row_order (filter (\<lambda>r. rw_id r > after_id) (sq_messages s))))))"

text \<open>One round of the \<open>watch\<close> loop: the messages it yields and the new \<open>last_seen_id\<close>.\<close>

definition sq_watch_poll :: "agent \<Rightarrow> int \<Rightarrow> sqlite_store \<Rightarrow> (pydict list \<times> int) result" where
  "sq_watch_poll a last_seen s =
     bind_res (fetch_new_for_agent a last_seen s) (\<lambda>msgs.
       Inr (msgs, foldl (\<lambda>seen m. case parse_int (wire_id m) of Inr i \<Rightarrow> max seen i | Inl _ \<Rightarrow> seen)
                    last_seen msgs))"

section \<open>Acknowledgement, liveness and replay\<close>

definition sq_ack ::
  "time \<Rightarrow> agent \<Rightarrow> string \<Rightarrow> string \<Rightarrow> string option \<Rightarrow> sqlite_store \<Rightarrow>
     (string \<times> string \<times> time) \<times> sqlite_store"
where
  "sq_ack now a message_id status reason s =
     ((message_id, status, now),
      s\<lparr>sq_ack_records := dset (sq_ack_records s) message_id
          \<lparr>ak_agent_id = a, ak_status = status, ak_reason = reason, ak_acked_at = now\<rparr>\<rparr>)"

text \<open>The UPSERT keeps the namespace column; \<open>send\<close> reads the clock again.\<close>

definition sq_heartbeat ::
  "time \<Rightarrow> time \<Rightarrow> agent \<Rightarrow> string \<Rightarrow> int option \<Rightarrow> sqlite_store \<Rightarrow>
     (agent \<times> string \<times> time \<times> time) result \<times> sqlite_store"
where
  "sq_heartbeat now sent_at a status ttl s =
     (case require_conn s of Inl e \<Rightarrow> (Inl e, s)
      | Inr _ \<Rightarrow>
          let expires_at = now + real_of_int (effective_ttl ttl);
              ns = (case dget (sq_liveness s) a of None \<Rightarrow> None | Some r \<Rightarrow> lv_namespace r);
              s1 = s\<lparr>sq_liveness := dset (sq_liveness s) a
                       \<lparr>lv_status = status, lv_recorded_at = now, lv_expires_at = expires_at,
                        lv_namespace = ns\<rparr>\<rparr>;
              (r, s2) = sq_send sent_at ''sox/presence'' ''__server__''
                          [(''event'', PStr (''agent_'' @ status)), (''agent_id'', PStr a),
                           (''state'', PStr status), (''changed_at'', PFloat now)] None None s1
          in (bind_res r (\<lambda>_. Inr (a, status, now, expires_at)), s2))"

definition agent_of_row :: "time \<Rightarrow> agent \<times> liveness_record \<Rightarrow> agent_entry" where
  "agent_of_row now row =
     \<lparr>ae_agent_id = fst row,
      ae_presence_state = presence_of now (lv_status (snd row)) (lv_expires_at (snd row)),
      ae_last_heartbeat_at = trunc_real (lv_recorded_at (snd row) * 1000000000),
      ae_namespace = lv_namespace (snd row)\<rparr>"

definition sq_list_agents ::
  "time \<Rightarrow> string list option \<Rightarrow> string option \<Rightarrow> sqlite_store \<Rightarrow> agent_entry list result"
where
  "sq_list_agents now status_filter ns s = bind_res (require_conn s) (\<lambda>_.
     let rows = (case ns of None \<Rightarrow> sq_liveness s
                 | Some n \<Rightarrow> filter (\<lambda>r. lv_namespace (snd r) = Some n) (sq_liveness s))
     in Inr (filter (\<lambda>e. case status_filter of None \<Rightarrow> True | Some f \<Rightarrow> ae_presence_state e \<in> set f)
               (map (agent_of_row now) rows)))"

definition sq_replay ::
  "channel \<Rightarrow> int \<Rightarrow> int option \<Rightarrow> int \<Rightarrow> sqlite_store \<Rightarrow> (pydict list \<times> bool) result"
where
  "sq_replay ch since until_seq limit s = bind_res (require_conn s) (\<lambda>_.
     let rows = sort_key (\<lambda>r. (rw_seq r, rw_id r))
           (filter (\<lambda>r. rw_channel r = ch \<and> rw_seq r \<ge> since \<and>
              (case until_seq of None \<Rightarrow> True | Some u \<Rightarrow> rw_seq r \<le> u)) (sq_messages s))
     in Inr (map build_message (slice_to limit rows), int (length rows) > limit))"

section \<open>Groups\<close>

definition sq_group_create ::
  "time \<Rightarrow> agent \<Rightarrow> string option \<Rightarrow> sqlite_store \<Rightarrow> (string \<times> time) result \<times> sqlite_store"
where
  "sq_group_create now creator group_id s =
     (let bare = (case group_id of Some g \<Rightarrow> if g \<noteq> [] then g else ''grp-'' @ str_int (trunc_real now)
                  | None \<Rightarrow> ''grp-'' @ str_int (trunc_real now));
          full_id = ''group/'' @ bare;
          s1 = s\<lparr>sq_groups := dset (sq_groups s) full_id
                   [\<lparr>gm_agent_id = creator, gm_status = ''active'', gm_joined_at = now\<rparr>]\<rparr>
      in case require_conn s1 of Inl e \<Rightarrow> (Inl e, s1)
         | Inr _ \<Rightarrow> (Inr (full_id, now), insert_subscription creator full_id s1))"

definition sq_group_invite ::
  "time \<Rightarrow> agent \<Rightarrow> string \<Rightarrow> agent \<Rightarrow> sqlite_store \<Rightarrow> (agent \<times> time) result \<times> sqlite_store"
where
  "sq_group_invite now inviter group_id invitee s =
     (let members = dget_default (sq_groups s) group_id []
      in if \<not> active_member inviter members
         then (Inl (ValueError ''inviter is not an active member''), s)
         else let members' = (if list_ex (\<lambda>m. gm_agent_id m = invitee) members then members
                else members @ [\<lparr>gm_agent_id = invitee, gm_status = ''invited'', gm_joined_at = now\<rparr>])
              in (Inr (invitee, now), s\<lparr>sq_groups := dset (sq_groups s) group_id members'\<rparr>))"

definition sq_group_join ::
  "time \<Rightarrow> agent \<Rightarrow> string \<Rightarrow> sqlite_store \<Rightarrow> (string \<times> int \<times> time) result \<times> sqlite_store"
where
  "sq_group_join now a group_id s =
     (let members = activate_first a now (dget_default (sq_groups s) group_id []);
          s1 = (if has_key (sq_groups s) group_id
                then s\<lparr>sq_groups := dset (sq_groups s) group_id members\<rparr> else s)
      in case require_conn s1 of Inl e \<Rightarrow> (Inl e, s1)
         | Inr _ \<Rightarrow> (Inr (group_id, active_count members, now), insert_subscription a group_id s1))"

definition sq_group_leave ::
  "time \<Rightarrow> agent \<Rightarrow> string \<Rightarrow> sqlite_store \<Rightarrow> (string \<times> time) result \<times> sqlite_store"
where
  "sq_group_leave now a group_id s =
     (let members = dget_default (sq_groups s) group_id [];
          s1 = s\<lparr>sq_groups := dset (sq_groups s) group_id (filter (\<lambda>m. gm_agent_id m \<noteq> a) members)\<rparr>
      in case require_conn s1 of Inl e \<Rightarrow> (Inl e, s1)
         | Inr _ \<Rightarrow> (Inr (group_id, now), delete_subscription a group_id s1))"

definition sq_group_list_members :: "agent \<Rightarrow> string \<Rightarrow> sqlite_store \<Rightarrow> string \<times> group_member list" where
  "sq_group_list_members a group_id s = (group_id, dget_default (sq_groups s) group_id [])"

section \<open>Interleaved sends\<close>

text \<open>
  \<open>send\<close> takes no lock and suspends at each of its statements. A pending call is the record
  of its arguments, of its clock reading and of what it has read so far; a step runs one call up to its
  next await. The insert and its commit are one step, as all calls share the connection. A store that
  is closed under a pending call is not modelled.
\<close>

datatype send_phase =
    SendStart
  | SendSeqRead int
  | SendDepthRead int int
  | SendReturned send_result
  | SendRaised exc

record send_task =
  tk_channel :: channel
  tk_sender :: agent
  tk_body :: pydict
  tk_correlation_id :: "string option"
  tk_reply_to :: "string option"
  tk_now :: time
  tk_phase :: send_phase

definition task_step :: "send_task \<Rightarrow> sqlite_store \<Rightarrow> send_task \<times> sqlite_store" where
  "task_step t s =
     (case tk_phase t of
        SendStart \<Rightarrow>
          (case require_conn s of
             Inl e \<Rightarrow> (t\<lparr>tk_phase := SendRaised e\<rparr>, s)
           | Inr _ \<Rightarrow>
               (t\<lparr>tk_phase := SendSeqRead (select_next_seq (tk_channel t) (sq_messages s))\<rparr>, s))
      | SendSeqRead seq \<Rightarrow>
          (t\<lparr>tk_phase := SendDepthRead seq (select_count (tk_channel t) (sq_messages s))\<rparr>, s)
      | SendDepthRead seq depth \<Rightarrow>
          (let (row_id, s') = insert_message (tk_channel t) (tk_sender t) (tk_body t)
                 (tk_correlation_id t) (tk_now t) seq (tk_reply_to t) s
           in (t\<lparr>tk_phase := SendReturned (str_int row_id, tk_now t, seq, send_backpressure depth)\<rparr>,
               s'\<lparr>sq_new_message_event := True\<rparr>))
      | SendReturned r \<Rightarrow> (t, s)
      | SendRaised e \<Rightarrow> (t, s))"

text \<open>A call that is not interrupted is the \<open>send\<close> above.\<close>

definition pending_send ::
  "time \<Rightarrow> channel \<Rightarrow> agent \<Rightarrow> pydict \<Rightarrow> string option \<Rightarrow> string option \<Rightarrow> send_task" where
  "pending_send now ch sender body corr reply_to =
     \<lparr>tk_channel = ch, tk_sender = sender, tk_body = body, tk_correlation_id = corr,
      tk_reply_to = reply_to, tk_now = now, tk_phase = SendStart\<rparr>"

lemma uninterrupted_send:
  assumes "task_step (pending_send now ch sender body corr reply_to) s = (t1, s1)"
    and "task_step t1 s1 = (t2, s2)" and "task_step t2 s2 = (t3, s3)"
  shows "sq_send now ch sender body corr reply_to s =
    ((case tk_phase t3 of SendReturned r \<Rightarrow> Inr r | SendRaised e \<Rightarrow> Inl e | _ \<Rightarrow> undefined), s3)"
  using assms
  by (cases "sq_conn s")
    (auto simp: task_step_def pending_send_def sq_send_def require_conn_def Let_def split_beta)

end
