(* ===== verification/Sqlite_Proofs.thy ===== *)
theory Sqlite_Proofs
  imports Sqlite_Store Message_Log
begin

text \<open>
  The SQLite adapter implements the abstract log when its calls run one after the other: the
  entries are the rows of \<open>messages\<close>, and the invariant says that ids are distinct and that a
  channel's numbers are 1, 2, 3 and so on, so that \<open>MAX(seq) + 1\<close> is the next number.
\<close>

section \<open>The step function of a run\<close>

fun sq_step :: "store_op \<Rightarrow> sqlite_store \<Rightarrow> (agent \<times> string) list \<times> sqlite_store" where
  "sq_step (Send now ch sender body corr reply_to) s =
     ([], snd (sq_send now ch sender body corr reply_to s))"
| "sq_step (Recv a chans mx) s =
     (case sq_recv a chans mx s of
        (Inl e, s') \<Rightarrow> ([], s')
      | (Inr msgs, s') \<Rightarrow> (map (\<lambda>m. (a, wire_id m)) msgs, s'))"
| "sq_step (Subscribe a p) s = ([], snd (sq_subscribe a p s))"
| "sq_step (Unsubscribe a ps) s = ([], snd (sq_unsubscribe a ps s))"
| "sq_step (Ack now a mid status reason) s = ([], snd (sq_ack now a mid status reason s))"
| "sq_step (Heartbeat now a status ttl) s = ([], snd (sq_heartbeat now now a status ttl s))"
| "sq_step (GroupCreate now a g) s = ([], snd (sq_group_create now a g s))"
| "sq_step (GroupInvite now a g b) s = ([], snd (sq_group_invite now a g b s))"
| "sq_step (GroupJoin now a g) s = ([], snd (sq_group_join now a g s))"
| "sq_step (GroupLeave now a g) s = ([], snd (sq_group_leave now a g s))"

section \<open>The abstraction\<close>

definition sq_entry :: "message_row \<Rightarrow> log_entry" where
  "sq_entry r = \<lparr>le_id = str_int (rw_id r), le_channel = rw_channel r, le_seq = rw_seq r,
     le_readers = set (rw_delivered_to r)\<rparr>"

definition sq_log :: "sqlite_store \<Rightarrow> log_entry list" where
  "sq_log s = map sq_entry (sq_messages s)"

definition sq_patterns :: "sqlite_store \<Rightarrow> agent \<Rightarrow> string list" where
  "sq_patterns s a = map snd (filter (\<lambda>r. fst r = a) (sq_subscriptions s))"

definition sq_ids_ok :: "sqlite_store \<Rightarrow> bool" where
  "sq_ids_ok s \<longleftrightarrow> distinct (map rw_id (sq_messages s)) \<and>
     (\<forall>i \<in> rw_id ` set (sq_messages s). i \<le> sq_last_id s)"

definition sq_inv :: "sqlite_store \<Rightarrow> bool" where
  "sq_inv s \<longleftrightarrow> sq_ids_ok s \<and>
     (\<forall>c. log_seqs (sq_log s) c = map int [1..<Suc (length (log_seqs (sq_log s) c))])"

lemma sq_entry_fields [simp]:
  "le_id (sq_entry m) = str_int (rw_id m)" "le_channel (sq_entry m) = rw_channel m"
  "le_seq (sq_entry m) = rw_seq m" "le_readers (sq_entry m) = set (rw_delivered_to m)"
  by (simp_all add: sq_entry_def)

lemma sq_log_seqs: "log_seqs (sq_log s) c = map rw_seq (filter (\<lambda>r. rw_channel r = c) (sq_messages s))"
  by (simp add: log_seqs_def sq_log_def filter_map comp_def)

lemma sq_inv_init: "sq_inv sqlite_init"
  by (simp add: sq_inv_def sq_ids_ok_def sqlite_init_def sq_log_def log_seqs_def)

lemma sq_log_ids: "sq_ids_ok s \<Longrightarrow> distinct (map le_id (sq_log s))"
  by (simp add: sq_ids_ok_def sq_log_def distinct_map inj_on_def)

lemma sq_id_unique:
  "sq_ids_ok s \<Longrightarrow> m \<in> set (sq_messages s) \<Longrightarrow> m' \<in> set (sq_messages s) \<Longrightarrow>
     rw_id m = rw_id m' \<Longrightarrow> m = m'"
  by (simp add: sq_ids_ok_def distinct_map inj_on_def)

section \<open>The next number\<close>

lemma Max_upto: "0 < n \<Longrightarrow> Max (int ` {1..<Suc n}) = int n"
  by (rule Max_eqI) auto

lemma select_next_seq_inv:
  assumes "sq_inv s"
  shows "select_next_seq ch (sq_messages s) = int (length (log_seqs (sq_log s) ch)) + 1"
proof -
  let ?seqs = "log_seqs (sq_log s) ch"
  have "set ?seqs = int ` {1..<Suc (length ?seqs)}"
    using assms arg_cong [of _ _ set] by (metis list.set_map set_upt sq_inv_def)
  then have "?seqs \<noteq> [] \<Longrightarrow> Max (set ?seqs) = int (length ?seqs)"
    using Max_upto [of "length ?seqs"] by simp
  then show ?thesis
    by (simp add: select_next_seq_def sq_log_seqs Let_def)
qed

section \<open>How a call changes the rows\<close>

definition sq_keeps :: "sqlite_store \<Rightarrow> sqlite_store \<Rightarrow> bool" where
  "sq_keeps s s' \<longleftrightarrow> sq_messages s' = sq_messages s \<and> sq_last_id s' = sq_last_id s"

definition sq_marked :: "agent \<Rightarrow> int set \<Rightarrow> sqlite_store \<Rightarrow> sqlite_store \<Rightarrow> bool" where
  "sq_marked a ids s s' \<longleftrightarrow> sq_messages s' = update_delivered a ids (sq_messages s) \<and>
     sq_last_id s' = sq_last_id s"

definition sq_appended :: "sqlite_store \<Rightarrow> sqlite_store \<Rightarrow> bool" where
  "sq_appended s s' \<longleftrightarrow> (\<exists>r. sq_messages s' = sq_messages s @ [r] \<and> sq_last_id s' = sq_last_id s + 1 \<and>
     rw_id r = sq_last_id s + 1 \<and> rw_delivered_to r = [] \<and>
     rw_seq r = select_next_seq (rw_channel r) (sq_messages s))"

lemma update_delivered_log:
  "map sq_entry (update_delivered a ids rs) = mark_read a (str_int ` ids) (map sq_entry rs)"
  by (induction rs) (auto simp: update_delivered_def mark_read_def sq_entry_def)

lemma update_delivered_ids [simp]: "map rw_id (update_delivered a ids rs) = map rw_id rs"
  by (induction rs) (simp_all add: update_delivered_def)

lemma sq_marked_log: "sq_marked a ids s s' \<Longrightarrow> sq_log s' = mark_read a (str_int ` ids) (sq_log s)"
  by (simp add: sq_marked_def sq_log_def update_delivered_log)

lemma sq_ids_ok_marked:
  assumes "sq_ids_ok s" and "sq_marked a ids s s'" shows "sq_ids_ok s'"
  using assms by (simp add: sq_ids_ok_def sq_marked_def flip: set_map)

lemma sq_inv_marked: "sq_inv s \<Longrightarrow> sq_marked a ids s s' \<Longrightarrow> sq_inv s'"
  using sq_ids_ok_marked [of s a ids s'] by (simp add: sq_inv_def sq_marked_log)

lemma sq_inv_keeps: "sq_inv s \<Longrightarrow> sq_keeps s s' \<Longrightarrow> sq_inv s'"
  by (simp add: sq_inv_def sq_ids_ok_def sq_keeps_def sq_log_def)

lemma sq_appended_fresh:
  assumes "sq_inv s" and "sq_appended s s'"
  obtains r where "sq_log s' = sq_log s @ [sq_entry r]" "fresh_entry (sq_log s) (sq_entry r)"
    "sq_ids_ok s'"
proof -
  obtain r where r: "sq_messages s' = sq_messages s @ [r]" "sq_last_id s' = sq_last_id s + 1"
    "rw_id r = sq_last_id s + 1" "rw_delivered_to r = []"
    "rw_seq r = select_next_seq (rw_channel r) (sq_messages s)"
    using assms(2) by (auto simp: sq_appended_def)
  have new: "rw_id r \<notin> rw_id ` set (sq_messages s)"
    "\<forall>i \<in> rw_id ` set (sq_messages s). i \<le> sq_last_id s'"
    using assms(1) r(2,3) unfolding sq_inv_def sq_ids_ok_def by force+
  have "le_id ` set (sq_log s) = str_int ` rw_id ` set (sq_messages s)"
    by (simp add: sq_log_def image_image)
  then have "fresh_entry (sq_log s) (sq_entry r)"
    using new(1) r(4,5) select_next_seq_inv [OF assms(1)] by (auto simp: fresh_entry_def)
  moreover have "sq_ids_ok s'"
    using assms(1) new r(1-3) by (simp add: sq_ids_ok_def sq_inv_def)
  ultimately show thesis using that [of r] r(1) by (simp add: sq_log_def)
qed

lemma sq_appended_log:
  assumes "sq_inv s" and "sq_appended s s'" shows "log_step A (sq_log s) (sq_log s')"
  using sq_appended_fresh [OF assms] unfolding log_step_def by metis

lemma sq_inv_appended:
  assumes "sq_inv s" and "sq_appended s s'" shows "sq_inv s'"
proof -
  have "sq_ids_ok s'" using assms by (rule sq_appended_fresh)
  moreover have "log_seqs (sq_log s') c = map int [1..<Suc (length (log_seqs (sq_log s') c))]" for c
    using numbered_grow log_step_seqs [OF sq_appended_log [OF assms]] assms(1)
    unfolding sq_inv_def by blast
  ultimately show ?thesis unfolding sq_inv_def by blast
qed

section \<open>The shape of each call\<close>

lemma sq_subscription_fields [simp]:
  "sq_messages (insert_subscription a p s) = sq_messages s"
  "sq_last_id (insert_subscription a p s) = sq_last_id s"
  "sq_messages (delete_subscription a p s) = sq_messages s"
  "sq_last_id (delete_subscription a p s) = sq_last_id s"
  "sq_conn (insert_subscription a p s) = sq_conn s" "sq_groups (insert_subscription a p s) = sq_groups s"
  "sq_conn (delete_subscription a p s) = sq_conn s" "sq_groups (delete_subscription a p s) = sq_groups s"
  by (simp_all add: insert_subscription_def delete_subscription_def)

lemma sq_delete_subscriptions_fields [simp]:
  "sq_messages (delete_subscriptions a ps s) = sq_messages s"
  "sq_last_id (delete_subscriptions a ps s) = sq_last_id s"
  "sq_conn (delete_subscriptions a ps s) = sq_conn s"
  "sq_groups (delete_subscriptions a ps s) = sq_groups s"
  unfolding delete_subscriptions_def by (induction ps arbitrary: s) simp_all

lemma sq_send_shape:
  "sq_keeps s (snd (sq_send now ch sender body corr rt s)) \<or>
   sq_appended s (snd (sq_send now ch sender body corr rt s))"
  by (simp add: sq_send_def sq_keeps_def sq_appended_def insert_message_def require_conn_def Let_def)

lemma sq_heartbeat_shape:
  "sq_keeps s (snd (sq_heartbeat now sent a status ttl s)) \<or>
   sq_appended s (snd (sq_heartbeat now sent a status ttl s))"
  by (simp add: sq_heartbeat_def sq_send_def sq_keeps_def sq_appended_def insert_message_def
      require_conn_def Let_def)

lemma sq_unsubscribe_shape:
  "sq_keeps s (snd (sq_unsubscribe a ps s)) \<or> (\<exists>ids. sq_marked a ids s (snd (sq_unsubscribe a ps s)))"
  by (simp add: sq_unsubscribe_def sq_keeps_def sq_marked_def require_conn_def Let_def)
    blast

lemma sq_step_cases:
  assumes "\<not> is_recv op"
  obtains (marked) a ids where "a \<in> drops_for op" "sq_marked a ids s (snd (sq_step op s))"
  | (appended) "sq_appended s (snd (sq_step op s))"
  | (kept) "sq_keeps s (snd (sq_step op s))"
proof (cases op)
  case (Unsubscribe a ps)
  then show thesis using sq_unsubscribe_shape [of s a ps] marked kept by auto
next
  case (Send now ch sender body corr rt)
  then show thesis using sq_send_shape appended kept by (metis sq_step.simps(1) snd_conv)
next
  case (Heartbeat now a status ttl)
  then show thesis using sq_heartbeat_shape appended kept by (metis sq_step.simps(6) snd_conv)
qed (use assms kept in
  \<open>auto simp: sq_keeps_def sq_subscribe_def sq_ack_def sq_group_create_def sq_group_invite_def
    sq_group_join_def sq_group_leave_def Let_def require_conn_def\<close>)

section \<open>What \<open>recv\<close> takes\<close>

lemma set_eligible_rows:
  "set (eligible_rows a chans mx pats rows) \<subseteq> {r \<in> set rows. row_wanted a chans pats r}"
proof (cases "0 < mx")
  case True
  then show ?thesis
    by (auto simp: eligible_rows_def collect_after_take dest: in_set_takeD)
next
  case False
  then show ?thesis
    by (auto simp: eligible_rows_def collect_after_nonpos dest: in_set_takeD)
qed

lemma distinct_eligible_rows:
  "distinct rows \<Longrightarrow> distinct (eligible_rows a chans mx pats rows)"
  by (cases "0 < mx") (simp_all add: eligible_rows_def collect_after_take collect_after_nonpos)

lemma wire_id_build_message [simp]: "wire_id (build_message r) = str_int (rw_id r)"
  by (simp add: build_message_def)

definition sq_taken :: "agent \<Rightarrow> channel list option \<Rightarrow> int \<Rightarrow> sqlite_store \<Rightarrow> message_row list" where
  "sq_taken a chans n s =
     (if sq_conn s \<and> (chans = None \<longrightarrow> sq_patterns s a \<noteq> [])
      then eligible_rows a chans n (case chans of None \<Rightarrow> sq_patterns s a | Some _ \<Rightarrow> []) (sq_messages s)
      else [])"

lemma sq_recv_taken:
  "fst (sq_step (Recv a chans n) s) = map (\<lambda>r. (a, str_int (rw_id r))) (sq_taken a chans n s)"
  "sq_marked a (rw_id ` set (sq_taken a chans n s)) s (snd (sq_step (Recv a chans n) s))"
  by (auto simp: sq_recv_def sq_taken_def require_conn_def sq_patterns_def sq_marked_def
      update_delivered_def Let_def split: option.splits)

lemma sq_recv_takes:
  assumes "sq_ids_ok s"
  shows "log_take a (sq_log s) (fst (sq_step (Recv a chans n) s)) (sq_log (snd (sq_step (Recv a chans n) s)))"
proof -
  let ?es = "sq_taken a chans n s"
  have sub: "r \<in> set (sq_messages s) \<and> a \<notin> set (rw_delivered_to r)" if "r \<in> set ?es" for r
    using that set_eligible_rows by (fastforce simp: sq_taken_def row_wanted_def split: if_splits)
  have "distinct ?es"
    using assms distinct_eligible_rows by (auto simp: sq_taken_def sq_ids_ok_def distinct_map)
  then have ids: "distinct (map (\<lambda>r. str_int (rw_id r)) ?es)"
    using sub sq_id_unique [OF assms] by (auto simp: distinct_map inj_on_def)
  have "le_id ` set (map sq_entry ?es) = str_int ` rw_id ` set ?es" by (simp add: image_image)
  then have marks: "sq_log (snd (sq_step (Recv a chans n) s)) =
      mark_read a (le_id ` set (map sq_entry ?es)) (sq_log s)"
    using sq_marked_log [OF sq_recv_taken(2)] by simp
  show ?thesis
    unfolding log_take_def sq_recv_taken(1) marks
    by (intro exI [of _ "map sq_entry ?es"]) (use sub ids in \<open>auto simp: sq_log_def comp_def\<close>)
qed

section \<open>Subscriptions\<close>

lemma sq_patterns_insert [simp]:
  "set (sq_patterns (insert_subscription b p s) a) = set (sq_patterns s a) \<union> (if a = b then {p} else {})"
  by (auto simp: sq_patterns_def insert_subscription_def image_iff)

lemma sq_patterns_delete [simp]:
  "a \<noteq> b \<Longrightarrow> sq_patterns (delete_subscription b p s) a = sq_patterns s a"
  by (auto simp: sq_patterns_def delete_subscription_def intro!: arg_cong [where f = "map snd"] filter_cong)

lemma sq_patterns_deletes [simp]:
  "a \<noteq> b \<Longrightarrow> sq_patterns (delete_subscriptions b ps s) a = sq_patterns s a"
  unfolding delete_subscriptions_def by (induction ps arbitrary: s) simp_all

lemma sq_patterns_cong: "sq_subscriptions s' = sq_subscriptions s \<Longrightarrow> sq_patterns s' a = sq_patterns s a"
  by (simp add: sq_patterns_def)

lemma sq_same_subscriptions:
  "sq_subscriptions (snd (sq_send now ch sender body corr rt s)) = sq_subscriptions s"
  "sq_subscriptions (snd (sq_step (Recv a chans n) s)) = sq_subscriptions s"
  "sq_subscriptions (snd (sq_ack now a mid status reason s)) = sq_subscriptions s"
  "sq_subscriptions (snd (sq_heartbeat now sent a status ttl s)) = sq_subscriptions s"
  "sq_subscriptions (snd (sq_group_invite now a g b s)) = sq_subscriptions s"
  by (simp_all add: sq_send_def insert_message_def sq_recv_def sq_ack_def sq_heartbeat_def
      sq_group_invite_def require_conn_def Let_def split: option.split)

lemmas sq_same_patterns = sq_same_subscriptions [THEN sq_patterns_cong]

lemma sq_group_patterns [simp]:
  "sq_patterns (s\<lparr>sq_groups := gs\<rparr>) a = sq_patterns s a"
  "sq_patterns (s\<lparr>sq_messages := ms\<rparr>) a = sq_patterns s a"
  by (simp_all add: sq_patterns_def)

lemma sq_insert_group [simp]:
  "set (sq_patterns s a) \<subseteq> set (sq_patterns (insert_subscription b p (s\<lparr>sq_groups := gs\<rparr>)) a)"
  by (simp add: Un_upper1)

lemma sq_step_patterns:
  assumes "a \<notin> drops_for op"
  shows "set (sq_patterns s a) \<subseteq> set (sq_patterns (snd (sq_step op s)) a)"
proof (cases op)
  case (Recv b chans n)
  show ?thesis unfolding Recv sq_same_patterns(2) ..
next
  case (Unsubscribe b ps)
  then show ?thesis using assms by (simp add: sq_unsubscribe_def require_conn_def Let_def)
next
  case (GroupLeave now b g)
  then show ?thesis using assms by (simp add: sq_group_leave_def require_conn_def Let_def)
qed (simp_all add: sq_same_patterns sq_subscribe_def sq_group_create_def
    sq_group_join_def require_conn_def Let_def Un_upper1)

section \<open>The contract of the port\<close>

lemma sq_step_inv [sox_intros]:
  assumes "sq_inv s" shows "sq_inv (snd (sq_step op s))"
proof (cases "is_recv op")
  case True
  then obtain a chans n where "op = Recv a chans n" by (cases op) auto
  then show ?thesis using sq_inv_marked [OF assms sq_recv_taken(2)] by simp
next
  case False
  then show ?thesis
    using assms sq_inv_marked sq_inv_appended sq_inv_keeps by (cases rule: sq_step_cases) blast+
qed

lemma sq_step_log:
  assumes "sq_inv s" and "\<not> is_recv op"
  shows "log_step (drops_for op) (sq_log s) (sq_log (snd (sq_step op s)))"
  using assms(2)
proof (cases rule: sq_step_cases [where s = s])
  case (marked a ids)
  then show ?thesis using sq_marked_log by (auto simp: log_step_def)
next
  case appended
  then show ?thesis using sq_appended_log [OF assms(1)] by blast
qed (auto simp: sq_keeps_def sq_log_def log_step_def)

interpretation sq: message_log sq_step sq_inv sq_log sq_patterns
proof
  fix s op a chans n
  assume inv: "sq_inv s"
  show "sq_inv (snd (sq_step op s))" using inv by (rule sq_step_inv)
  show "distinct (map le_id (sq_log s))" using inv sq_log_ids by (simp add: sq_inv_def)
  show "log_step (drops_for op) (sq_log s) (sq_log (snd (sq_step op s)))" if "\<not> is_recv op"
    using inv that by (rule sq_step_log)
  show "log_take a (sq_log s) (fst (sq_step (Recv a chans n) s))
      (sq_log (snd (sq_step (Recv a chans n) s)))" using inv sq_recv_takes by (simp add: sq_inv_def)
  show "set (sq_patterns s a) \<subseteq> set (sq_patterns (snd (sq_step op s)) a)"
    if "a \<notin> drops_for op" using that by (rule sq_step_patterns)
next
  fix op s
  show "fst (sq_step op s) = []" if "\<not> is_recv op" using that by (cases op) simp_all
qed

end
