(* ===== verification/Sqlite_Properties.thy ===== *)
theory Sqlite_Properties
  imports Sqlite_Proofs
begin

text \<open>
  What holds of the SQLite adapter: the delivery contract for calls that run one after the
  other, what survives when sends overlap at their awaits, and what does not.
\<close>

abbreviation sq_run :: "store_op list \<Rightarrow> sqlite_store" where
  "sq_run ops \<equiv> snd (run_ops sq_step ops (sq_initialize sqlite_init))"

lemma sq_inv_opened: "sq_inv (sq_initialize sqlite_init)"
  using sq_inv_init by (simp add: sq_initialize_def sq_inv_def sq_ids_ok_def sq_log_def)

lemma sq_run_inv [sox_intros]: "sq_inv (sq_run ops)"
  by (rule sq.run_inv [OF sq_inv_opened])

section \<open>Overlapping sends\<close>

text \<open>
  Pending sends that advance one at a time, between them other calls, each as one step; \<open>ts0\<close> are the
  sends before they start, \<open>ops\<close> the other calls and \<open>ds\<close> what they delivered.
\<close>

inductive overlapping ::
  "send_task list \<Rightarrow> send_task list \<Rightarrow> sqlite_store \<Rightarrow> store_op list \<Rightarrow> (agent \<times> string) list \<Rightarrow> bool"
  for ts0 where
  overlap_init: "overlapping ts0 ts0 (sq_initialize sqlite_init) [] []"
| overlap_send: "\<lbrakk>overlapping ts0 ts s ops ds; i < length ts; task_step (ts ! i) s = (t', s')\<rbrakk> \<Longrightarrow>
     overlapping ts0 (ts[i := t']) s' ops ds"
| overlap_call: "\<lbrakk>overlapping ts0 ts s ops ds; sq_step op s = (new, s')\<rbrakk> \<Longrightarrow>
     overlapping ts0 ts s' (ops @ [op]) (ds @ new)"

text \<open>The row of a send that has returned: what it returned and the arguments it was given.\<close>

definition stored_as :: "send_task \<Rightarrow> send_result \<Rightarrow> message_row \<Rightarrow> bool" where
  "stored_as t = (\<lambda>(mid, sent_at, seq, bp) r.
     str_int (rw_id r) = mid \<and> rw_channel r = tk_channel t \<and> rw_sender r = tk_sender t \<and>
     rw_body r = tk_body t \<and> rw_correlation_id r = tk_correlation_id t \<and>
     rw_reply_to r = tk_reply_to t \<and> rw_sent_at r = tk_now t \<and> sent_at = tk_now t \<and> rw_seq r = seq)"

text \<open>An agent counts as a reader of a row only if it was handed the row or dropped it itself.\<close>

definition readers_explained :: "store_op list \<Rightarrow> (agent \<times> string) list \<Rightarrow> message_row \<Rightarrow> bool" where
  "readers_explained ops ds r \<longleftrightarrow>
     (\<forall>a \<in> set (rw_delivered_to r). (a, str_int (rw_id r)) \<in> set ds \<or> (\<exists>op \<in> set ops. a \<in> drops_for op))"

text \<open>Rows keep everything but the list of their readers.\<close>

definition row_content :: "message_row \<Rightarrow> message_row" where
  "row_content r = r\<lparr>rw_delivered_to := []\<rparr>"

definition rows_kept :: "sqlite_store \<Rightarrow> sqlite_store \<Rightarrow> bool" where
  "rows_kept s s' \<longleftrightarrow> (\<exists>new. map row_content (sq_messages s') = map row_content (sq_messages s) @ new)"

lemma stored_as_content: "stored_as t res (row_content r) = stored_as t res r"
  by (simp add: row_content_def stored_as_def split_beta)

definition task_ok :: "sqlite_store \<Rightarrow> send_task \<Rightarrow> bool" where
  "task_ok s t \<longleftrightarrow> (case tk_phase t of
     SendReturned res \<Rightarrow> (\<exists>r \<in> set (sq_messages s). stored_as t res r)
   | SendRaised e \<Rightarrow> False
   | _ \<Rightarrow> True)"

definition returned_id :: "send_task \<Rightarrow> string option" where
  "returned_id t = (case tk_phase t of SendReturned res \<Rightarrow> Some (fst res) | _ \<Rightarrow> None)"

definition overlap_inv ::
  "send_task list \<Rightarrow> send_task list \<Rightarrow> sqlite_store \<Rightarrow> store_op list \<Rightarrow> (agent \<times> string) list \<Rightarrow> bool" where
  "overlap_inv ts0 ts s ops ds \<longleftrightarrow> sq_conn s \<and> sq_ids_ok s \<and>
     distinct ds \<and> set ds \<subseteq> log_delivered (sq_log s) \<and>
     map (tk_phase_update (\<lambda>_. SendStart)) ts = ts0 \<and> list_all (task_ok s) ts \<and>
     (\<forall>i j mid. i < length ts \<longrightarrow> j < length ts \<longrightarrow> returned_id (ts ! i) = Some mid \<longrightarrow>
        returned_id (ts ! j) = Some mid \<longrightarrow> i = j) \<and>
     (\<forall>r \<in> set (sq_messages s). readers_explained ops ds r)"

subsection \<open>What a step keeps\<close>

lemma insert_message_ids:
  assumes "sq_ids_ok s" shows "sq_ids_ok (snd (insert_message ch sender body corr now seq rt s))"
proof -
  have "sq_last_id s + 1 \<notin> rw_id ` set (sq_messages s)"
    "\<forall>i \<in> rw_id ` set (sq_messages s). i \<le> sq_last_id s + 1"
    using assms unfolding sq_ids_ok_def by force+
  then show ?thesis
    using assms by (simp add: sq_ids_ok_def insert_message_def Let_def)
qed

lemma sq_ids_ok_appended:
  assumes "sq_ids_ok s" and "sq_appended s s'" shows "sq_ids_ok s'"
  using assms by (force simp: sq_ids_ok_def sq_appended_def)

lemma sq_marked_rows:
  assumes "sq_marked a ids s s'"
  shows "rows_kept s s'"
    and "r' \<in> set (sq_messages s') \<Longrightarrow> \<exists>r \<in> set (sq_messages s). rw_id r' = rw_id r \<and>
      set (rw_delivered_to r') \<subseteq> set (rw_delivered_to r) \<union> (if rw_id r \<in> ids then {a} else {})"
proof -
  have "map row_content (update_delivered a ids rs) = map row_content rs" for rs
    by (induction rs) (simp_all add: update_delivered_def row_content_def)
  then show "rows_kept s s'" using assms by (simp add: sq_marked_def rows_kept_def)
qed (use assms in \<open>auto simp: sq_marked_def update_delivered_def\<close>)

lemma sq_appended_rows:
  assumes "sq_appended s s'"
  shows "rows_kept s s'" and "r \<in> set (sq_messages s') \<Longrightarrow> r \<in> set (sq_messages s) \<or> rw_delivered_to r = []"
  using assms by (auto simp: sq_appended_def rows_kept_def)

lemma sq_step_open: "sq_conn s \<Longrightarrow> sq_conn (snd (sq_step op s))"
  by (cases op) (simp_all add: sq_send_def insert_message_def sq_recv_def sq_subscribe_def
      sq_unsubscribe_def sq_ack_def sq_heartbeat_def sq_group_create_def sq_group_invite_def
      sq_group_join_def sq_group_leave_def require_conn_def Let_def split: option.split)

lemma readers_explained_mono:
  "readers_explained ops ds r \<Longrightarrow> readers_explained (ops @ [op]) (ds @ new) r"
  by (auto simp: readers_explained_def)

lemma readers_explainedI:
  assumes "\<forall>r \<in> set (sq_messages s). readers_explained ops ds r" and "r \<in> set (sq_messages s)"
    and "str_int (rw_id r') = str_int (rw_id r)"
    and "set (rw_delivered_to r') \<subseteq> set (rw_delivered_to r) \<union> A"
    and "\<And>a. a \<in> A \<Longrightarrow> (a, str_int (rw_id r)) \<in> set new \<or> a \<in> drops_for op"
  shows "readers_explained (ops @ [op]) (ds @ new) r'"
  unfolding readers_explained_def
proof
  fix a assume "a \<in> set (rw_delivered_to r')"
  then have "a \<in> set (rw_delivered_to r) \<or> a \<in> A" using assms(4) by blast
  then show "(a, str_int (rw_id r')) \<in> set (ds @ new) \<or> (\<exists>op \<in> set (ops @ [op]). a \<in> drops_for op)"
    using assms(1,2,3,5) unfolding readers_explained_def by fastforce
qed

lemma overlap_call_recv:
  assumes ids: "sq_ids_ok s" and old: "\<forall>r \<in> set (sq_messages s). readers_explained ops ds r"
    and run: "sq_step (Recv a chans n) s = (new, s')"
  shows "sq_ids_ok s'" "rows_kept s s'" "log_delivered (sq_log s) \<subseteq> log_delivered (sq_log s')"
    "set new \<inter> log_delivered (sq_log s) = {}" "set new \<subseteq> log_delivered (sq_log s')" "distinct new"
    "\<forall>r \<in> set (sq_messages s'). readers_explained (ops @ [Recv a chans n]) (ds @ new) r"
proof -
  let ?ids = "rw_id ` set (sq_taken a chans n s)"
  have marked: "sq_marked a ?ids s s'" and new: "new = map (\<lambda>r. (a, str_int (rw_id r))) (sq_taken a chans n s)"
    using sq_recv_taken [of a chans n s] run by simp_all
  have take: "log_take a (sq_log s) new (sq_log s')"
    using sq_recv_takes [OF ids, of a chans n] run by simp
  show "sq_ids_ok s'" using ids marked by (rule sq_ids_ok_marked)
  show "rows_kept s s'" using marked by (rule sq_marked_rows)
  show "log_delivered (sq_log s) \<subseteq> log_delivered (sq_log s')"
    using log_take_step [OF take] by (rule log_step_delivered)
  show "set new \<inter> log_delivered (sq_log s) = {}" "set new \<subseteq> log_delivered (sq_log s')" "distinct new"
    using log_take_law [OF take sq_log_ids [OF ids]] .
  show "\<forall>r \<in> set (sq_messages s'). readers_explained (ops @ [Recv a chans n]) (ds @ new) r"
  proof
    fix r' assume "r' \<in> set (sq_messages s')"
    then obtain r where r: "r \<in> set (sq_messages s)" "rw_id r' = rw_id r"
      "set (rw_delivered_to r') \<subseteq> set (rw_delivered_to r) \<union> (if rw_id r \<in> ?ids then {a} else {})"
      using sq_marked_rows(2) [OF marked] by blast
    have "(b, str_int (rw_id r)) \<in> set new" if "b \<in> (if rw_id r \<in> ?ids then {a} else {})" for b
      using that new by (auto split: if_splits)
    then show "readers_explained (ops @ [Recv a chans n]) (ds @ new) r'"
      by (intro readers_explainedI [OF old r(1) _ r(3)]) (simp_all add: r(2))
  qed
qed

lemma overlap_call_other:
  assumes ids: "sq_ids_ok s" and old: "\<forall>r \<in> set (sq_messages s). readers_explained ops ds r"
    and op: "\<not> is_recv op" and run: "sq_step op s = (new, s')"
  shows "sq_ids_ok s'" "rows_kept s s'" "log_delivered (sq_log s) \<subseteq> log_delivered (sq_log s')" "new = []"
    "\<forall>r \<in> set (sq_messages s'). readers_explained (ops @ [op]) (ds @ new) r"
proof -
  show new: "new = []" using sq.log_quiet [OF op, of s] run by simp
  have s': "s' = snd (sq_step op s)" using run by simp
  have "sq_ids_ok s' \<and> rows_kept s s' \<and> log_delivered (sq_log s) \<subseteq> log_delivered (sq_log s') \<and>
    (\<forall>r \<in> set (sq_messages s'). readers_explained (ops @ [op]) (ds @ []) r)"
    using op
  proof (cases rule: sq_step_cases [where s = s])
    case (marked a ms)
    note m = marked(2) [folded s']
    have "log_step {a} (sq_log s) (sq_log s')"
      using sq_marked_log [OF m] unfolding log_step_def by blast
    moreover have "readers_explained (ops @ [op]) (ds @ []) r'" if r': "r' \<in> set (sq_messages s')" for r'
    proof -
      obtain r where r: "r \<in> set (sq_messages s)" "rw_id r' = rw_id r"
        "set (rw_delivered_to r') \<subseteq> set (rw_delivered_to r) \<union> (if rw_id r \<in> ms then {a} else {})"
        using sq_marked_rows(2) [OF m r'] by blast
      then have "set (rw_delivered_to r') \<subseteq> set (rw_delivered_to r) \<union> {a}" by (auto split: if_splits)
      with readers_explainedI [OF old r(1), of r' "{a}" "[]" op] r(2) marked(1) show ?thesis by simp
    qed
    ultimately show ?thesis
      using sq_ids_ok_marked [OF ids m] sq_marked_rows(1) [OF m] log_step_delivered by blast
  next
    case appended
    note m = appended [folded s']
    have "readers_explained (ops @ [op]) (ds @ []) r" if "r \<in> set (sq_messages s')" for r
      using sq_appended_rows(2) [OF m that] old readers_explained_mono
      by (auto simp: readers_explained_def)
    moreover obtain e where "sq_log s' = sq_log s @ [e]" using m by (auto simp: sq_appended_def sq_log_def)
    then have "log_delivered (sq_log s) \<subseteq> log_delivered (sq_log s')"
      unfolding log_delivered_def by auto
    ultimately show ?thesis
      using sq_ids_ok_appended [OF ids m] sq_appended_rows(1) [OF m] by blast
  next
    case kept
    then show ?thesis
      using ids old readers_explained_mono [of ops ds _ op "[]"] unfolding s' [symmetric]
      by (auto simp: sq_keeps_def sq_ids_ok_def rows_kept_def sq_log_def)
  qed
  then show "sq_ids_ok s'" "rows_kept s s'" "log_delivered (sq_log s) \<subseteq> log_delivered (sq_log s')"
    "\<forall>r \<in> set (sq_messages s'). readers_explained (ops @ [op]) (ds @ new) r"
    unfolding new by blast+
qed

subsection \<open>Every interleaving\<close>

lemma task_ok_kept: "rows_kept s s' \<Longrightarrow> task_ok s t \<Longrightarrow> task_ok s' t"
proof -
  assume kept: "rows_kept s s'" and ok: "task_ok s t"
  have "\<exists>r' \<in> set (sq_messages s'). stored_as t res r'"
    if r: "r \<in> set (sq_messages s)" "stored_as t res r" for res r
  proof -
    have "row_content r \<in> row_content ` set (sq_messages s')"
      using kept r(1) unfolding rows_kept_def by (metis UnCI image_eqI image_set set_append)
    then obtain r' where "r' \<in> set (sq_messages s')" "row_content r' = row_content r" by auto
    with r(2) show ?thesis using stored_as_content by metis
  qed
  with ok show ?thesis unfolding task_ok_def by (auto split: send_phase.splits)
qed

lemma overlap_inv_call:
  assumes inv: "overlap_inv ts0 ts s ops ds" and run: "sq_step op s = (new, s')"
  shows "overlap_inv ts0 ts s' (ops @ [op]) (ds @ new)"
proof -
  have old: "sq_ids_ok s" "\<forall>r \<in> set (sq_messages s). readers_explained ops ds r" "sq_conn s"
    "distinct ds" "set ds \<subseteq> log_delivered (sq_log s)"
    using inv by (simp_all add: overlap_inv_def)
  have "sq_ids_ok s' \<and> rows_kept s s' \<and> log_delivered (sq_log s) \<subseteq> log_delivered (sq_log s') \<and>
      set new \<inter> log_delivered (sq_log s) = {} \<and> set new \<subseteq> log_delivered (sq_log s') \<and> distinct new \<and>
      (\<forall>r \<in> set (sq_messages s'). readers_explained (ops @ [op]) (ds @ new) r)"
  proof (cases "is_recv op")
    case True
    then obtain a chans n where "op = Recv a chans n" by (cases op) auto
    then show ?thesis using overlap_call_recv [OF old(1,2)] run by metis
  next
    case False
    then show ?thesis using overlap_call_other [OF old(1,2) False run] by simp
  qed
  moreover have "sq_conn s'" using sq_step_open [OF old(3), of op] run by simp
  ultimately show ?thesis
    using inv old(4,5) task_ok_kept unfolding overlap_inv_def list_all_iff by (auto simp: disjoint_iff)
qed

lemma insert_message_row:
  assumes "insert_message ch sender body corr now seq rt s = (i, s1)"
  shows "i = sq_last_id s + 1" "sq_conn s1 = sq_conn s"
    "sq_messages s1 = sq_messages s @ [\<lparr>rw_id = sq_last_id s + 1, rw_channel = ch, rw_sender = sender,
       rw_body = body, rw_correlation_id = corr, rw_sent_at = now, rw_delivered_to = [], rw_seq = seq,
       rw_reply_to = rt\<rparr>]"
  using assms by (auto simp: insert_message_def Let_def)

lemma returned_id_old:
  assumes "sq_ids_ok s" and "task_ok s t"
  shows "returned_id t \<noteq> Some (str_int (sq_last_id s + 1))"
proof
  assume new: "returned_id t = Some (str_int (sq_last_id s + 1))"
  then obtain res where res: "tk_phase t = SendReturned res" "fst res = str_int (sq_last_id s + 1)"
    by (auto simp: returned_id_def split: send_phase.splits)
  with assms(2) obtain r where "r \<in> set (sq_messages s)" "str_int (rw_id r) = str_int (sq_last_id s + 1)"
    by (auto simp: task_ok_def stored_as_def split_beta)
  then show False using assms(1) by (force simp: sq_ids_ok_def)
qed

lemma task_step_quiet:
  assumes "task_step t s = (t', s')" and "sq_conn s" and "\<And>seq depth. tk_phase t \<noteq> SendDepthRead seq depth"
    and "task_ok s t"
  shows "s' = s" "task_ok s t'" "returned_id t' = returned_id t"
    "tk_phase_update (\<lambda>_. SendStart) t' = tk_phase_update (\<lambda>_. SendStart) t"
  using assms
  by (auto simp: task_step_def require_conn_def task_ok_def returned_id_def split: send_phase.splits)

lemma task_step_insert:
  assumes "task_step t s = (t', s')" and "tk_phase t = SendDepthRead seq depth" and "sq_ids_ok s"
  shows "sq_ids_ok s'" "rows_kept s s'" "sq_conn s' = sq_conn s" "task_ok s' t'"
    "returned_id t' = Some (str_int (sq_last_id s + 1))"
    "tk_phase_update (\<lambda>_. SendStart) t' = tk_phase_update (\<lambda>_. SendStart) t"
    "\<exists>r. sq_messages s' = sq_messages s @ [r] \<and> rw_delivered_to r = []"
proof -
  obtain i s1 where ins: "insert_message (tk_channel t) (tk_sender t) (tk_body t) (tk_correlation_id t)
      (tk_now t) seq (tk_reply_to t) s = (i, s1)" by (rule prod.exhaust)
  note r = insert_message_row [OF ins]
  have step: "s' = s1\<lparr>sq_new_message_event := True\<rparr>"
    "t' = t\<lparr>tk_phase := SendReturned (str_int i, tk_now t, seq, send_backpressure depth)\<rparr>"
    using assms(1,2) by (simp_all add: task_step_def ins)
  have "sq_ids_ok s1" using insert_message_ids [OF assms(3)] ins by (metis snd_conv)
  then show "sq_ids_ok s'" by (simp add: step sq_ids_ok_def)
  show "rows_kept s s'" "sq_conn s' = sq_conn s" using r by (simp_all add: step rows_kept_def)
  show "task_ok s' t'" by (simp add: task_ok_def step stored_as_def r)
  show "returned_id t' = Some (str_int (sq_last_id s + 1))" by (simp add: returned_id_def step r(1))
  show "tk_phase_update (\<lambda>_. SendStart) t' = tk_phase_update (\<lambda>_. SendStart) t" by (simp add: step)
  show "\<exists>r. sq_messages s' = sq_messages s @ [r] \<and> rw_delivered_to r = []" using r(3) by (simp add: step)
qed

lemma overlap_inv_send:
  assumes inv: "overlap_inv ts0 ts s ops ds" and i: "i < length ts" and run: "task_step (ts ! i) s = (t', s')"
  shows "overlap_inv ts0 (ts[i := t']) s' ops ds"
proof (cases "\<exists>seq depth. tk_phase (ts ! i) = SendDepthRead seq depth")
  case False
  have ok: "sq_conn s" "task_ok s (ts ! i)" using inv i by (auto simp: overlap_inv_def list_all_length)
  note q = task_step_quiet [OF run ok(1) _ ok(2)]
  have "map (tk_phase_update (\<lambda>_. SendStart)) (ts[i := t']) = map (tk_phase_update (\<lambda>_. SendStart)) ts"
    using q(4) False i by (simp add: map_update list_update_same_conv)
  moreover have "returned_id (ts[i := t'] ! j) = returned_id (ts ! j)" if "j < length ts" for j
    using q(3) False i that by (cases "j = i") simp_all
  ultimately show ?thesis
    using inv q(1,2) False i unfolding overlap_inv_def list_all_length
    by (auto simp: nth_list_update)
next
  case True
  then obtain seq depth where phase: "tk_phase (ts ! i) = SendDepthRead seq depth" by blast
  have ids: "sq_ids_ok s" and all: "list_all (task_ok s) ts" using inv by (simp_all add: overlap_inv_def)
  note q = task_step_insert [OF run phase ids]
  obtain r where r: "sq_messages s' = sq_messages s @ [r]" "rw_delivered_to r = []" using q(7) by blast
  have "map (tk_phase_update (\<lambda>_. SendStart)) (ts[i := t']) = map (tk_phase_update (\<lambda>_. SendStart)) ts"
    using q(6) i by (simp add: map_update list_update_same_conv)
  moreover have "list_all (task_ok s') (ts[i := t'])"
    using all task_ok_kept [OF q(2)] q(4) i unfolding list_all_length by (auto simp: nth_list_update)
  moreover have "j = k" if "j < length ts" "k < length ts" "returned_id (ts[i := t'] ! j) = Some mid"
      "returned_id (ts[i := t'] ! k) = Some mid" for j k mid
  proof -
    have new: "returned_id (ts ! j) \<noteq> returned_id t'" if "j < length ts" for j
      using returned_id_old [OF ids, of "ts ! j"] all that q(5) unfolding list_all_length by simp
    show ?thesis
    proof (cases "j = i \<or> k = i")
      case True
      then show ?thesis using that new [of j] new [of k] i by (cases "j = i"; cases "k = i") simp_all
    next
      case False
      then have "returned_id (ts ! j) = Some mid" "returned_id (ts ! k) = Some mid" using that by simp_all
      then show ?thesis using inv that(1,2) unfolding overlap_inv_def by blast
    qed
  qed
  moreover have "log_delivered (sq_log s) \<subseteq> log_delivered (sq_log s')"
    unfolding sq_log_def r(1) log_delivered_def by auto
  moreover have "\<forall>r \<in> set (sq_messages s'). readers_explained ops ds r"
    using inv r unfolding overlap_inv_def by (simp add: readers_explained_def)
  ultimately show ?thesis
    using inv q(1,3) unfolding overlap_inv_def by (auto simp only: length_list_update)
qed

lemma overlapping_inv:
  assumes "overlapping ts0 ts s ops ds" and "\<forall>t \<in> set ts0. tk_phase t = SendStart"
  shows "overlap_inv ts0 ts s ops ds"
  using assms(1)
proof induction
  case overlap_init
  have "map (tk_phase_update (\<lambda>_. SendStart)) ts0 = ts0"
    using assms(2) by (intro map_idI) simp
  moreover have "task_ok s t" "returned_id t = None" if "t \<in> set ts0" for s t
    using assms(2) that by (simp_all add: task_ok_def returned_id_def)
  ultimately show ?case
    using sq_inv_opened
    by (auto simp: overlap_inv_def sq_inv_def list_all_iff) (simp_all add: sq_initialize_def sqlite_init_def)
next
  case (overlap_send ts s ops ds i t' s')
  then show ?case using overlap_inv_send by blast
next
  case (overlap_call ts s ops ds op new s')
  then show ?case using overlap_inv_call by blast
qed

text \<open>
  C10. Overlapping \<open>send\<close> calls, in every interleaving of their statements with each other and with any
  other calls of the port on an open store: no send raises; what each of them was given is in the database,
  unaltered, under the id it returned, and no two share an id; an agent is marked as a reader of such a
  message only if \<open>recv\<close> handed it to that agent or the agent unsubscribed or left a group, so that
  none is lost; and no message is handed to an agent twice.
\<close>

theorem sq_interleaved_sends:
  assumes "overlapping ts0 ts s ops ds" and "\<forall>t \<in> set ts0. tk_phase t = SendStart"
  shows "map (tk_phase_update (\<lambda>_. SendStart)) ts = ts0 \<and> distinct ds \<and>
    (\<forall>t \<in> set ts. \<forall>e. tk_phase t \<noteq> SendRaised e) \<and>
    (\<forall>t \<in> set ts. \<forall>res. tk_phase t = SendReturned res \<longrightarrow>
       (\<exists>r \<in> set (sq_messages s). stored_as t res r \<and> readers_explained ops ds r)) \<and>
    (\<forall>i < length ts. \<forall>j < length ts. \<forall>res res'. tk_phase (ts ! i) = SendReturned res \<longrightarrow>
       tk_phase (ts ! j) = SendReturned res' \<longrightarrow> fst res = fst res' \<longrightarrow> i = j)"
proof -
  note inv = overlapping_inv [OF assms]
  have ok: "task_ok s t" if "t \<in> set ts" for t
    using inv that by (simp add: overlap_inv_def list_all_iff)
  have "\<exists>r \<in> set (sq_messages s). stored_as t res r \<and> readers_explained ops ds r"
    if "t \<in> set ts" "tk_phase t = SendReturned res" for t res
    using ok [OF that(1)] that(2) inv unfolding task_ok_def overlap_inv_def by auto
  moreover have "tk_phase t \<noteq> SendRaised e" if "t \<in> set ts" for t e
    using ok [OF that] by (auto simp: task_ok_def)
  moreover have "i = j" if "i < length ts" "j < length ts" "tk_phase (ts ! i) = SendReturned res"
      "tk_phase (ts ! j) = SendReturned res'" "fst res = fst res'" for i j res res'
    using inv that unfolding overlap_inv_def by (auto simp: returned_id_def)
  ultimately show ?thesis using inv by (simp add: overlap_inv_def)
qed

text \<open>Running by a schedule: the index of the send that advances, or another call.\<close>

fun run_schedule ::
  "(nat + store_op) list \<Rightarrow> send_task list \<Rightarrow> sqlite_store \<Rightarrow> store_op list \<Rightarrow> (agent \<times> string) list \<Rightarrow>
     send_task list \<times> sqlite_store \<times> store_op list \<times> (agent \<times> string) list" where
  "run_schedule [] ts s ops ds = (ts, s, ops, ds)"
| "run_schedule (Inl i # sched) ts s ops ds =
     (if i < length ts
      then (let (t', s') = task_step (ts ! i) s in run_schedule sched (ts[i := t']) s' ops ds)
      else run_schedule sched ts s ops ds)"
| "run_schedule (Inr op # sched) ts s ops ds =
     (let (new, s') = sq_step op s in run_schedule sched ts s' (ops @ [op]) (ds @ new))"

lemma run_schedule_overlapping:
  "overlapping ts0 ts s ops ds \<Longrightarrow>
     (case run_schedule sched ts s ops ds of (ts', s', ops', ds') \<Rightarrow> overlapping ts0 ts' s' ops' ds')"
proof (induction sched ts s ops ds rule: run_schedule.induct)
  case (2 i sched ts s ops ds)
  show ?case
  proof (cases "i < length ts")
    case True
    obtain t' s' where t: "task_step (ts ! i) s = (t', s')" by fastforce
    then show ?thesis
      using "2.IH"(1) [OF True t [symmetric] refl] overlap_send [OF "2.prems" True t] True by simp
  qed (use "2.IH"(2) "2.prems" in simp)
next
  case (3 op sched ts s ops ds)
  obtain new s' where c: "sq_step op s = (new, s')" by fastforce
  then show ?case
    using "3.IH" [OF c [symmetric] refl] overlap_call [OF "3.prems" c] by simp
qed simp

text \<open>
  Two sends on one channel that both read the next number before either inserts, and a reader. Both
  messages get the number 1: that the numbers of a channel are distinct does not survive the overlap.
\<close>

definition two_sends :: "send_task list" where
  "two_sends = [pending_send 1 ''c'' ''a'' [(''k'', PInt 1)] None None,
     pending_send 1 ''c'' ''b'' [(''k'', PInt 2)] None None]"

definition overlap_schedule :: "(nat + store_op) list" where
  "overlap_schedule = [Inr (Subscribe ''r'' ''c''), Inl 0, Inl 1, Inl 0, Inl 0, Inr (Recv ''r'' None 5),
     Inl 1, Inl 1, Inr (Recv ''r'' None 5)]"

abbreviation overlap_result ::
  "send_task list \<times> sqlite_store \<times> store_op list \<times> (agent \<times> string) list" where
  "overlap_result \<equiv> run_schedule overlap_schedule two_sends (sq_initialize sqlite_init) [] []"

lemma overlap_result_runs: "case overlap_result of (ts, s, ops, ds) \<Rightarrow> overlapping two_sends ts s ops ds"
  by (rule run_schedule_overlapping) (rule overlap_init)

theorem sq_interleaved_sends_witness:
  "case overlap_result of (ts, s, ops, ds) \<Rightarrow> distinct ds \<and>
     (\<exists>r \<in> set (sq_messages s). str_int (rw_id r) = ''2'' \<and> rw_body r = [(''k'', PInt 2)])"
proof -
  obtain ts s ops ds where run: "overlap_result = (ts, s, ops, ds)" by (rule prod_cases4)
  have "tk_phase (fst overlap_result ! 1) = SendReturned (''2'', 1, 1, send_backpressure 1)"
    "length (fst overlap_result) = 2" "tk_body (fst overlap_result ! 1) = [(''k'', PInt 2)]"
    by code_simp+
  then have t: "tk_phase (ts ! 1) = SendReturned (''2'', 1, 1, send_backpressure 1)" "ts ! 1 \<in> set ts"
    "tk_body (ts ! 1) = [(''k'', PInt 2)]"
    by (simp_all add: run)
  have "overlapping two_sends ts s ops ds" using overlap_result_runs by (simp add: run)
  moreover have "\<forall>t \<in> set two_sends. tk_phase t = SendStart" by (simp add: two_sends_def pending_send_def)
  ultimately have "distinct ds \<and> (\<forall>t \<in> set ts. \<forall>res. tk_phase t = SendReturned res \<longrightarrow>
       (\<exists>r \<in> set (sq_messages s). stored_as t res r \<and> readers_explained ops ds r))"
    using sq_interleaved_sends by blast
  with t show ?thesis unfolding run prod.case stored_as_def by fastforce
qed

theorem sq_duplicate_numbers:
  "case overlap_result of (ts, s, ops, ds) \<Rightarrow>
     map rw_seq (sq_messages s) = [1, 1] \<and> ds = [(''r'', ''1''), (''r'', ''2'')]"
  by code_simp

text \<open>
  A bound below one does not make \<open>recv\<close> return nothing: it returns, and marks as
  delivered, the first eligible message (the in-memory adapter returns none).
\<close>

theorem sq_recv_nonpositive:
  assumes "n \<le> 0" and "sq_conn s" and "chans = Some cs"
  shows "fst (sq_recv a chans n s) =
    Inr (map build_message (take 1 (filter (row_wanted a chans []) (sort_key row_order (sq_messages s)))))"
  using assms
  by (simp add: sq_recv_def require_conn_def eligible_rows_def collect_after_nonpos Let_def)

theorem sq_recv_nonpositive_witness:
  "fst (sq_recv ''a'' (Some [''c'']) 0 (sq_run [Send 1 ''c'' ''b'' [] None None])) =
     Inr [wire_message ''1'' ''c'' ''b'' [] None 1 1 None]"
  by (subst sq_recv_nonpositive [OF _ _ refl])
    (simp_all add: sq_initialize_def sqlite_init_def sq_send_def require_conn_def insert_message_def
      select_next_seq_def row_wanted_def build_message_def Let_def str_int_small)

end
