(* ===== verification/Store_Equivalence.thy ===== *)
theory Store_Equivalence
  imports Memory_Properties Sqlite_Properties
begin

text \<open>
  The two adapters are interchangeable: \<open>same_store\<close> relates their states and every call of
  the port keeps the relation, so a client that runs the same calls on a fresh
  \<open>MemoryStore\<close> and on a fresh \<open>SqliteStore\<close> is handed the same messages in the same order.
  The one difference is how \<open>recv\<close> cuts off at its bound: the in-memory adapter cuts before it
  sorts and returns nothing at a bound below one, SQLite sorts first and then returns one message.
\<close>

section \<open>The relation\<close>

definition stored_of_row :: "message_row \<Rightarrow> stored_message" where
  "stored_of_row r = \<lparr>mm_id = rw_id r, mm_channel = rw_channel r, mm_sender = rw_sender r,
     mm_body = rw_body r, mm_correlation_id = rw_correlation_id r, mm_sent_at = rw_sent_at r,
     mm_seq = rw_seq r, mm_reply_to = rw_reply_to r, mm_delivered_to = set (rw_delivered_to r)\<rparr>"

definition same_store :: "memory_store \<Rightarrow> sqlite_store \<Rightarrow> bool" where
  "same_store m s \<longleftrightarrow> sq_conn s \<and> ms_messages m = map stored_of_row (sq_messages s) \<and>
     ms_next_id m = sq_last_id s + 1 \<and> (\<forall>a. set (mem_patterns_for m a) = set (sq_patterns s a)) \<and>
     ms_groups m = sq_groups s \<and> mem_inv m \<and> sq_inv s"

lemma stored_of_row_fields [simp]:
  "mm_id (stored_of_row r) = rw_id r" "mm_channel (stored_of_row r) = rw_channel r"
  "mm_seq (stored_of_row r) = rw_seq r" "mm_sent_at (stored_of_row r) = rw_sent_at r"
  "mm_delivered_to (stored_of_row r) = set (rw_delivered_to r)"
  by (simp_all add: stored_of_row_def)

lemma to_wire_row [simp]: "to_wire (stored_of_row r) = build_message r"
  by (simp add: to_wire_def build_message_def stored_of_row_def)

lemma same_store_init: "same_store memory_init (sq_initialize sqlite_init)"
  using mem_inv_init sq_inv_opened
  by (simp add: same_store_def memory_init_def sq_initialize_def sqlite_init_def mem_patterns_for_def
      sq_patterns_def dget_default_def)

lemma same_store_log: "same_store m s \<Longrightarrow> mem_log m = sq_log s"
  by (simp add: same_store_def mem_log_def sq_log_def mem_entry_def sq_entry_def)

lemma update_delivered_rows:
  "mark_delivered a ids (map stored_of_row rs) = map stored_of_row (update_delivered a ids rs)"
  by (induction rs) (auto simp: mark_delivered_def update_delivered_def stored_of_row_def)

lemma matches_any_cong: "set ps = set qs \<Longrightarrow> matches_any ch ps = matches_any ch qs"
  by (simp add: matches_any_iff)

section \<open>Each call keeps the relation\<close>

lemma same_seq:
  assumes "same_store m s"
  shows "dget_default (ms_channel_seq m) ch 0 + 1 = select_next_seq ch (sq_messages s)"
  using assms select_next_seq_inv [of s ch] same_store_log [OF assms]
  by (simp add: same_store_def mem_inv_def)

lemma same_storeI:
  assumes "same_store m s" and "m' = snd (mem_step op m)" and "s' = snd (sq_step op s)"
    and "sq_conn s'" "ms_messages m' = map stored_of_row (sq_messages s')"
    and "ms_next_id m' = sq_last_id s' + 1" "ms_groups m' = sq_groups s'"
    and "\<And>a. set (mem_patterns_for m' a) = set (sq_patterns s' a)"
  shows "same_store m' s'"
  using assms mem_step_inv [of m op] sq_step_inv [of s op] by (simp add: same_store_def)

lemma same_send:
  assumes "same_store m s"
  shows "same_store (snd (mem_step (Send now ch sender body corr rt) m))
    (snd (sq_step (Send now ch sender body corr rt) s))"
  by (rule same_storeI [OF assms refl refl])
    (use assms same_seq [OF assms, of ch] in \<open>simp_all add: same_store_def mem_send_def mem_append_def
      sq_send_def require_conn_def insert_message_def stored_of_row_def mem_patterns_for_def
      sq_patterns_def Let_def\<close>)

lemma same_heartbeat:
  assumes "same_store m s"
  shows "same_store (snd (mem_step (Heartbeat now a status ttl) m))
    (snd (sq_step (Heartbeat now a status ttl) s))"
  by (rule same_storeI [OF assms refl refl])
    (use assms same_seq [OF assms, of "''sox/presence''"] in \<open>simp_all add: same_store_def
      mem_heartbeat_def mem_append_def sq_heartbeat_def sq_send_def require_conn_def
      insert_message_def stored_of_row_def mem_patterns_for_def sq_patterns_def Let_def\<close>)

lemma message_order_row [simp]: "message_order (stored_of_row r) = row_order r"
  by (simp add: message_order_def row_order_def)

lemma insort_rows:
  "insort_key message_order (stored_of_row r) (map stored_of_row rs) =
     map stored_of_row (insort_key row_order r rs)"
  by (induction rs) simp_all

lemma sort_rows: "sort_key message_order (map stored_of_row rs) = map stored_of_row (sort_key row_order rs)"
  by (induction rs) (simp_all add: insort_rows)

text \<open>
  A call whose bound cuts both adapters alike: a \<open>recv\<close> of which nothing is waiting, or with a positive
  bound that either covers all waiting messages or meets them in the order in which they are delivered.
\<close>

definition waiting :: "memory_store \<Rightarrow> agent \<Rightarrow> channel list option \<Rightarrow> stored_message list" where
  "waiting m a chans = filter (mem_wanted m a chans) (ms_messages m)"

fun clean_cut :: "memory_store \<Rightarrow> store_op \<Rightarrow> bool" where
  "clean_cut m (Recv a chans n) \<longleftrightarrow> waiting m a chans = [] \<or>
     (0 < n \<and> (int (length (waiting m a chans)) \<le> n \<or> sorted (map message_order (waiting m a chans))))"
| "clean_cut m _ \<longleftrightarrow> True"

lemma take_sort:
  assumes "length xs \<le> n \<or> sorted (map f xs)"
  shows "sort_key f (take n xs) = take n (sort_key f xs)"
proof (cases "length xs \<le> n")
  case False
  with assms have "sorted (map f xs)" by simp
  moreover from this have "sorted (map f (take n xs))" by (metis sorted_wrt_take take_map)
  ultimately show ?thesis by (simp add: sort_key_id_if_sorted)
qed simp

lemma same_eligible:
  assumes R: "same_store m s" and cut: "clean_cut m (Recv a chans n)"
  shows "mem_eligible a chans n m = map stored_of_row (sq_taken a chans n s)"
proof -
  let ?pats = "case chans of None \<Rightarrow> sq_patterns s a | Some _ \<Rightarrow> []"
  have want: "mem_wanted m a chans (stored_of_row r) = row_wanted a chans ?pats r" for r
    using R matches_any_cong [of "mem_patterns_for m a" "sq_patterns s a"]
    by (auto simp: mem_wanted_def row_wanted_def same_store_def agent_matches_channel_def
        split: option.split)
  have W: "waiting m a chans = map stored_of_row (filter (row_wanted a chans ?pats) (sq_messages s))"
    using R by (simp add: waiting_def same_store_def filter_map comp_def want)
  have eligible: "map stored_of_row (eligible_rows a chans n ?pats (sq_messages s)) =
      take (if 0 < n then nat n else 1) (sort_key message_order (waiting m a chans))"
    by (simp add: W sort_rows eligible_rows_def collect_after_take collect_after_nonpos filter_sort take_map)
  have "mem_eligible a chans n m = sort_key message_order (take (nat n) (waiting m a chans))"
    by (simp add: mem_eligible_def collect_before_take waiting_def)
  also have "\<dots> = map stored_of_row (eligible_rows a chans n ?pats (sq_messages s))"
    unfolding eligible
    using cut take_sort [of "waiting m a chans" "nat n" message_order] by auto
  also have "\<dots> = map stored_of_row (sq_taken a chans n s)"
  proof (cases "chans = None \<and> sq_patterns s a = []")
    case True
    then have "row_wanted a chans ?pats r = False" for r
      by (simp add: row_wanted_def agent_matches_channel_def)
    then have "eligible_rows a chans n ?pats (sq_messages s) = []"
      by (cases "0 < n") (simp_all add: eligible_rows_def collect_after_take collect_after_nonpos)
    with True show ?thesis by (simp add: sq_taken_def)
  next
    case False
    with R have "sq_taken a chans n s = eligible_rows a chans n ?pats (sq_messages s)"
      by (auto simp: sq_taken_def same_store_def)
    then show ?thesis by simp
  qed
  finally show ?thesis .
qed

lemma same_recv:
  assumes R: "same_store m s" and cut: "clean_cut m (Recv a chans n)"
  shows "fst (mem_step (Recv a chans n) m) = fst (sq_step (Recv a chans n) s)"
    and "same_store (snd (mem_step (Recv a chans n) m)) (snd (sq_step (Recv a chans n) s))"
proof -
  let ?s' = "snd (sq_step (Recv a chans n) s)"
  show "fst (mem_step (Recv a chans n) m) = fst (sq_step (Recv a chans n) s)"
    unfolding mem_step_Recv sq_recv_taken(1) same_eligible [OF assms] by simp
  have marked: "sq_messages ?s' = update_delivered a (rw_id ` set (sq_taken a chans n s)) (sq_messages s)"
    "sq_last_id ?s' = sq_last_id s"
    using sq_recv_taken(2) [of a chans n s] by (simp_all add: sq_marked_def del: sq_step.simps)
  have rest: "sq_conn ?s' = sq_conn s" "sq_groups ?s' = sq_groups s"
    by (simp_all add: sq_recv_def require_conn_def Let_def split: option.split)
  have keep: "ms_next_id (snd (mem_recv a chans n m)) = ms_next_id m"
    "ms_groups (snd (mem_recv a chans n m)) = ms_groups m"
    "mem_patterns_for (snd (mem_recv a chans n m)) b = mem_patterns_for m b" for b
    by (simp_all add: mem_recv_def Let_def mem_patterns_for_def)
  show "same_store (snd (mem_step (Recv a chans n) m)) ?s'"
    by (rule same_storeI [OF R refl refl])
      (use R in \<open>simp_all add: marked rest keep sq_same_patterns(2) mem_recv_messages same_eligible [OF assms]
        update_delivered_rows image_image same_store_def Let_def split_beta del: sq_step.simps\<close>)
qed

lemma same_subscribe:
  assumes "same_store m s"
  shows "same_store (snd (mem_step (Subscribe a p) m)) (snd (sq_step (Subscribe a p) s))"
  by (rule same_storeI [OF assms refl refl])
    (use assms in \<open>simp_all add: same_store_def mem_subscribe_def sq_subscribe_def require_conn_def
      mem_patterns_add Let_def\<close>)

lemma same_group_create:
  assumes "same_store m s"
  shows "same_store (snd (mem_step (GroupCreate now a g) m)) (snd (sq_step (GroupCreate now a g) s))"
  by (rule same_storeI [OF assms refl refl])
    (use assms in \<open>simp_all add: same_store_def mem_group_create_def sq_group_create_def require_conn_def
      mem_patterns_add Let_def\<close>)

lemma same_group_invite:
  assumes "same_store m s"
  shows "same_store (snd (mem_step (GroupInvite now a g b) m)) (snd (sq_step (GroupInvite now a g b) s))"
  by (rule same_storeI [OF assms refl refl])
    (use assms in \<open>simp_all add: same_store_def mem_group_invite_def sq_group_invite_def Let_def\<close>)

lemma same_group_join:
  assumes "same_store m s"
  shows "same_store (snd (mem_step (GroupJoin now a g) m)) (snd (sq_step (GroupJoin now a g) s))"
  by (rule same_storeI [OF assms refl refl])
    (use assms in \<open>simp_all add: same_store_def mem_group_join_def sq_group_join_def require_conn_def
      mem_patterns_add Let_def\<close>)

lemma same_ack:
  assumes "same_store m s"
  shows "same_store (snd (mem_step (Ack now a mid status reason) m)) (snd (sq_step (Ack now a mid status reason) s))"
  by (rule same_storeI [OF assms refl refl])
    (use assms in \<open>simp_all add: same_store_def mem_ack_def sq_ack_def mem_patterns_for_def sq_patterns_def\<close>)

lemma set_sq_patterns_delete:
  "set (sq_patterns (delete_subscription b p s) a) = set (sq_patterns s a) - (if a = b then {p} else {})"
  by (auto simp: sq_patterns_def delete_subscription_def)

lemma same_group_leave:
  assumes "same_store m s"
  shows "same_store (snd (mem_step (GroupLeave now a g) m)) (snd (sq_step (GroupLeave now a g) s))"
proof (rule same_storeI [OF assms refl refl])
  fix b
  show "set (mem_patterns_for (snd (mem_step (GroupLeave now a g) m)) b) =
      set (sq_patterns (snd (sq_step (GroupLeave now a g) s)) b)"
    using assms by (auto simp: same_store_def mem_group_leave_def sq_group_leave_def require_conn_def
        set_sq_patterns_delete mem_patterns_for_def Let_def)
qed (use assms in \<open>simp_all add: same_store_def mem_group_leave_def sq_group_leave_def require_conn_def
      delete_subscription_def Let_def\<close>)

section \<open>\<open>unsubscribe\<close>\<close>

text \<open>Marking the unread messages of matching channels, one pattern at a time or all at once.\<close>

definition clear_for :: "agent \<Rightarrow> (channel \<Rightarrow> bool) \<Rightarrow> stored_message list \<Rightarrow> stored_message list" where
  "clear_for a P ms =
     map (\<lambda>m. if P (mm_channel m) then m\<lparr>mm_delivered_to := insert a (mm_delivered_to m)\<rparr> else m) ms"

lemma clear_for_marks:
  assumes "distinct (map mm_id ms)"
  shows "mark_delivered a (mm_id ` {m \<in> set ms. a \<notin> mm_delivered_to m \<and> P (mm_channel m)}) ms =
    clear_for a P ms"
  unfolding mark_delivered_def clear_for_def
proof (rule map_cong [OF refl])
  fix x assume x: "x \<in> set ms"
  have "mm_id x \<in> mm_id ` {m \<in> set ms. a \<notin> mm_delivered_to m \<and> P (mm_channel m)} \<longleftrightarrow>
      a \<notin> mm_delivered_to x \<and> P (mm_channel x)"
    using assms x by (auto simp: distinct_map dest: inj_onD)
  then show "(if mm_id x \<in> mm_id ` {m \<in> set ms. a \<notin> mm_delivered_to m \<and> P (mm_channel m)}
        then x\<lparr>mm_delivered_to := insert a (mm_delivered_to x)\<rparr> else x) =
      (if P (mm_channel x) then x\<lparr>mm_delivered_to := insert a (mm_delivered_to x)\<rparr> else x)"
    by (cases "a \<in> mm_delivered_to x") (auto simp: insert_absorb)
qed

lemma clear_for_ids [simp]: "map mm_id (clear_for a P ms) = map mm_id ms"
  by (induction ms) (simp_all add: clear_for_def)

lemma clear_for_twice: "clear_for a P (clear_for a Q ms) = clear_for a (\<lambda>c. Q c \<or> P c) ms"
  by (induction ms) (auto simp: clear_for_def)

lemma clear_for_none: "clear_for a (\<lambda>c. False) ms = ms"
  by (simp add: clear_for_def)

lemma unsubscribe_loop_result:
  "distinct (map mm_id msgs) \<Longrightarrow>
     (case mem_unsubscribe_loop a pats ps msgs removed kept cleared of (msgs', removed', kept', cleared') \<Rightarrow>
        msgs' = clear_for a (\<lambda>c. matches_any c (filter (\<lambda>p. p \<in> set pats) ps)) msgs \<and>
        removed' = removed @ filter (\<lambda>p. p \<in> set pats) ps \<and>
        kept' = kept @ filter (\<lambda>p. p \<notin> set pats) ps)"
proof (induction a pats ps msgs removed kept cleared rule: mem_unsubscribe_loop.induct)
  case (1 a pats msgs removed kept cleared)
  then show ?case by (simp add: clear_for_none)
next
  case (2 a pats p ps msgs removed kept cleared)
  show ?case
    using 2 clear_for_marks [OF "2.prems", of a "\<lambda>c. fnmatchcase c p"]
    by (auto simp: Let_def clear_for_twice split: prod.splits)
qed

lemma delete_subscriptions_patterns:
  "set (sq_patterns (delete_subscriptions a ps s) b) = set (sq_patterns s b) - (if b = a then set ps else {})"
  unfolding delete_subscriptions_def
  by (induction ps arbitrary: s) (auto simp: set_sq_patterns_delete)

lemma same_unsubscribe:
  assumes R: "same_store m s"
  shows "same_store (snd (mem_step (Unsubscribe a ps) m)) (snd (sq_step (Unsubscribe a ps) s))"
proof -
  let ?m' = "snd (mem_unsubscribe a ps m)" and ?s' = "snd (sq_unsubscribe a ps s)"
  let ?P = "\<lambda>c. \<exists>p \<in> set (sq_patterns s a). p \<in> set ps \<and> fnmatchcase c p"
  have ids: "distinct (map mm_id (ms_messages m))" using R unfolding same_store_def mem_inv_def by blast
  have pats: "set (mem_patterns_for m b) = set (sq_patterns s b)" for b
    using R by (simp add: same_store_def)
  have any: "(\<lambda>c. matches_any c (filter (\<lambda>p. p \<in> set ps) (mem_patterns_for m a))) = ?P"
    "(\<lambda>c. matches_any c (filter (\<lambda>p. p \<in> set ps) (sq_patterns s a))) = ?P"
    by (auto simp: matches_any_iff pats fun_eq_iff)
  have mem: "ms_messages ?m' = clear_for a ?P (ms_messages m)"
    "ms_subscriptions ?m' = dset (ms_subscriptions m) a (filter (\<lambda>p. p \<notin> set ps) (mem_patterns_for m a))"
    "ms_next_id ?m' = ms_next_id m" "ms_groups ?m' = ms_groups m"
    using unsubscribe_loop_result [OF ids, of a ps "mem_patterns_for m a" "[]" "[]" 0]
    by (auto simp: mem_unsubscribe_def any split: prod.splits)
  have sq: "sq_messages ?s' = update_delivered a (rw_id ` {r \<in> set (sq_messages s). a \<notin> set (rw_delivered_to r) \<and>
      ?P (rw_channel r)}) (sq_messages s)"
    "set (sq_patterns ?s' b) = set (sq_patterns s b) - (if b = a then set ps else {})"
    "sq_conn ?s' = sq_conn s" "sq_groups ?s' = sq_groups s" "sq_last_id ?s' = sq_last_id s" for b
    using R by (auto simp: sq_unsubscribe_def require_conn_def same_store_def Let_def
        delete_subscriptions_patterns update_delivered_def filter_empty_conv matches_any_iff
        simp flip: sq_patterns_def)
  have "clear_for a ?P (map stored_of_row (sq_messages s)) = map stored_of_row (sq_messages ?s')"
  proof -
    have "mm_id ` {m \<in> set (map stored_of_row (sq_messages s)). a \<notin> mm_delivered_to m \<and> ?P (mm_channel m)} =
        rw_id ` {r \<in> set (sq_messages s). a \<notin> set (rw_delivered_to r) \<and> ?P (rw_channel r)}"
      by (force simp: image_iff)
    moreover have "distinct (map mm_id (map stored_of_row (sq_messages s)))"
      using ids R unfolding same_store_def by metis
    ultimately show ?thesis
      using clear_for_marks [of "map stored_of_row (sq_messages s)" a ?P]
      by (simp only: sq(1) update_delivered_rows [symmetric])
  qed
  then show ?thesis
    by (intro same_storeI [OF R refl refl])
      (use R mem sq pats in \<open>auto simp: same_store_def mem_patterns_for_def\<close>)
qed

section \<open>Whole runs\<close>

lemma same_step:
  assumes "same_store m s" and "clean_cut m op"
  shows "fst (mem_step op m) = fst (sq_step op s) \<and> same_store (snd (mem_step op m)) (snd (sq_step op s))"
proof (cases "is_recv op")
  case True
  then obtain a chans n where "op = Recv a chans n" by (cases op) auto
  then show ?thesis using same_recv [OF assms(1)] assms(2) by blast
next
  case False
  then have "same_store (snd (mem_step op m)) (snd (sq_step op s))"
    by (cases op) (simp_all only: is_recv.simps not_True_eq_False same_send [OF assms(1)]
      same_subscribe [OF assms(1)] same_unsubscribe [OF assms(1)] same_ack [OF assms(1)]
      same_heartbeat [OF assms(1)] same_group_create [OF assms(1)] same_group_invite [OF assms(1)]
      same_group_join [OF assms(1)] same_group_leave [OF assms(1)])
  then show ?thesis using mem.log_quiet [OF False] sq.log_quiet [OF False] by simp
qed

fun clean_cuts :: "memory_store \<Rightarrow> store_op list \<Rightarrow> bool" where
  "clean_cuts m [] \<longleftrightarrow> True"
| "clean_cuts m (op # ops) \<longleftrightarrow> clean_cut m op \<and> clean_cuts (snd (mem_step op m)) ops"

lemma same_runs:
  assumes "same_store m s" and "clean_cuts m ops"
  shows "fst (run_ops mem_step ops m) = fst (run_ops sq_step ops s) \<and>
    same_store (snd (run_ops mem_step ops m)) (snd (run_ops sq_step ops s))"
  using assms
proof (induction ops arbitrary: m s)
  case (Cons op ops)
  then have "fst (mem_step op m) = fst (sq_step op s)"
    "same_store (snd (mem_step op m)) (snd (sq_step op s))"
    using same_step [OF Cons.prems(1)] by simp_all
  with Cons.IH Cons.prems(2) show ?case by (simp only: run_ops_Cons fst_conv snd_conv clean_cuts.simps)
qed simp

text \<open>Bounds as large as the number of calls never cut.\<close>

lemma length_mem_step: "length (ms_messages (snd (mem_step op m))) \<le> Suc (length (ms_messages m))"
  by (cases rule: mem_step_cases [of op m])
    (auto simp: mark_delivered_def mem_appended_def mem_keeps_def)

lemma clean_cuts_large:
  assumes "\<And>a chans n. Recv a chans n \<in> set ops \<Longrightarrow> int (length (ms_messages m) + length ops) \<le> n"
  shows "clean_cuts m ops"
  using assms
proof (induction ops arbitrary: m)
  case (Cons op ops)
  have "clean_cut m op"
  proof (cases op)
    case (Recv a chans n)
    then have "int (length (ms_messages m)) < n" using Cons.prems [of a chans n] by simp
    moreover have "length (waiting m a chans) \<le> length (ms_messages m)" by (simp add: waiting_def)
    ultimately show ?thesis by (simp add: Recv)
  qed simp_all
  moreover have "int (length (ms_messages (snd (mem_step op m))) + length ops) \<le> n"
    if "Recv a chans n \<in> set ops" for a chans n
    using Cons.prems [of a chans n] that length_mem_step [of op m] by simp
  ultimately show ?case using Cons.IH by simp
qed simp

section \<open>Properties\<close>

text \<open>
  C6. The in-memory and the SQLite adapter deliver alike: the same sequence of calls on a fresh store of
  either kind delivers the same messages to the same agents in the same order and ends with the same
  messages, readers, subscriptions and groups, as long as each \<open>recv\<close> with something waiting has a
  positive bound, and one that covers the waiting messages or meets them in the order of delivery
  (as on a single channel while the clock does not run back). In the remaining cases the two differ:
  the in-memory adapter cuts before it sorts.
\<close>

theorem stores_deliver_alike:
  assumes "clean_cuts memory_init ops"
  shows "fst (run_ops mem_step ops memory_init) = fst (run_ops sq_step ops (sq_initialize sqlite_init)) \<and>
    same_store (snd (run_ops mem_step ops memory_init)) (snd (run_ops sq_step ops (sq_initialize sqlite_init)))"
  using same_runs [OF same_store_init assms] .

definition alike_ops :: "store_op list" where
  "alike_ops = [Subscribe ''a'' ''*'', Send 1 ''c'' ''b'' [] None None, Send 2 ''c'' ''b'' [] None None,
     Recv ''a'' None 1, Send 3 ''d'' ''b'' [] None None, Recv ''a'' None 5]"

theorem stores_deliver_alike_witness:
  "fst (run_ops mem_step alike_ops memory_init) = fst (run_ops sq_step alike_ops (sq_initialize sqlite_init)) \<and>
   fst (run_ops mem_step alike_ops memory_init) = [(''a'', ''1''), (''a'', ''2''), (''a'', ''3'')]"
proof -
  have "clean_cuts memory_init alike_ops" by code_simp
  then have "fst (run_ops mem_step alike_ops memory_init) =
      fst (run_ops sq_step alike_ops (sq_initialize sqlite_init))"
    using stores_deliver_alike by blast
  moreover have "fst (run_ops mem_step alike_ops memory_init) = [(''a'', ''1''), (''a'', ''2''), (''a'', ''3'')]"
    by code_simp
  ultimately show ?thesis by simp
qed

text \<open>Where they differ: two messages on two channels, and a bound of one.\<close>

lemma cuts_differ:
  "fst (run_ops mem_step [Send 1 ''d'' ''b'' [] None None, Send 2 ''c'' ''b'' [] None None,
     Recv ''a'' (Some [''c'', ''d'']) 1] memory_init) = [(''a'', ''1'')]"
  "fst (run_ops sq_step [Send 1 ''d'' ''b'' [] None None, Send 2 ''c'' ''b'' [] None None,
     Recv ''a'' (Some [''c'', ''d'']) 1] (sq_initialize sqlite_init)) = [(''a'', ''2'')]"
  by code_simp+

text \<open>
  C9. The delivery contract of the SQLite adapter: when its calls run one after the other, no
  message is handed to an agent twice, and the messages of a channel are numbered 1, 2, 3 and
  so on without a gap.
\<close>

theorem sq_delivery_and_numbers:
  "distinct (fst (run_ops sq_step ops (sq_initialize sqlite_init))) \<and>
   map rw_seq (filter (\<lambda>r. rw_channel r = ch) (sq_messages (sq_run ops))) =
     map int [1..<Suc (length (filter (\<lambda>r. rw_channel r = ch) (sq_messages (sq_run ops))))]"
  using sq.at_most_once [OF sq_inv_opened, of ops] sq.numbered.gapless [OF sq_inv_opened, of ch ops]
  by (simp add: sq_log_seqs sq_initialize_def sqlite_init_def)

end
