(* ===== verification/Chain_Order.thy ===== *)
theory Chain_Order
  imports Py_Values
begin

text \<open>
  Ordering by \<open>must_run_before\<close> and \<open>must_run_after\<close>: the two Kahn sorts of
  core/middleware/registry.py, \<open>_topological_sort\<close> over middleware instances and
  \<open>_toposort_plugins\<close> over manifests. They share the loop and differ in the queue: the first
  appends newly free names, the second keeps the queue sorted. An edge \<open>(a, b)\<close> says that
  \<open>a\<close> must come before \<open>b\<close>.
\<close>

section \<open>The constraint graph\<close>

type_synonym constraints = "string \<Rightarrow> string list \<times> string list"

definition node_edges :: "string set \<Rightarrow> constraints \<Rightarrow> string \<Rightarrow> (string \<times> string) list" where
  "node_edges names cs n =
     map (\<lambda>b. (n, b)) (filter (\<lambda>b. b \<in> names) (fst (cs n))) @
     map (\<lambda>a. (a, n)) (filter (\<lambda>a. a \<in> names) (snd (cs n)))"

definition constraint_edges :: "string list \<Rightarrow> constraints \<Rightarrow> (string \<times> string) list" where
  "constraint_edges names cs = concat (map (node_edges (set names) cs) names)"

definition successors :: "(string \<times> string) list \<Rightarrow> string \<Rightarrow> string list" where
  "successors es n = map snd (filter (\<lambda>e. fst e = n) es)"

definition in_degree :: "(string \<times> string) list \<Rightarrow> string \<Rightarrow> int" where
  "in_degree es n = int (length (filter (\<lambda>e. snd e = n) es))"

section \<open>Kahn's loop\<close>

datatype queue_policy = Fifo | Lex

fun merge_queue :: "queue_policy \<Rightarrow> string list \<Rightarrow> string list \<Rightarrow> string list" where
  "merge_queue Fifo queue free = queue @ free"
| "merge_queue Lex queue free = foldl (\<lambda>q x. insort x q) queue (sort free)"

fun order_successors :: "queue_policy \<Rightarrow> string list \<Rightarrow> string list" where
  "order_successors Fifo ss = sort ss"
| "order_successors Lex ss = ss"

text \<open>The inner loop: decrement the degree of each successor, collect those that reach zero.\<close>

fun relax :: "(string \<Rightarrow> int) \<Rightarrow> string list \<Rightarrow> (string \<Rightarrow> int) \<times> string list" where
  "relax deg [] = (deg, [])"
| "relax deg (x # xs) =
     (let deg' = deg(x := deg x - 1); (deg'', free) = relax deg' xs
      in (deg'', if deg' x = 0 then x # free else free))"

lemma relax_degree: "fst (relax deg xs) n = deg n - int (count_list xs n)"
  by (induction xs arbitrary: deg) (auto simp: split_beta Let_def)

lemma relax_free_subset: "set (snd (relax deg xs)) \<subseteq> set xs"
  by (induction xs arbitrary: deg) (auto simp: split_beta Let_def)

lemma relax_free_Cons:
  assumes "d = deg(y := deg y - 1)"
  shows "snd (relax deg (y # ys)) = (if deg y = 1 then y # snd (relax d ys) else snd (relax d ys))"
  using assms by (simp add: split_beta Let_def)

lemma relax_free:
  "x \<in> set (snd (relax deg xs)) \<longleftrightarrow> 0 < deg x \<and> deg x \<le> int (count_list xs x)"
proof (induction xs arbitrary: deg)
  case (Cons y ys)
  define d where "d = deg(y := deg y - 1)"
  have "d y = deg y - 1" "x \<noteq> y \<Longrightarrow> d x = deg x" by (simp_all add: d_def)
  then show ?case
    using Cons.IH [of d] by (auto simp: relax_free_Cons [OF d_def] simp del: relax.simps)
qed simp

lemma relax_free_distinct: "distinct (snd (relax deg xs))"
proof (induction xs arbitrary: deg)
  case (Cons y ys)
  define d where "d = deg(y := deg y - 1)"
  have "deg y = 1 \<Longrightarrow> y \<notin> set (snd (relax d ys))" by (simp add: relax_free d_def)
  then show ?case
    using Cons.IH [of d] by (simp add: relax_free_Cons [OF d_def] del: relax.simps)
qed simp

lemma foldl_insort_mset: "mset (foldl (\<lambda>q x. insort x q) queue xs) = mset queue + mset xs"
  by (induction xs arbitrary: queue) auto

lemma merge_queue_mset: "mset (merge_queue pol queue free) = mset queue + mset free"
  by (cases pol) (auto simp: foldl_insort_mset)

lemma merge_queue_length [simp]: "length (merge_queue pol queue free) = length queue + length free"
  by (metis merge_queue_mset size_mset size_union)

lemma merge_queue_set [simp]: "set (merge_queue pol queue free) = set queue \<union> set free"
  by (metis merge_queue_mset set_mset_mset set_mset_union)

lemma merge_queue_distinct:
  "distinct (merge_queue pol queue free) \<longleftrightarrow> distinct (queue @ free)"
  by (metis merge_queue_mset mset_append mset_eq_imp_distinct_iff)

lemma order_successors_mset [simp]: "mset (order_successors pol ss) = mset ss"
  by (cases pol) auto

lemma order_successors_set [simp]: "set (order_successors pol ss) = set ss"
  by (cases pol) auto

lemma order_successors_count [simp]: "count_list (order_successors pol ss) x = count_list ss x"
  by (metis count_mset order_successors_mset)

definition positive_nodes :: "(string \<times> string) list \<Rightarrow> (string \<Rightarrow> int) \<Rightarrow> string set" where
  "positive_nodes es deg = {n \<in> snd ` set es. 0 < deg n}"

lemma successors_targets: "set (successors es n) \<subseteq> snd ` set es"
  by (auto simp: successors_def)

text \<open>A name that becomes free leaves the positive nodes: the loop ends.\<close>

lemma relax_positive:
  assumes "set xs \<subseteq> snd ` set es"
  shows "card (positive_nodes es (fst (relax deg xs))) + length (snd (relax deg xs)) \<le>
    card (positive_nodes es deg)"
proof -
  let ?P = "positive_nodes es deg" and ?P' = "positive_nodes es (fst (relax deg xs))"
    and ?F = "set (snd (relax deg xs))"
  have "?P' \<union> ?F \<subseteq> ?P" "?P' \<inter> ?F = {}"
    using assms relax_free_subset [of deg xs]
    by (auto simp: positive_nodes_def relax_degree relax_free)
  moreover have fin: "finite ?P" by (simp add: positive_nodes_def)
  moreover have "card ?F = length (snd (relax deg xs))"
    by (rule distinct_card [OF relax_free_distinct])
  ultimately show ?thesis
    by (metis card_Un_disjoint card_mono finite_Un finite_subset)
qed

function kahn ::
  "queue_policy \<Rightarrow> (string \<times> string) list \<Rightarrow> string list \<Rightarrow> (string \<Rightarrow> int) \<Rightarrow> string list \<Rightarrow> string list"
where
  "kahn pol es [] deg result = result"
| "kahn pol es (node # queue) deg result =
     (let (deg', free) = relax deg (order_successors pol (successors es node))
      in kahn pol es (merge_queue pol queue free) deg' (result @ [node]))"
  by pat_completeness auto
termination
proof (relation "measure (\<lambda>(pol, es, queue, deg, result). length queue + card (positive_nodes es deg))",
    goal_cases)
  case (2 pol es node queue deg result x deg' free)
  then have "relax deg (order_successors pol (successors es node)) = (deg', free)" by simp
  then show ?case
    using relax_positive [of "order_successors pol (successors es node)" es deg]
      successors_targets [of es node]
    by simp
qed simp

definition kahn_sort :: "queue_policy \<Rightarrow> string list \<Rightarrow> constraints \<Rightarrow> string list" where
  "kahn_sort pol names cs =
     (let es = constraint_edges names cs; deg = in_degree es
      in kahn pol es (sort (filter (\<lambda>n. deg n = 0) names)) deg [])"

definition topological_sort :: "string list \<Rightarrow> constraints \<Rightarrow> string list result" where
  "topological_sort names cs =
     (let result = kahn_sort Fifo names cs
      in if length result \<noteq> length names
         then Inl (ChainConfigurationError (filter (\<lambda>n. n \<notin> set result) names))
         else Inr result)"

definition toposort_plugins :: "string list \<Rightarrow> constraints \<Rightarrow> string list result" where
  "toposort_plugins ids cs =
     (let result = kahn_sort Lex ids cs
      in if length result \<noteq> length ids
         then Inl (PluginOrderingCycle (sort (filter (\<lambda>p. p \<notin> set result) ids)))
         else Inr result)"

section \<open>Orders that satisfy the constraints\<close>

definition precedes :: "'a list \<Rightarrow> 'a \<Rightarrow> 'a \<Rightarrow> bool" where
  "precedes xs a b \<longleftrightarrow> (\<exists>us vs. xs = us @ vs \<and> a \<in> set us \<and> b \<in> set vs)"

definition satisfies :: "string list \<Rightarrow> (string \<times> string) list \<Rightarrow> bool" where
  "satisfies xs es \<longleftrightarrow> (\<forall>(a, b) \<in> set es. precedes xs a b)"

lemma precedes_append: "precedes xs a b \<Longrightarrow> precedes (xs @ ys) a b"
  unfolding precedes_def by (metis Un_iff append.assoc set_append)

lemma precedes_last: "a \<in> set xs \<Longrightarrow> precedes (xs @ [b]) a b"
  unfolding precedes_def by (metis list.set_intros(1))

lemma edges_nodes: "(a, b) \<in> set (constraint_edges names cs) \<Longrightarrow> a \<in> set names \<and> b \<in> set names"
  by (auto simp: constraint_edges_def node_edges_def)

section \<open>The loop invariant\<close>

definition open_degree :: "(string \<times> string) list \<Rightarrow> string list \<Rightarrow> string \<Rightarrow> int" where
  "open_degree es done n = int (length (filter (\<lambda>e. snd e = n \<and> fst e \<notin> set done) es))"

definition kahn_inv ::
  "string list \<Rightarrow> (string \<times> string) list \<Rightarrow> string list \<Rightarrow> (string \<Rightarrow> int) \<Rightarrow> string list \<Rightarrow> bool"
where
  "kahn_inv names es queue deg result \<longleftrightarrow>
     distinct (result @ queue) \<and> set (result @ queue) = {n \<in> set names. deg n = 0} \<and>
     (\<forall>n. deg n = open_degree es result n) \<and>
     (\<forall>(a, b) \<in> set es. b \<in> set result \<longrightarrow> precedes result a b)"

lemma count_successors: "count_list (successors es n) x = length (filter (\<lambda>e. snd e = x \<and> fst e = n) es)"
  by (induction es) (auto simp: successors_def)

lemma open_degree_snoc:
  assumes "node \<notin> set done"
  shows "open_degree es (done @ [node]) n = open_degree es done n - int (count_list (successors es node) n)"
proof -
  have "length (filter (\<lambda>e. snd e = n \<and> fst e \<notin> set done) es) =
      length (filter (\<lambda>e. snd e = n \<and> fst e \<notin> set (done @ [node])) es) +
      length (filter (\<lambda>e. snd e = n \<and> fst e = node) es)"
    using assms by (induction es) auto
  then show ?thesis by (simp add: open_degree_def count_successors)
qed

lemma open_degree_zero: "open_degree es done b = 0 \<Longrightarrow> (a, b) \<in> set es \<Longrightarrow> a \<in> set done"
  by (force simp: open_degree_def filter_empty_conv)

lemma kahn_inv_step:
  assumes inv: "kahn_inv names es (node # queue) deg result" and nodes: "snd ` set es \<subseteq> set names"
    and step: "relax deg (order_successors pol (successors es node)) = (deg', free)"
  shows "kahn_inv names es (merge_queue pol queue free) deg' (result @ [node])"
proof -
  let ?ss = "order_successors pol (successors es node)"
  have deg': "deg' n = deg n - int (count_list (successors es node) n)" for n
    using relax_degree [of deg ?ss n] step by simp
  have free: "x \<in> set free \<longleftrightarrow> 0 < deg x \<and> deg' x \<le> 0" for x
    using relax_free [of x deg ?ss] step deg' by auto
  have deg: "deg n = open_degree es result n" for n using inv by (simp add: kahn_inv_def)
  have new: "node \<notin> set result" using inv by (auto simp: kahn_inv_def)
  have deg'_open: "deg' n = open_degree es (result @ [node]) n" for n
    using deg' deg open_degree_snoc [OF new] by simp
  then have nonneg: "0 \<le> deg' n" for n by (simp add: open_degree_def)
  have old: "set (result @ node # queue) = {n \<in> set names. deg n = 0}"
    using inv by (simp add: kahn_inv_def)
  have sub: "set free \<subseteq> set names"
    using relax_free_subset [of deg ?ss] step successors_targets [of es node] nodes by auto
  have "x \<notin> set (result @ node # queue)" if "x \<in> set free" for x
    using that free [of x] old by auto
  then have disj: "set free \<inter> set (result @ node # queue) = {}" by blast
  have dist: "distinct ((result @ [node]) @ merge_queue pol queue free)"
  proof -
    have "distinct (result @ node # queue)" using inv by (simp add: kahn_inv_def)
    then show ?thesis
      using relax_free_distinct [of deg ?ss] step disj by (auto simp: merge_queue_distinct)
  qed
  have sets: "set ((result @ [node]) @ merge_queue pol queue free) = {n \<in> set names. deg' n = 0}"
  proof -
    have "deg n = 0 \<Longrightarrow> deg' n = 0" for n using deg' [of n] nonneg [of n] by linarith
    moreover have "deg' n = 0 \<Longrightarrow> deg n \<noteq> 0 \<Longrightarrow> n \<in> set free" for n
      using free [of n] deg [of n] by (simp add: open_degree_def)
    moreover have "n \<in> set free \<Longrightarrow> deg' n = 0" for n using free [of n] nonneg [of n] by simp
    moreover have "set ((result @ [node]) @ merge_queue pol queue free) =
        set (result @ node # queue) \<union> set free" by auto
    ultimately show ?thesis using old sub by blast
  qed
  have node: "deg node = 0" using old by auto
  have prec: "precedes (result @ [node]) a b" if "(a, b) \<in> set es" "b \<in> set (result @ [node])" for a b
  proof (cases "b \<in> set result")
    case True
    then show ?thesis using inv that(1) precedes_append by (fastforce simp: kahn_inv_def)
  next
    case False
    then have "b = node" using that(2) by simp
    then have "a \<in> set result" using open_degree_zero [of es result b a] node deg that(1) by simp
    with \<open>b = node\<close> show ?thesis by (simp add: precedes_last)
  qed
  show ?thesis
    unfolding kahn_inv_def using dist sets deg'_open prec by blast
qed

lemma kahn_result:
  "kahn_inv names es queue deg result \<Longrightarrow> snd ` set es \<subseteq> set names \<Longrightarrow>
     \<exists>deg'. kahn_inv names es [] deg' (kahn pol es queue deg result)"
proof (induction pol es queue deg result rule: kahn.induct)
  case (2 pol es node queue deg result)
  obtain deg' free where r: "relax deg (order_successors pol (successors es node)) = (deg', free)"
    by fastforce
  show ?case
    using "2.IH" [OF r [symmetric] refl kahn_inv_step [OF "2.prems" r]] r "2.prems"(2) by simp
qed auto

lemma kahn_sort_inv:
  assumes "distinct names"
  shows "\<exists>deg. kahn_inv names (constraint_edges names cs) [] deg (kahn_sort pol names cs)"
proof -
  let ?es = "constraint_edges names cs"
  have "kahn_inv names ?es (sort (filter (\<lambda>n. in_degree ?es n = 0) names)) (in_degree ?es) []"
    using assms by (auto simp: kahn_inv_def in_degree_def open_degree_def)
  moreover have "snd ` set ?es \<subseteq> set names" using edges_nodes by auto
  ultimately show ?thesis using kahn_result unfolding kahn_sort_def Let_def by blast
qed

lemma kahn_sort_sound:
  assumes "distinct names" and "length (kahn_sort pol names cs) = length names"
  shows "mset (kahn_sort pol names cs) = mset names \<and>
    satisfies (kahn_sort pol names cs) (constraint_edges names cs)"
proof -
  let ?r = "kahn_sort pol names cs"
  obtain deg where inv: "kahn_inv names (constraint_edges names cs) [] deg ?r"
    using kahn_sort_inv [OF assms(1)] by blast
  then have "distinct ?r" "set ?r \<subseteq> set names" by (auto simp: kahn_inv_def)
  moreover have eq: "set ?r = set names"
    using calculation assms by (metis card_subset_eq distinct_card List.finite_set)
  ultimately have "mset ?r = mset names" using assms(1) set_eq_iff_mset_eq_distinct by blast
  moreover have "satisfies ?r (constraint_edges names cs)"
    unfolding satisfies_def
  proof clarify
    fix a b assume e: "(a, b) \<in> set (constraint_edges names cs)"
    then have "b \<in> set ?r" using edges_nodes [OF e] eq by simp
    with e inv show "precedes ?r a b" unfolding kahn_inv_def by blast
  qed
  ultimately show ?thesis ..
qed

text \<open>A list of names that satisfies the constraints rules out a blocked remainder.\<close>

lemma blocked_unsatisfiable:
  assumes "satisfies xs es" and "distinct xs" and "n \<in> R" and "R \<subseteq> set xs"
    and "\<And>b. b \<in> R \<Longrightarrow> \<exists>a \<in> R. (a, b) \<in> set es"
  shows False
proof -
  obtain us b vs where xs: "xs = us @ b # vs" "b \<in> R" "\<forall>x \<in> set us. x \<notin> R"
    using split_list_first_prop [of xs "\<lambda>x. x \<in> R"] assms(3,4) by blast
  obtain a where a: "a \<in> R" "(a, b) \<in> set es" using assms(5) [OF xs(2)] by blast
  then obtain ps qs where "xs = ps @ qs" "a \<in> set ps" "b \<in> set qs"
    using assms(1) by (fastforce simp: satisfies_def precedes_def)
  moreover have "a \<in> set (b # vs)" using xs a assms(4) by auto
  ultimately show False
    using xs(1) assms(2) by (auto simp: append_eq_append_conv2 append_eq_Cons_conv Cons_eq_append_conv)
qed

lemma kahn_sort_blocked:
  assumes "distinct names" and "length (kahn_sort pol names cs) \<noteq> length names"
  shows "set names - set (kahn_sort pol names cs) \<noteq> {} \<and>
    (\<forall>b \<in> set names - set (kahn_sort pol names cs). \<exists>a \<in> set names - set (kahn_sort pol names cs).
       (a, b) \<in> set (constraint_edges names cs))"
proof
  let ?r = "kahn_sort pol names cs" and ?es = "constraint_edges names cs"
  obtain deg where inv: "kahn_inv names ?es [] deg ?r" using kahn_sort_inv [OF assms(1)] by blast
  let ?R = "set names - set ?r"
  have r: "distinct ?r" "set ?r = {n \<in> set names. deg n = 0}" using inv by (auto simp: kahn_inv_def)
  show "?R \<noteq> {}"
    using r assms by (metis (no_types, lifting) Diff_eq_empty_iff distinct_card mem_Collect_eq
      subsetI subset_antisym)
  show "\<forall>b \<in> ?R. \<exists>a \<in> ?R. (a, b) \<in> set ?es"
  proof
    fix b assume b: "b \<in> ?R"
    have "open_degree ?es ?r b \<noteq> 0" using b r(2) inv by (auto simp: kahn_inv_def)
    then obtain a where a: "(a, b) \<in> set ?es" "a \<notin> set ?r"
      by (auto simp: open_degree_def filter_empty_conv)
    with edges_nodes [OF a(1)] show "\<exists>a \<in> ?R. (a, b) \<in> set ?es" by blast
  qed
qed

lemma kahn_sort_complete:
  assumes "distinct names" and "mset xs = mset names" and "satisfies xs (constraint_edges names cs)"
  shows "length (kahn_sort pol names cs) = length names"
proof (rule ccontr)
  let ?R = "set names - set (kahn_sort pol names cs)"
  assume "length (kahn_sort pol names cs) \<noteq> length names"
  note blocked = kahn_sort_blocked [OF assms(1) this]
  then obtain n where n: "n \<in> ?R" by blast
  have "distinct xs" "?R \<subseteq> set xs"
    using assms(1,2) by (metis mset_eq_imp_distinct_iff) (metis Diff_subset assms(2) set_mset_mset)
  then show False using blocked_unsatisfiable [OF assms(3) _ n] blocked by blast
qed

end
