(* ===== verification/Plugin_Loader.thy ===== *)
theory Plugin_Loader
  imports Py_Values
begin

text \<open>
  The manifest loader (core/middleware/plugin_loader.py): the npm range forms, the manifest and
  its checks, environment variable names. The \<open>packaging\<close>, \<open>jsonschema\<close> and YAML libraries and
  the files of a distribution are parameters, gathered in the record \<open>loader_env\<close>.
\<close>

section \<open>npm ranges (_normalize_npm_caret)\<close>

text \<open>\<open>\\d+\<close> at the start of a text: the digits and what follows.\<close>

definition digits_of :: "string \<Rightarrow> (string \<times> string) option" where
  "digits_of s = (case takeWhile is_digit s of [] \<Rightarrow> None | ds \<Rightarrow> Some (ds, dropWhile is_digit s))"

fun after_char :: "char \<Rightarrow> string \<Rightarrow> string option" where
  "after_char c [] = None"
| "after_char c (d # s) = (if d = c then Some s else None)"

definition is_pre_char :: "char \<Rightarrow> bool" where
  "is_pre_char c \<longleftrightarrow> is_digit c \<or> c = CHR ''.'' \<or> c = CHR ''-'' \<or>
     (let n = of_char c :: nat in 65 \<le> n \<and> n \<le> 90 \<or> 97 \<le> n \<and> n \<le> 122)"

text \<open>\<open>(-[0-9A-Za-z.-]+)?$\<close>: the text itself when it has that form.\<close>

definition pre_release :: "string \<Rightarrow> string option" where
  "pre_release s =
     (case s of [] \<Rightarrow> Some []
      | c # r \<Rightarrow> if c = CHR ''-'' \<and> r \<noteq> [] \<and> list_all is_pre_char r then Some s else None)"

datatype npm_version =
    Major string string
  | Minor string string string
  | Patch string string string string

text \<open>The longest \<open>M\<close>, \<open>M.m\<close> or \<open>M.m.p\<close> at the start, with the rest of the text.\<close>

definition npm_version :: "string \<Rightarrow> npm_version option" where
  "npm_version s =
     (case digits_of s of None \<Rightarrow> None
      | Some (major, r1) \<Rightarrow>
          (case after_char (CHR ''.'') r1 of None \<Rightarrow> Some (Major major r1)
           | Some r1' \<Rightarrow>
               (case digits_of r1' of None \<Rightarrow> Some (Major major r1)
                | Some (minor, r2) \<Rightarrow>
                    (case after_char (CHR ''.'') r2 of None \<Rightarrow> Some (Minor major minor r2)
                     | Some r2' \<Rightarrow>
                         (case digits_of r2' of None \<Rightarrow> Some (Minor major minor r2)
                          | Some (patch, r3) \<Rightarrow> Some (Patch major minor patch r3))))))"

definition next_number :: "string \<Rightarrow> string" where
  "next_number ds = str_nat (nat_of_digits ds + 1)"

definition caret_range :: "string \<Rightarrow> string option" where
  "caret_range s =
     (case npm_version s of
        Some (Patch major minor patch rest) \<Rightarrow>
          (case pre_release rest of None \<Rightarrow> None
           | Some pre \<Rightarrow> Some (''>='' @ major @ ''.'' @ minor @ ''.'' @ patch @ pre @ '',<'' @
               next_number major @ ''.0.0''))
      | Some (Minor major minor []) \<Rightarrow>
          Some (''>='' @ major @ ''.'' @ minor @ ''.0,<'' @ next_number major @ ''.0.0'')
      | Some (Major major []) \<Rightarrow> Some (''>='' @ major @ ''.0.0,<'' @ next_number major @ ''.0.0'')
      | _ \<Rightarrow> None)"

definition tilde_range :: "string \<Rightarrow> string option" where
  "tilde_range s =
     (case npm_version s of
        Some (Patch major minor patch rest) \<Rightarrow>
          (case pre_release rest of None \<Rightarrow> None
           | Some pre \<Rightarrow> Some (''>='' @ major @ ''.'' @ minor @ ''.'' @ patch @ pre @ '',<'' @
               major @ ''.'' @ next_number minor @ ''.0''))
      | _ \<Rightarrow> None)"

definition wildcard_tail :: "string \<Rightarrow> bool" where
  "wildcard_tail s \<longleftrightarrow> s = ''.x'' \<or> s = ''.X'' \<or> s = ''.*''"

definition plain_range :: "string \<Rightarrow> string option" where
  "plain_range s =
     (case npm_version s of
        Some (Minor major minor rest) \<Rightarrow>
          if wildcard_tail rest
          then Some (''>='' @ major @ ''.'' @ minor @ ''.0,<'' @ major @ ''.'' @ next_number minor @ ''.0'')
          else None
      | Some (Major major rest) \<Rightarrow>
          if wildcard_tail rest
          then Some (''>='' @ major @ ''.0.0,<'' @ next_number major @ ''.0.0'') else None
      | Some (Patch major minor patch rest) \<Rightarrow> if rest = [] then Some (''=='' @ s) else None
      | None \<Rightarrow> None)"

definition normalize_npm_caret :: "string \<Rightarrow> string option" where
  "normalize_npm_caret s =
     (let t = strip s
      in if t \<in> {''*'', ''x'', ''X''} then Some ''>=0.0.0''
         else case t of
           [] \<Rightarrow> None
         | c # r \<Rightarrow> if c = CHR ''^'' then caret_range r
                    else if c = CHR ''~'' then tilde_range r
                    else plain_range t)"

section \<open>Manifests\<close>

record manifest =
  mf_id :: string
  mf_version :: string
  mf_kind :: string
  mf_protocol_version :: string
  mf_capabilities :: "pydict list"
  mf_requires :: "string list"
  mf_must_run_before :: "string list"
  mf_must_run_after :: "string list"
  mf_signatures :: "pyval list"
  mf_applies_to :: "pydict option"

record 'r loader_env =
  le_specifier_set :: "string \<Rightarrow> 'r option"
  le_specifier_text :: "'r \<Rightarrow> string"
  le_valid_version :: "string \<Rightarrow> bool"
  le_is_prerelease :: "string \<Rightarrow> bool"
  le_contains :: "bool \<Rightarrow> 'r \<Rightarrow> string \<Rightarrow> bool"
  le_schema_error :: "pydict \<Rightarrow> string option"

definition parse_version_range :: "'r loader_env \<Rightarrow> string \<Rightarrow> 'r result" where
  "parse_version_range env s =
     (let t = strip s; invalid = Inl (PluginManifestInvalid ''<unknown>'' ''protocol_version'')
      in case le_specifier_set env t of
           Some r \<Rightarrow> Inr r
         | None \<Rightarrow>
             (case normalize_npm_caret t of
                None \<Rightarrow> invalid
              | Some n \<Rightarrow> (case le_specifier_set env n of Some r \<Rightarrow> Inr r | None \<Rightarrow> invalid)))"

definition str_of :: "pyval \<Rightarrow> string" where
  "str_of v = (case v of PStr s \<Rightarrow> s | _ \<Rightarrow> [])"

text \<open>\<open>block.get(k) or []\<close>, read as a list of strings or of dicts.\<close>

definition list_field :: "pydict \<Rightarrow> string \<Rightarrow> pyval list" where
  "list_field d k = as_list (dget_default d k PNone)"

definition validate_manifest :: "'r loader_env \<Rightarrow> pydict \<Rightarrow> manifest result" where
  "validate_manifest env doc =
     (let plugin_id = (case dget doc ''metadata'' of
            Some (PDict md) \<Rightarrow> str_of (dget_default md ''id'' (PStr ''<unknown>''))
          | _ \<Rightarrow> ''<unknown>'')
      in case le_schema_error env doc of
           Some msg \<Rightarrow> Inl (PluginManifestInvalid plugin_id msg)
         | None \<Rightarrow>
             (case dget doc ''spec'' of None \<Rightarrow> Inl (KeyError ''spec'')
              | Some spec_v \<Rightarrow>
                (let spec = as_dict spec_v
                 in if \<not> is_list (dget_default spec ''signatures'' PNone)
                    then Inl (PluginManifestInvalid plugin_id
                           ''spec.signatures must be present and must be a list (may be empty)'')
                    else case dget doc ''metadata'' of None \<Rightarrow> Inl (KeyError ''metadata'')
                      | Some md_v \<Rightarrow>
                        (let md = as_dict md_v
                         in Inr \<lparr>mf_id = str_of (dget_default md ''id'' PNone),
                              mf_version = str_of (dget_default md ''version'' PNone),
                              mf_kind = str_of (dget_default spec ''plugin_kind'' PNone),
                              mf_protocol_version = str_of (dget_default spec ''protocol_version'' PNone),
                              mf_capabilities = map as_dict (list_field spec ''plugin_capabilities''),
                              mf_requires = map str_of (list_field spec ''requires''),
                              mf_must_run_before = map str_of (list_field spec ''must_run_before''),
                              mf_must_run_after = map str_of (list_field spec ''must_run_after''),
                              mf_signatures = list_field spec ''signatures'',
                              mf_applies_to = (case dget spec ''applies_to'' of
                                Some (PDict d) \<Rightarrow> Some d | _ \<Rightarrow> None)\<rparr>))))"

definition check_protocol_version :: "'r loader_env \<Rightarrow> manifest \<Rightarrow> string \<Rightarrow> unit result" where
  "check_protocol_version env m host =
     bind_res (parse_version_range env (mf_protocol_version m)) (\<lambda>spec.
       if \<not> le_valid_version env host
       then Inl (PluginManifestInvalid (mf_id m) ''host_protocol_version is not a valid version'')
       else let prereleases = le_is_prerelease env host;
                spec' = (if prereleases
                         then (case le_specifier_set env (le_specifier_text env spec) of
                                 Some r \<Rightarrow> r | None \<Rightarrow> spec)
                         else spec)
            in if le_contains env prereleases spec' host then Inr ()
               else Inl (PluginProtocolVersionMismatch (mf_id m)))"

definition capability_true :: "string \<Rightarrow> manifest \<Rightarrow> bool" where
  "capability_true k m \<longleftrightarrow> list_ex (\<lambda>cap. dget cap k = Some (PBool True)) (mf_capabilities m)"

definition assert_capability_orthogonality :: "manifest \<Rightarrow> unit result" where
  "assert_capability_orthogonality m =
     (if capability_true ''observe_only'' m \<and> capability_true ''may_short_circuit'' m
      then Inl (PluginCapabilityConflict (mf_id m)) else Inr ())"

definition canonicalize_env_var :: "string \<Rightarrow> string \<Rightarrow> string" where
  "canonicalize_env_var plugin_id key =
     ''SOX_PLUGIN_'' @ upper (str_replace ''-'' ''_'' (str_replace ''.'' ''_'' plugin_id)) @
     ''_'' @ upper key"

section \<open>Reading the manifest of an entry point\<close>

record distribution =
  ds_files :: "(string \<times> string) list"
  ds_locate :: "string \<Rightarrow> string option"

record entry_point =
  ep_name :: string
  ep_dist :: "distribution option"

text \<open>
  A file of a distribution has a name and a path; \<open>exists_file\<close> and \<open>load_yaml\<close> stand for the
  file system and the YAML library (\<open>None\<close>: it raises).
\<close>

definition read_manifest_for_entry_point ::
  "(string \<Rightarrow> bool) \<Rightarrow> (string \<Rightarrow> pyval option) \<Rightarrow> entry_point \<Rightarrow> pydict result"
where
  "read_manifest_for_entry_point exists_file load_yaml ep =
     (let invalid = (\<lambda>reason. Inl (PluginManifestInvalid (ep_name ep) reason))
      in case ep_dist ep of
           None \<Rightarrow> invalid ''Entry-point has no .dist attribute; cannot locate sox-plugin.yaml''
         | Some dst \<Rightarrow>
             (case filter (\<lambda>f. fst f = ''sox-plugin.yaml'') (ds_files dst) of
                [] \<Rightarrow> invalid ''sox-plugin.yaml not found''
              | f # _ \<Rightarrow>
                  (case ds_locate dst (snd f) of
                     None \<Rightarrow> invalid ''Could not resolve sox-plugin.yaml path''
                   | Some path \<Rightarrow>
                       if \<not> exists_file path then invalid ''the file does not exist''
                       else case load_yaml path of
                              None \<Rightarrow> invalid ''Failed to parse sox-plugin.yaml as YAML''
                            | Some (PDict d) \<Rightarrow> Inr d
                            | Some _ \<Rightarrow> invalid ''sox-plugin.yaml top-level value must be a YAML mapping'')))"

end
