(* ===== verification/Pipeline.thy ===== *)
theory Pipeline
  imports Py_Values
begin

text \<open>
  The middleware pipeline (core/middleware/context.py, pipeline.py, hooks.py, errors.py). A
  middleware is a value of type \<open>'s act\<close> for each call: it returns (or raises), or it calls the
  next stage and continues with what that returned, as often as it likes. The state \<open>'s\<close> is
  the world the stages share; the trace is kept by the pipeline alone. The monotonic
  timestamps of the trace entries are not modelled.
\<close>

section \<open>The context (context.py)\<close>

record call_context =
  cx_operation :: string
  cx_input :: pydict
  cx_metadata :: pydict
  cx_connection_id :: string
  cx_agent_id :: "agent option"
  cx_correlation_id :: string
  cx_frozen :: bool

text \<open>\<open>fresh\<close> is the hex text of the UUID that the constructor draws.\<close>

definition new_context ::
  "string \<Rightarrow> string \<Rightarrow> pydict \<Rightarrow> string \<Rightarrow> pydict option \<Rightarrow> call_context"
where
  "new_context fresh operation inp connection_id metadata =
     (let md = (case metadata of Some m \<Rightarrow> m | None \<Rightarrow> []);
          corr = (case dget md ''correlation_id'' of
                    Some (PStr s) \<Rightarrow> if s \<noteq> [] then s else fresh
                  | _ \<Rightarrow> fresh)
      in \<lparr>cx_operation = operation, cx_input = inp, cx_metadata = md,
          cx_connection_id = connection_id, cx_agent_id = None, cx_correlation_id = corr,
          cx_frozen = False\<rparr>)"

definition freeze_correlation_id :: "call_context \<Rightarrow> call_context" where
  "freeze_correlation_id c = c\<lparr>cx_frozen := True\<rparr>"

definition set_connection_id :: "string \<Rightarrow> call_context \<Rightarrow> unit result \<times> call_context" where
  "set_connection_id v c =
     (Inl (AttributeError ''connection_id is read-only; assigned at connection time''), c)"

definition set_agent_id :: "string \<Rightarrow> call_context \<Rightarrow> unit result \<times> call_context" where
  "set_agent_id v c =
     (if cx_agent_id c \<noteq> None
      then (Inl (AttributeError ''agent_id is already set; only the auth middleware may set it''), c)
      else if v = [] \<or> strip v = []
      then (Inl (ValueError ''agent_id must be a non-empty, non-whitespace string''), c)
      else (Inr (), c\<lparr>cx_agent_id := Some v\<rparr>))"

section \<open>Error envelopes (errors.py)\<close>

definition make_internal_error :: "string \<Rightarrow> pydict" where
  "make_internal_error reason =
     [(''error_code'', PStr ''internal_error''), (''message'', PStr reason), (''detail'', PNone),
      (''retry_after'', PNone)]"

text \<open>
  The start-up errors and their \<open>to_envelope\<close>. \<open>quote\<close> stands for \<open>repr\<close> of a string; the
  version mismatch carries its four fields, of which the model keeps the plugin id.
\<close>

definition arrow_notation :: "string list \<Rightarrow> string" where
  "arrow_notation cycle = (if cycle = [] then [] else join '' -> '' (cycle @ [hd cycle]))"

fun to_envelope :: "(string \<Rightarrow> string) \<Rightarrow> exc \<Rightarrow> (string \<times> string) list" where
  "to_envelope quote (PluginNotAllowed p) =
     [(''error_code'', ''plugin_not_allowed''),
      (''message'', ''Plugin '' @ quote p @ '' is not in the allowlist''), (''plugin_id'', p)]"
| "to_envelope quote (PluginNotFound p) =
     [(''error_code'', ''plugin_not_found''),
      (''message'', ''Plugin '' @ quote p @
         '' is in the allowlist but no matching entry-point was found''), (''plugin_id'', p)]"
| "to_envelope quote (PluginManifestInvalid p reason) =
     [(''error_code'', ''plugin_manifest_invalid''),
      (''message'', ''Plugin '' @ quote p @ '' manifest invalid: '' @ reason), (''plugin_id'', p),
      (''reason'', reason)]"
| "to_envelope quote (PluginCapabilityConflict p) =
     [(''error_code'', ''plugin_capability_conflict''),
      (''message'', ''Plugin '' @ quote p @
         '' declares both observe_only=true and may_short_circuit=true, which are mutually exclusive''),
      (''plugin_id'', p)]"
| "to_envelope quote (PluginOrderingCycle cycle) =
     [(''error_code'', ''plugin_ordering_cycle''),
      (''message'', ''plugin_ordering_cycle: '' @
         (if cycle = [] then ''(empty cycle)'' else arrow_notation cycle)),
      (''cycle'', arrow_notation cycle)]"
| "to_envelope quote (PluginRequirementUnmet p cap) =
     [(''error_code'', ''plugin_requirement_unmet''),
      (''message'', ''Plugin '' @ quote p @ '' requires capability '' @ quote cap @
         '' which is not provided by any loaded plugin''),
      (''plugin_id'', p), (''capability'', cap)]"
| "to_envelope quote e = []"

section \<open>Middlewares\<close>

datatype 's act =
    Return "pydict result" call_context 's
  | CallNext call_context 's "pydict result \<times> call_context \<times> 's \<Rightarrow> 's act"

record 's middleware =
  mw_name :: string
  mw_kind :: "string option"
  mw_must_run_before :: "string list"
  mw_must_run_after :: "string list"
  mw_call :: "call_context \<Rightarrow> 's \<Rightarrow> 's act"

type_synonym 's terminal = "call_context \<Rightarrow> 's \<Rightarrow> pydict result \<times> call_context \<times> 's"

definition get_kind :: "'s middleware \<Rightarrow> string" where
  "get_kind m = (case mw_kind m of Some k \<Rightarrow> k | None \<Rightarrow> ''unknown'')"

section \<open>The call chain (pipeline.py)\<close>

datatype verdict = Skipped | Passed | Rejected | Errored

record trace_entry =
  te_plugin_id :: string
  te_kind :: string
  te_verdict :: verdict
  te_error_code :: pyval
  te_correlation_id :: string

type_synonym trace = "trace_entry list"

text \<open>Running one middleware: \<open>nxt\<close> is the next stage, which writes the rest of the trace.\<close>

primrec run_act ::
  "(call_context \<Rightarrow> 's \<Rightarrow> trace \<Rightarrow> pydict result \<times> call_context \<times> 's \<times> trace) \<Rightarrow> 's act \<Rightarrow> trace \<Rightarrow>
     pydict result \<times> call_context \<times> 's \<times> trace"
where
  "run_act nxt (Return r c s) = (\<lambda>t. (r, c, s, t))"
| "run_act nxt (CallNext c s k) =
     (\<lambda>t. case nxt c s t of (r, c', s', t') \<Rightarrow> run_act nxt (k (r, c', s')) t')"

text \<open>What \<open>_call\<close> writes into its entry once the middleware has returned or raised.\<close>

definition close_entry :: "pydict result \<Rightarrow> trace_entry \<Rightarrow> trace_entry" where
  "close_entry r e =
     (case r of
        Inr response \<Rightarrow>
          (case dget response ''error_code'' of
             Some code \<Rightarrow> e\<lparr>te_verdict := Rejected, te_error_code := code\<rparr>
           | None \<Rightarrow> e\<lparr>te_verdict := Passed\<rparr>)
      | Inl (ShortCircuit response) \<Rightarrow>
          e\<lparr>te_verdict := Rejected, te_error_code := dget_default response ''error_code'' PNone\<rparr>
      | Inl _ \<Rightarrow> e\<lparr>te_verdict := Errored\<rparr>)"

text \<open>\<open>_build_call_chain\<close>: the stages from \<open>index\<close> on; entry \<open>index\<close> belongs to the first of them.\<close>

primrec call_chain ::
  "'s middleware list \<Rightarrow> nat \<Rightarrow> 's terminal \<Rightarrow> call_context \<Rightarrow> 's \<Rightarrow> trace \<Rightarrow>
     pydict result \<times> call_context \<times> 's \<times> trace"
where
  "call_chain [] = (\<lambda>index terminal c s t. case terminal c s of (r, c', s') \<Rightarrow> (r, c', s', t))"
| "call_chain (m # ms) = (\<lambda>index terminal c s t.
     case run_act (call_chain ms (Suc index) terminal) (mw_call m c s) t of
       (r, c', s', t') \<Rightarrow> (r, c', s', t'[index := close_entry r (t' ! index)]))"

definition new_entry :: "string \<Rightarrow> 's middleware \<Rightarrow> trace_entry" where
  "new_entry corr m = \<lparr>te_plugin_id = mw_name m, te_kind = get_kind m, te_verdict = Skipped,
     te_error_code = PNone, te_correlation_id = corr\<rparr>"

fun verdict_text :: "verdict \<Rightarrow> string" where
  "verdict_text Skipped = ''skipped''"
| "verdict_text Passed = ''passed''"
| "verdict_text Rejected = ''rejected''"
| "verdict_text Errored = ''errored''"

definition entry_value :: "trace_entry \<Rightarrow> pyval" where
  "entry_value e = PDict [(''plugin_id'', PStr (te_plugin_id e)), (''kind'', PStr (te_kind e)),
     (''verdict'', PStr (verdict_text (te_verdict e))), (''error_code'', te_error_code e),
     (''correlation_id'', PStr (te_correlation_id e))]"

definition attach_trace :: "pydict \<Rightarrow> trace \<Rightarrow> string \<Rightarrow> pydict" where
  "attach_trace result trace corr =
     (let meta = (case dget result ''metadata'' of Some (PDict d) \<Rightarrow> d | _ \<Rightarrow> [])
      in dset result ''metadata''
           (PDict (dset (dset meta ''pipeline_trace'' (PList (map entry_value trace)))
              ''correlation_id'' (PStr corr))))"

record 's pipeline =
  pl_middlewares :: "'s middleware list"
  pl_terminal :: "'s terminal"

definition pl_order :: "'s pipeline \<Rightarrow> string list" where
  "pl_order p = map mw_name (pl_middlewares p)"

definition recover :: "pydict result \<Rightarrow> pydict" where
  "recover r =
     (case r of
        Inr response \<Rightarrow> response
      | Inl (ShortCircuit response) \<Rightarrow> response
      | Inl _ \<Rightarrow> make_internal_error ''Internal server error'')"

definition dispatch ::
  "'s pipeline \<Rightarrow> string \<Rightarrow> string \<Rightarrow> pydict \<Rightarrow> string \<Rightarrow> pydict option \<Rightarrow> 's \<Rightarrow> pydict \<times> trace \<times> 's"
where
  "dispatch p fresh operation inp connection_id metadata s =
     (let ctx = freeze_correlation_id (new_context fresh operation inp connection_id metadata);
          trace = map (new_entry (cx_correlation_id ctx)) (pl_middlewares p);
          (r, ctx', s', trace') = call_chain (pl_middlewares p) 0 (pl_terminal p) ctx s trace
      in (attach_trace (recover r) trace' (cx_correlation_id ctx), trace', s'))"

section \<open>Hooks (hooks.py)\<close>

datatype hook_action = Allow | Deny

record hook_decision =
  hd_action :: hook_action
  hd_error :: "pydict option"

text \<open>A hook sees a read-only snapshot of the context; what it does to the world is its own.\<close>

record 's hook =
  hk_name :: "string option"
  hk_call :: "pydict \<Rightarrow> 's \<Rightarrow> hook_decision option result \<times> 's"

definition ctx_view :: "call_context \<Rightarrow> pydict" where
  "ctx_view c =
     [(''operation'', PStr (cx_operation c)), (''input'', PDict (cx_input c)),
      (''connection_id'', PStr (cx_connection_id c)), (''agent_id'', opt_str (cx_agent_id c)),
      (''metadata'', PDict (cx_metadata c)), (''correlation_id'', PStr (cx_correlation_id c))]"

definition make_deny_error :: "string \<Rightarrow> pydict" where
  "make_deny_error hook_name =
     [(''error_code'', PStr ''hook_denied''),
      (''message'', PStr (''Request denied by hook: '' @ hook_name)), (''detail'', PNone),
      (''retry_after'', PNone)]"

fun run_pre_hooks :: "'s hook list \<Rightarrow> pydict \<Rightarrow> 's \<Rightarrow> unit result \<times> 's" where
  "run_pre_hooks [] view s = (Inr (), s)"
| "run_pre_hooks (h # hs) view s =
     (case hk_call h view s of
        (Inl e, s') \<Rightarrow> (Inl e, s')
      | (Inr None, s') \<Rightarrow> run_pre_hooks hs view s'
      | (Inr (Some d), s') \<Rightarrow>
          if hd_action d = Deny
          then (Inl (ShortCircuit (case hd_error d of
                  Some err \<Rightarrow> if err \<noteq> [] then err
                    else make_deny_error (case hk_name h of Some n \<Rightarrow> n | None \<Rightarrow> ''unknown'')
                | None \<Rightarrow> make_deny_error (case hk_name h of Some n \<Rightarrow> n | None \<Rightarrow> ''unknown''))), s')
          else run_pre_hooks hs view s')"

fun run_post_hooks :: "'s hook list \<Rightarrow> pydict \<Rightarrow> 's \<Rightarrow> unit result \<times> 's" where
  "run_post_hooks [] view s = (Inr (), s)"
| "run_post_hooks (h # hs) view s =
     (case hk_call h view s of
        (Inl e, s') \<Rightarrow> (Inl e, s')
      | (Inr d, s') \<Rightarrow> run_post_hooks hs view s')"

definition hook_dispatcher ::
  "(string \<times> 's hook list) list \<Rightarrow> (string \<times> 's hook list) list \<Rightarrow> 's middleware"
where
  "hook_dispatcher pre post =
     \<lparr>mw_name = ''hook_dispatcher'', mw_kind = None, mw_must_run_before = [], mw_must_run_after = [],
      mw_call = (\<lambda>c s.
        let view = ctx_view c; operation = cx_operation c
        in case run_pre_hooks (dget_default pre operation []) view s of
             (Inl e, s1) \<Rightarrow> Return (Inl e) c s1
           | (Inr _, s1) \<Rightarrow> CallNext c s1 (\<lambda>(r, c', s2).
               case r of
                 Inl e \<Rightarrow> Return (Inl e) c' s2
               | Inr response \<Rightarrow>
                   (case run_post_hooks (dget_default post operation []) view s2 of
                      (Inl e, s3) \<Rightarrow> Return (Inl e) c' s3
                    | (Inr _, s3) \<Rightarrow> Return (Inr response) c' s3)))\<rparr>"

end
