(* ===== verification/Identity.thy ===== *)
theory Identity
  imports Py_Values
begin

text \<open>
  The identity layer (core/identity/): the credential registry, the bytes a client signs, the
  audit log and the verifier with its replay cache, and the deprecated dict-based middleware.
  Ed25519 is code outside the repository: \<open>vs key payload signature\<close> is the answer of
  \<open>verify_signature\<close>. The clock values a call reads are its arguments.
\<close>

section \<open>The credential registry (registry.py)\<close>

record credential =
  cr_agent_id :: agent
  cr_public_key :: bytes
  cr_registered_at :: time
  cr_revoked_at :: "time option"

type_synonym registry = "(agent \<times> credential) list"

definition is_revoked :: "credential \<Rightarrow> bool" where
  "is_revoked c \<longleftrightarrow> cr_revoked_at c \<noteq> None"

definition cred_register :: "time \<Rightarrow> agent \<Rightarrow> bytes \<Rightarrow> registry \<Rightarrow> credential result \<times> registry" where
  "cred_register now a key regs =
     (if a = [] then (Inl (ValueError ''agent_id must be non-empty''), regs)
      else if length key \<noteq> 32 then (Inl (ValueError ''public_key must be 32 bytes''), regs)
      else let r = \<lparr>cr_agent_id = a, cr_public_key = key, cr_registered_at = now, cr_revoked_at = None\<rparr>
           in (Inr r, dset regs a r))"

definition cred_revoke :: "time \<Rightarrow> agent \<Rightarrow> registry \<Rightarrow> unit result \<times> registry" where
  "cred_revoke now a regs =
     (case dget regs a of
        None \<Rightarrow> (Inl (KeyError a), regs)
      | Some existing \<Rightarrow>
          (Inr (), dset regs a \<lparr>cr_agent_id = cr_agent_id existing,
             cr_public_key = cr_public_key existing,
             cr_registered_at = cr_registered_at existing, cr_revoked_at = Some now\<rparr>))"

definition cred_lookup :: "agent \<Rightarrow> registry \<Rightarrow> credential option" where
  "cred_lookup a regs = dget regs a"

definition all_records :: "registry \<Rightarrow> credential list" where
  "all_records regs = map snd regs"

section \<open>The signed payload (envelope.py)\<close>

text \<open>
  \<open>f"{x:.6f}"\<close>: the value rounded to six decimals, ties to even; a negative value keeps its
  sign when it rounds to zero.
\<close>

definition round_half_even :: "real \<Rightarrow> int" where
  "round_half_even x =
     (let f = \<lfloor>x\<rfloor>; d = x - of_int f
      in if d < 1 / 2 then f else if d > 1 / 2 then f + 1 else if even f then f else f + 1)"

definition pad_left :: "nat \<Rightarrow> string \<Rightarrow> string" where
  "pad_left n s = replicate (n - length s) (CHR ''0'') @ s"

definition fixed6 :: "real \<Rightarrow> string" where
  "fixed6 x =
     (let m = nat (round_half_even (\<bar>x\<bar> * 1000000))
      in (if x < 0 then ''-'' else []) @ str_nat (m div 1000000) @ ''.'' @
         pad_left 6 (str_nat (m mod 1000000)))"

definition newline :: char where
  "newline = CHR 0x0A"

definition canonical_payload :: "signed_request \<Rightarrow> bytes" where
  "canonical_payload req =
     join [newline] [sr_agent_id req, sr_nonce req, fixed6 (sr_timestamp req), sr_method req,
       sr_body_hash req]"

text \<open>
  \<open>compute_body_hash\<close>: the hash function and the serialiser are the parameters \<open>sha\<close> and
  \<open>dumps\<close>. \<open>sort_keys=True\<close> orders the items of every dict in the value, at any depth.
\<close>

fun sort_keys :: "pyval \<Rightarrow> pyval" where
  "sort_keys (PDict d) = PDict (sort_key fst (map (\<lambda>(k, v). (k, sort_keys v)) d))"
| "sort_keys (PList vs) = PList (map sort_keys vs)"
| "sort_keys v = v"

definition compute_body_hash :: "(pyval \<Rightarrow> string) \<Rightarrow> (string \<Rightarrow> string) \<Rightarrow> pydict \<Rightarrow> string" where
  "compute_body_hash dumps sha body = sha (dumps (sort_keys (PDict body)))"

record verified_identity =
  vi_agent_id :: agent
  vi_verified_at :: time
  vi_connection_id :: "string option"
  vi_origin_server :: "string option"

section \<open>The verifier (verifier.py, audit.py)\<close>

record audit_line =
  au_ts :: time
  au_claimed_agent_id :: "agent option"
  au_reason :: string
  au_operation :: string
  au_connection_id :: "string option"

record verifier =
  vf_registry :: registry
  vf_audit :: "audit_line list"
  vf_replay_window :: time
  vf_seen_nonces :: "(string \<times> time) list"

definition verifier_init :: "time \<Rightarrow> verifier" where
  "verifier_init window =
     \<lparr>vf_registry = [], vf_audit = [], vf_replay_window = window, vf_seen_nonces = []\<rparr>"

definition prune_replay_cache :: "time \<Rightarrow> verifier \<Rightarrow> verifier" where
  "prune_replay_cache now v =
     v\<lparr>vf_seen_nonces := filter (\<lambda>e. \<not> snd e < now - vf_replay_window v) (vf_seen_nonces v)\<rparr>"

definition check_and_insert_nonce :: "string \<Rightarrow> time \<Rightarrow> verifier \<Rightarrow> bool \<times> verifier" where
  "check_and_insert_nonce nonce now v =
     (let v' = prune_replay_cache now v
      in if has_key (vf_seen_nonces v') nonce then (False, v')
         else (True, v'\<lparr>vf_seen_nonces := dset (vf_seen_nonces v') nonce now\<rparr>))"

definition record_failure ::
  "time \<Rightarrow> agent option \<Rightarrow> string \<Rightarrow> string \<Rightarrow> string option \<Rightarrow> verifier \<Rightarrow> verifier"
where
  "record_failure now claimed reason operation conn v =
     v\<lparr>vf_audit := vf_audit v @ [\<lparr>au_ts = now, au_claimed_agent_id = claimed, au_reason = reason,
        au_operation = operation, au_connection_id = conn\<rparr>]\<rparr>"

text \<open>\<open>_fail\<close>: write the audit line, then raise.\<close>

definition vf_fail ::
  "time \<Rightarrow> id_failure \<Rightarrow> string \<Rightarrow> agent option \<Rightarrow> string \<Rightarrow> string option \<Rightarrow> verifier \<Rightarrow>
     'a result \<times> verifier"
where
  "vf_fail now kind reason claimed operation conn v =
     (Inl (IdentityFailure kind reason), record_failure now claimed reason operation conn v)"

text \<open>
  \<open>now\<close> is the verifier's clock, read once on entry, \<open>anow\<close> the audit writer's. The figures
  in the text of the stale-timestamp message are left out.
\<close>

definition vf_verify ::
  "(bytes \<Rightarrow> bytes \<Rightarrow> bytes \<Rightarrow> bool) \<Rightarrow> time \<Rightarrow> time \<Rightarrow> signed_request \<Rightarrow> string \<Rightarrow> string option \<Rightarrow>
     verifier \<Rightarrow> verified_identity result \<times> verifier"
where
  "vf_verify vs now anow req operation conn v =
     (if sr_agent_id req = []
      then vf_fail anow MalformedRequest ''agent_id must be non-empty'' None operation conn v
      else if sr_nonce req = []
      then vf_fail anow MalformedRequest ''nonce must be non-empty'' (Some (sr_agent_id req)) operation conn v
      else if \<bar>now - sr_timestamp req\<bar> > vf_replay_window v
      then vf_fail anow MalformedRequest ''Request timestamp is outside replay window''
             (Some (sr_agent_id req)) operation conn v
      else case cred_lookup (sr_agent_id req) (vf_registry v) of
        None \<Rightarrow> vf_fail anow UnknownAgent ''Identity verification failed''
                  (Some (sr_agent_id req)) operation conn v
      | Some r \<Rightarrow>
          if is_revoked r
          then vf_fail anow RevokedCredential ''Identity verification failed''
                 (Some (sr_agent_id req)) operation conn v
          else if \<not> vs (cr_public_key r) (canonical_payload req) (sr_signature req)
          then vf_fail anow SignatureMismatch ''Identity verification failed''
                 (Some (sr_agent_id req)) operation conn v
          else case check_and_insert_nonce (sr_nonce req) now v of
            (False, v') \<Rightarrow> vf_fail anow ReplayDetected ''Duplicate nonce within replay window''
                             (Some (sr_agent_id req)) operation conn v'
          | (True, v') \<Rightarrow>
              (Inr \<lparr>vi_agent_id = cr_agent_id r, vi_verified_at = now, vi_connection_id = conn,
                    vi_origin_server = None\<rparr>, v'))"

text \<open>\<open>{**send_input, "sender": ..., "origin_server": ...}\<close>.\<close>

definition bind_for_send ::
  "(bytes \<Rightarrow> bytes \<Rightarrow> bytes \<Rightarrow> bool) \<Rightarrow> time \<Rightarrow> time \<Rightarrow> signed_request \<Rightarrow> pydict \<Rightarrow> verifier \<Rightarrow>
     pydict result \<times> verifier"
where
  "bind_for_send vs now anow req send_input v =
     (case vf_verify vs now anow req ''send'' None v of
        (Inl e, v') \<Rightarrow> (Inl e, v')
      | (Inr identity, v') \<Rightarrow>
          (Inr (dset (dset send_input ''sender'' (PStr (vi_agent_id identity)))
                  ''origin_server'' (opt_str (vi_origin_server identity))), v'))"

section \<open>The deprecated middleware (middleware.py)\<close>

definition make_identity_error :: "string \<Rightarrow> pydict" where
  "make_identity_error reason =
     [(''error_code'', PStr ''identity_failure''), (''message'', PStr reason), (''detail'', PNone),
      (''retry_after'', PNone)]"

definition identity_enforced_operations :: "string set" where
  "identity_enforced_operations = {''send'', ''recv'', ''subscribe'', ''list_agents''}"

text \<open>
  \<open>call_next\<close> is the next stage; it acts on the same state. An \<open>IdentityFailure\<close> it raises is
  caught as well.
\<close>

definition identity_middleware ::
  "(bytes \<Rightarrow> bytes \<Rightarrow> bytes \<Rightarrow> bool) \<Rightarrow> (pyval \<Rightarrow> string) \<Rightarrow> time \<Rightarrow> time \<Rightarrow> pydict \<Rightarrow>
     (pydict \<Rightarrow> verifier \<Rightarrow> pydict result \<times> verifier) \<Rightarrow> verifier \<Rightarrow> pydict result \<times> verifier"
where
  "identity_middleware vs repr now anow request call_next v =
     (let operation = py_str repr (dget_default request ''operation'' (PStr []));
          connection_id = dget_default request ''connection_id'' PNone;
          conn_str = (if connection_id \<noteq> PNone then Some (py_str repr connection_id) else None);
          guard = (\<lambda>res. case res of
             (Inl (IdentityFailure kind reason), v') \<Rightarrow> (Inr (make_identity_error reason), v')
           | _ \<Rightarrow> res)
      in if operation \<notin> identity_enforced_operations then call_next request v
         else case dget_default request ''signed_request'' PNone of
           PSigned req \<Rightarrow>
             guard (if operation = ''send''
                    then (case bind_for_send vs now anow req request v of
                            (Inl e, v') \<Rightarrow> (Inl e, v')
                          | (Inr mutated, v') \<Rightarrow> call_next mutated v')
                    else (case vf_verify vs now anow req operation conn_str v of
                            (Inl e, v') \<Rightarrow> (Inl e, v')
                          | (Inr identity, v') \<Rightarrow>
                              call_next (dset request ''agent_id'' (PStr (vi_agent_id identity))) v'))
         | _ \<Rightarrow> (Inr (make_identity_error
                  ''Identity verification required: signed_request missing or invalid''), v))"

end
