(* ===== verification/Store_Port.thy ===== *)
theory Store_Port
  imports Memory_Store Sqlite_Store
begin

text \<open>
  The port as a value: the record of the methods a transport or a middleware calls on
  whatever store is configured (core/ports/backing_store.py, class \<open>BackingStore\<close>), and the
  two adapters as such records. A method takes the clock value it reads.
\<close>

record 'st store_port =
  sp_send :: "time \<Rightarrow> channel \<Rightarrow> agent \<Rightarrow> pydict \<Rightarrow> string option \<Rightarrow> string option \<Rightarrow> 'st \<Rightarrow>
    send_result result \<times> 'st"
  sp_recv :: "agent \<Rightarrow> channel list option \<Rightarrow> int \<Rightarrow> 'st \<Rightarrow> pydict list result \<times> 'st"
  sp_subscribe :: "agent \<Rightarrow> string \<Rightarrow> 'st \<Rightarrow> channel list result \<times> 'st"
  sp_unsubscribe :: "agent \<Rightarrow> string list \<Rightarrow> 'st \<Rightarrow> (string list \<times> int) result \<times> 'st"
  sp_list_channels :: "time \<Rightarrow> time option \<Rightarrow> 'st \<Rightarrow> (channel \<times> int) list result"
  sp_list_agents :: "time \<Rightarrow> string list option \<Rightarrow> string option \<Rightarrow> 'st \<Rightarrow> agent_entry list result"
  sp_ack :: "time \<Rightarrow> agent \<Rightarrow> string \<Rightarrow> string \<Rightarrow> string option \<Rightarrow> 'st \<Rightarrow>
    (string \<times> string \<times> time) result \<times> 'st"
  sp_heartbeat :: "time \<Rightarrow> agent \<Rightarrow> string \<Rightarrow> int option \<Rightarrow> 'st \<Rightarrow>
    (agent \<times> string \<times> time \<times> time) result \<times> 'st"
  sp_replay :: "channel \<Rightarrow> int \<Rightarrow> int option \<Rightarrow> int \<Rightarrow> 'st \<Rightarrow> (pydict list \<times> bool) result"
  sp_group_create :: "time \<Rightarrow> agent \<Rightarrow> string option \<Rightarrow> 'st \<Rightarrow> (string \<times> time) result \<times> 'st"
  sp_group_invite :: "time \<Rightarrow> agent \<Rightarrow> string \<Rightarrow> agent \<Rightarrow> 'st \<Rightarrow> (agent \<times> time) result \<times> 'st"
  sp_group_join :: "time \<Rightarrow> agent \<Rightarrow> string \<Rightarrow> 'st \<Rightarrow> (string \<times> int \<times> time) result \<times> 'st"
  sp_group_leave :: "time \<Rightarrow> agent \<Rightarrow> string \<Rightarrow> 'st \<Rightarrow> (string \<times> time) result \<times> 'st"
  sp_group_list_members :: "agent \<Rightarrow> string \<Rightarrow> 'st \<Rightarrow> (string \<times> group_member list) result"

text \<open>A method of the in-memory adapter never raises on its own account.\<close>

definition ok_call :: "'a \<times> 'st \<Rightarrow> 'a result \<times> 'st" where
  "ok_call r = (Inr (fst r), snd r)"

definition memory_port :: "memory_store store_port" where
  "memory_port =
     \<lparr>sp_send = (\<lambda>now ch sender body corr rt s. ok_call (mem_send now ch sender body corr rt s)),
      sp_recv = (\<lambda>a chans n s. ok_call (mem_recv a chans n s)),
      sp_subscribe = (\<lambda>a p s. ok_call (mem_subscribe a p s)),
      sp_unsubscribe = (\<lambda>a ps s. ok_call (mem_unsubscribe a ps s)),
      sp_list_channels = (\<lambda>now since s. Inr (mem_list_channels now since s)),
      sp_list_agents = (\<lambda>now f ns s. Inr (mem_list_agents now f ns s)),
      sp_ack = (\<lambda>now a mid status reason s. ok_call (mem_ack now a mid status reason s)),
      sp_heartbeat = (\<lambda>now a status ttl s. ok_call (mem_heartbeat now a status ttl s)),
      sp_replay = (\<lambda>ch since til limit s. Inr (mem_replay ch since til limit s)),
      sp_group_create = (\<lambda>now a g s. ok_call (mem_group_create now a g s)),
      sp_group_invite = mem_group_invite,
      sp_group_join = (\<lambda>now a g s. ok_call (mem_group_join now a g s)),
      sp_group_leave = (\<lambda>now a g s. ok_call (mem_group_leave now a g s)),
      sp_group_list_members = (\<lambda>a g s. Inr (mem_group_list_members a g s))\<rparr>"

definition sqlite_port :: "sqlite_store store_port" where
  "sqlite_port =
     \<lparr>sp_send = sq_send, sp_recv = sq_recv, sp_subscribe = sq_subscribe,
      sp_unsubscribe = sq_unsubscribe, sp_list_channels = sq_list_channels,
      sp_list_agents = sq_list_agents,
      sp_ack = (\<lambda>now a mid status reason s. ok_call (sq_ack now a mid status reason s)),
      sp_heartbeat = (\<lambda>now a status ttl s. sq_heartbeat now now a status ttl s),
      sp_replay = sq_replay, sp_group_create = sq_group_create,
      sp_group_invite = sq_group_invite, sp_group_join = sq_group_join,
      sp_group_leave = sq_group_leave,
      sp_group_list_members = (\<lambda>a g s. Inr (sq_group_list_members a g s))\<rparr>"

end
