(* ===== verification/Server_Chain.thy ===== *)
theory Server_Chain
  imports Pipeline Identity Store_Port
begin

text \<open>
  The middlewares of the default chain (core/middleware/plugins/): \<open>auth\<close>, \<open>store_dispatch\<close>
  and the sample \<open>middleware_log\<close>. They share the world of one server: the verifier, the
  store behind its port, and the log file. The clock is read as \<open>wd_now\<close> during a call.
\<close>

section \<open>The world of a server\<close>

record log_line =
  ll_ts :: time
  ll_operation :: string
  ll_connection_id :: string
  ll_agent_id :: "agent option"
  ll_correlation_id :: string
  ll_response_keys :: "string list"

record 'st world =
  wd_now :: time
  wd_verifier :: verifier
  wd_store :: 'st
  wd_log :: "log_line list"

text \<open>Text of values outside the model: \<open>str\<close> of composite values and \<open>float\<close> of a string.\<close>

record py_env =
  pe_repr :: "pyval \<Rightarrow> string"
  pe_float :: "string \<Rightarrow> time result"

section \<open>auth (plugins/auth.py)\<close>

definition resolve_credential :: "call_context \<Rightarrow> signed_request option \<times> call_context" where
  "resolve_credential c =
     (case dget (cx_metadata c) ''_connection_credential'' of
        Some (PSigned r) \<Rightarrow> (Some r, c)
      | _ \<Rightarrow>
          (case dget (cx_input c) ''signed_request'' of
             Some (PSigned r) \<Rightarrow> (Some r, c\<lparr>cx_input := dpop (cx_input c) ''signed_request''\<rparr>)
           | _ \<Rightarrow> (None, c)))"

definition short_circuit_identity :: "exc \<Rightarrow> exc" where
  "short_circuit_identity e =
     (case e of IdentityFailure kind reason \<Rightarrow> ShortCircuit (make_identity_error reason) | _ \<Rightarrow> e)"

text \<open>\<open>d.update(e)\<close>.\<close>

definition dupdate :: "pydict \<Rightarrow> pydict \<Rightarrow> pydict" where
  "dupdate d e = foldl (\<lambda>acc (k, v). dset acc k v) d e"

definition auth_call ::
  "py_env \<Rightarrow> (bytes \<Rightarrow> bytes \<Rightarrow> bytes \<Rightarrow> bool) \<Rightarrow> call_context \<Rightarrow> 'st world \<Rightarrow> 'st world act"
where
  "auth_call env vs ctx w =
     (let operation = cx_operation ctx
      in if operation \<notin> identity_enforced_operations
         then CallNext ctx w (\<lambda>(r, c, w'). Return r c w')
         else case resolve_credential ctx of
           (None, ctx1) \<Rightarrow>
             Return (Inl (ShortCircuit (make_identity_error
               ''Identity verification required: credential missing. Set SOX_CREDENTIAL in MCP launch parameters.'')))
               ctx1 w
         | (Some req, ctx1) \<Rightarrow>
             if operation = ''send''
             then (case bind_for_send vs (wd_now w) (wd_now w) req (cx_input ctx1) (wd_verifier w) of
                     (Inl e, v) \<Rightarrow> Return (Inl (short_circuit_identity e)) ctx1 (w\<lparr>wd_verifier := v\<rparr>)
                   | (Inr updated, v) \<Rightarrow>
                       (let sender = py_str (pe_repr env) (dget_default updated ''sender'' (PStr []));
                            ctx2 = ctx1\<lparr>cx_input := dupdate (cx_input ctx1) updated\<rparr>
                        in case set_agent_id sender ctx2 of
                             (Inl e, ctx3) \<Rightarrow> Return (Inl e) ctx3 (w\<lparr>wd_verifier := v\<rparr>)
                           | (Inr _, ctx3) \<Rightarrow>
                               CallNext ctx3 (w\<lparr>wd_verifier := v\<rparr>) (\<lambda>(r, c, w'). Return r c w')))
             else (case vf_verify vs (wd_now w) (wd_now w) req operation (Some (cx_connection_id ctx1))
                          (wd_verifier w) of
                     (Inl e, v) \<Rightarrow> Return (Inl (short_circuit_identity e)) ctx1 (w\<lparr>wd_verifier := v\<rparr>)
                   | (Inr identity, v) \<Rightarrow>
                       (case set_agent_id (vi_agent_id identity) ctx1 of
                          (Inl e, ctx3) \<Rightarrow> Return (Inl e) ctx3 (w\<lparr>wd_verifier := v\<rparr>)
                        | (Inr _, ctx3) \<Rightarrow>
                            CallNext ctx3 (w\<lparr>wd_verifier := v\<rparr>) (\<lambda>(r, c, w'). Return r c w'))))"

definition auth_middleware ::
  "py_env \<Rightarrow> (bytes \<Rightarrow> bytes \<Rightarrow> bytes \<Rightarrow> bool) \<Rightarrow> 'st world middleware"
where
  "auth_middleware env vs =
     \<lparr>mw_name = ''auth'', mw_kind = Some ''auth'',
      mw_must_run_before = [''rate_limit'', ''schema_validator'', ''idempotency'', ''store_dispatch''],
      mw_must_run_after = [''namespace_resolver''], mw_call = auth_call env vs\<rparr>"

section \<open>store_dispatch (plugins/store_dispatch.py)\<close>

text \<open>\<open>_resolve_agent_id\<close>: the input first, then the verified identity, then the transport's hint.\<close>

definition resolve_agent_id :: "py_env \<Rightarrow> pydict \<Rightarrow> call_context \<Rightarrow> agent" where
  "resolve_agent_id env inp ctx =
     (case dget inp ''agent_id'' of
        Some v \<Rightarrow> py_str (pe_repr env) v
      | None \<Rightarrow>
          (case cx_agent_id ctx of
             Some a \<Rightarrow> if a \<noteq> [] then a
               else (let hint = dget_default (cx_metadata ctx) ''_agent_id'' PNone
                     in if truthy hint then py_str (pe_repr env) hint else [])
           | None \<Rightarrow> (let hint = dget_default (cx_metadata ctx) ''_agent_id'' PNone
                     in if truthy hint then py_str (pe_repr env) hint else [])))"

definition get_str :: "py_env \<Rightarrow> pydict \<Rightarrow> string \<Rightarrow> string \<Rightarrow> string" where
  "get_str env inp k dflt = py_str (pe_repr env) (dget_default inp k (PStr dflt))"

text \<open>\<open>str(x) if x is not None else None\<close> on \<open>inp.get(k)\<close>.\<close>

definition get_opt_str :: "py_env \<Rightarrow> pydict \<Rightarrow> string \<Rightarrow> string option" where
  "get_opt_str env inp k =
     (let v = dget_default inp k PNone in if v \<noteq> PNone then Some (py_str (pe_repr env) v) else None)"

definition get_str_list :: "py_env \<Rightarrow> pyval \<Rightarrow> string list option" where
  "get_str_list env v = (case v of PList vs \<Rightarrow> Some (map (py_str (pe_repr env)) vs) | _ \<Rightarrow> None)"

text \<open>\<open>int(x) if isinstance(x, (int, float, str)) else dflt\<close>, and the same without \<open>str\<close>.\<close>

definition int_or :: "int \<Rightarrow> pyval \<Rightarrow> int result" where
  "int_or dflt v = (if is_num v \<or> is_str v then py_int v else Inr dflt)"

definition num_or :: "int \<Rightarrow> pyval \<Rightarrow> int result" where
  "num_or dflt v = (if is_num v then py_int v else Inr dflt)"

definition opt_num :: "pyval \<Rightarrow> int option result" where
  "opt_num v = (if is_num v then bind_res (py_int v) (\<lambda>i. Inr (Some i)) else Inr None)"

fun py_float :: "py_env \<Rightarrow> pyval \<Rightarrow> time option result" where
  "py_float env (PInt i) = Inr (Some (of_int i))"
| "py_float env (PBool b) = Inr (Some (if b then 1 else 0))"
| "py_float env (PFloat x) = Inr (Some x)"
| "py_float env (PStr s) = bind_res (pe_float env s) (\<lambda>x. Inr (Some x))"
| "py_float env v = Inr None"

text \<open>\<open>a or b or c or ""\<close>, as a string.\<close>

definition first_truthy :: "py_env \<Rightarrow> pyval list \<Rightarrow> string" where
  "first_truthy env vs =
     (case filter truthy vs of v # _ \<Rightarrow> py_str (pe_repr env) v | [] \<Rightarrow> [])"

definition caller_id :: "py_env \<Rightarrow> string \<Rightarrow> call_context \<Rightarrow> agent" where
  "caller_id env k ctx = first_truthy env [dget_default (cx_input ctx) k PNone,
     opt_str (cx_agent_id ctx), dget_default (cx_metadata ctx) ''_agent_id'' PNone]"

text \<open>\<open>if "seq" not in msg: msg["seq"] = i + 1\<close>.\<close>

definition number_messages :: "pydict list \<Rightarrow> pydict list" where
  "number_messages ms = map (\<lambda>(i, m). if has_key m ''seq'' then m else dset m ''seq'' (PInt (int i + 1)))
     (enumerate 0 ms)"

definition entry_of_agent :: "agent_entry \<Rightarrow> pyval" where
  "entry_of_agent e = PDict [(''agent_id'', PStr (ae_agent_id e)),
     (''presence_state'', PStr (ae_presence_state e)),
     (''last_heartbeat_at'', PInt (ae_last_heartbeat_at e)), (''namespace'', opt_str (ae_namespace e))]"

definition member_value :: "group_member \<Rightarrow> pyval" where
  "member_value m = PDict [(''agent_id'', PStr (gm_agent_id m)), (''status'', PStr (gm_status m)),
     (''joined_at'', PFloat (gm_joined_at m))]"

definition msgs_value :: "pydict list \<Rightarrow> pyval" where
  "msgs_value ms = PList (map PDict ms)"

text \<open>A store call, then the response built from what it returned.\<close>

definition respond :: "('a \<Rightarrow> pydict) \<Rightarrow> 'a result \<times> 'st \<Rightarrow> pydict result \<times> 'st" where
  "respond f r = (case fst r of Inl e \<Rightarrow> Inl e | Inr x \<Rightarrow> Inr (f x), snd r)"

text \<open>An argument that may raise, evaluated before the store is called.\<close>

definition with_arg :: "'a result \<Rightarrow> 'st \<Rightarrow> ('a \<Rightarrow> pydict result \<times> 'st) \<Rightarrow> pydict result \<times> 'st" where
  "with_arg r s f = (case r of Inl e \<Rightarrow> (Inl e, s) | Inr x \<Rightarrow> f x)"

definition recv_response :: "time \<Rightarrow> pydict list \<Rightarrow> pydict" where
  "recv_response now ms =
     [(''drained_at'', PFloat now), (''messages'', msgs_value (number_messages ms))]"

definition op_send :: "py_env \<Rightarrow> 'st store_port \<Rightarrow> time \<Rightarrow> call_context \<Rightarrow> 'st \<Rightarrow> pydict result \<times> 'st" where
  "op_send env port now ctx s =
     (let inp = cx_input ctx;
          ch = get_str env inp ''channel'' [];
          sender = py_str (pe_repr env) (dget_default inp ''sender'' (PStr (case cx_agent_id ctx of Some a \<Rightarrow> a | None \<Rightarrow> [])));
          body = (case dget_default inp ''body'' (PDict []) of PDict d \<Rightarrow> d | _ \<Rightarrow> [])
      in respond (\<lambda>(message_id, sent_at, seq, bp).
           [(''message_id'', PStr message_id), (''channel'', PStr ch), (''sent_at'', PFloat sent_at),
            (''seq'', PInt seq), (''backpressure'', PDict [(''queue_depth'', PInt (bp_queue_depth bp)),
               (''threshold'', PInt (bp_threshold bp)), (''state'', PStr (bp_state bp))])])
           (sp_send port now ch sender body (get_opt_str env inp ''correlation_id'')
              (get_opt_str env inp ''reply_to'') s))"

definition op_recv :: "py_env \<Rightarrow> 'st store_port \<Rightarrow> time \<Rightarrow> call_context \<Rightarrow> 'st \<Rightarrow> pydict result \<times> 'st" where
  "op_recv env port now ctx s =
     (let inp = cx_input ctx; a = resolve_agent_id env inp ctx;
          chans = get_str_list env (dget_default inp ''channels'' PNone)
      in with_arg (int_or 50 (dget_default inp ''max_messages'' (PInt 50))) s (\<lambda>n.
           respond (recv_response now) (sp_recv port a chans n s)))"

definition op_replay :: "py_env \<Rightarrow> 'st store_port \<Rightarrow> call_context \<Rightarrow> 'st \<Rightarrow> pydict result \<times> 'st" where
  "op_replay env port ctx s =
     (let inp = cx_input ctx; ch = get_str env inp ''channel'' []
      in with_arg (num_or 0 (dget_default inp ''since'' (PInt 0))) s (\<lambda>since.
         with_arg (opt_num (dget_default inp ''until'' PNone)) s (\<lambda>til.
         with_arg (num_or 100 (dget_default inp ''limit'' (PInt 100))) s (\<lambda>limit.
           respond (\<lambda>(ms, more). [(''messages'', msgs_value ms), (''has_more'', PBool more)])
             (sp_replay port ch since til limit s, s)))))"

definition store_call ::
  "py_env \<Rightarrow> 'st store_port \<Rightarrow> time \<Rightarrow> call_context \<Rightarrow> 'st \<Rightarrow> pydict result \<times> 'st"
where
  "store_call env port now ctx s =
     (let op = cx_operation ctx; inp = cx_input ctx; a = resolve_agent_id env inp ctx
      in if op = ''send'' then op_send env port now ctx s
         else if op = ''recv'' then op_recv env port now ctx s
         else if op = ''subscribe'' then
           respond (\<lambda>chs. [(''subscribed'', PBool True), (''matched_channels'', PList (map PStr chs))])
             (sp_subscribe port a (get_str env inp ''pattern'' []) s)
         else if op = ''unsubscribe'' then
           (let pats = (case get_str_list env (dget_default inp ''channels''
                                (dget_default inp ''patterns'' (PList []))) of Some ps \<Rightarrow> ps | None \<Rightarrow> [])
            in respond (\<lambda>(removed, cleared).
                 [(''removed'', PList (map PStr removed)), (''pending_cleared'', PInt cleared)])
                 (sp_unsubscribe port a pats s))
         else if op = ''list_channels'' then
           with_arg (py_float env (dget_default inp ''since'' PNone)) s (\<lambda>since.
             respond (\<lambda>chs. [(''channels'', PList (map (\<lambda>(n, k).
                 PDict [(''name'', PStr n), (''subscriber_count'', PInt k)]) chs))])
               (sp_list_channels port now since s, s))
         else if op = ''list_agents'' then
           respond (\<lambda>es. [(''agents'', PList (map entry_of_agent es))])
             (sp_list_agents port now (get_str_list env (dget_default inp ''status_filter'' PNone))
                (get_opt_str env inp ''namespace'') s, s)
         else if op = ''channels_ack'' then
           respond (\<lambda>(mid, st, at_t). [(''message_id'', PStr mid), (''status'', PStr st), (''acked_at'', PFloat at_t)])
             (sp_ack port now a (get_str env inp ''message_id'' []) (get_str env inp ''status'' ''ack'')
                (get_opt_str env inp ''reason'') s)
         else if op = ''channels_heartbeat'' then
           with_arg (opt_num (dget_default inp ''ttl'' PNone)) s (\<lambda>ttl.
             respond (\<lambda>(b, st, t0, t1). [(''agent_id'', PStr b), (''status'', PStr st),
                 (''recorded_at'', PFloat t0), (''expires_at'', PFloat t1)])
               (sp_heartbeat port now a (get_str env inp ''status'' ''active'') ttl s))
         else if op = ''channels_collect'' then op_recv env port now ctx s
         else if op = ''replay'' then op_replay env port ctx s
         else if op = ''group_create'' then
           respond (\<lambda>(g, t). [(''group_id'', PStr g), (''created_at'', PFloat t)])
             (sp_group_create port now (caller_id env ''creator_id'' ctx) (get_opt_str env inp ''group_id'') s)
         else if op = ''group_invite'' then
           respond (\<lambda>(b, t). [(''invited'', PBool True), (''agent_id'', PStr b), (''invited_at'', PFloat t)])
             (sp_group_invite port now (caller_id env ''inviter_id'' ctx) (get_str env inp ''group_id'' [])
                (py_str (pe_repr env) (dget_default inp ''agent_id''
                   (dget_default inp ''invitee_id'' (PStr [])))) s)
         else if op = ''group_join'' then
           respond (\<lambda>(g, n, t). [(''joined'', PBool True), (''group_id'', PStr g), (''member_count'', PInt n),
               (''joined_at'', PFloat t)])
             (sp_group_join port now a (get_str env inp ''group_id'' []) s)
         else if op = ''group_leave'' then
           respond (\<lambda>(g, t). [(''left'', PBool True), (''group_id'', PStr g), (''left_at'', PFloat t)])
             (sp_group_leave port now a (get_str env inp ''group_id'' []) s)
         else if op = ''group_list_members'' then
           respond (\<lambda>(g, ms). [(''group_id'', PStr g), (''members'', PList (map member_value ms))])
             (sp_group_list_members port a (get_str env inp ''group_id'' []) s, s)
         else (Inr (make_internal_error (''Unsupported operation: '' @ pe_repr env (PStr op))), s))"

definition store_dispatch_call ::
  "py_env \<Rightarrow> 'st store_port \<Rightarrow> call_context \<Rightarrow> 'st world \<Rightarrow> pydict result \<times> call_context \<times> 'st world"
where
  "store_dispatch_call env port ctx w =
     (case store_call env port (wd_now w) ctx (wd_store w) of (r, s) \<Rightarrow> (r, ctx, w\<lparr>wd_store := s\<rparr>))"

definition store_dispatch :: "py_env \<Rightarrow> 'st store_port \<Rightarrow> 'st world middleware" where
  "store_dispatch env port =
     \<lparr>mw_name = ''store_dispatch'', mw_kind = Some ''store'', mw_must_run_before = [],
      mw_must_run_after = [],
      mw_call = (\<lambda>c w. case store_dispatch_call env port c w of (r, c', w') \<Rightarrow> Return r c' w')\<rparr>"

section \<open>middleware_log (plugins/logging.py)\<close>

definition write_log :: "call_context \<Rightarrow> pydict \<Rightarrow> 'st world \<Rightarrow> 'st world" where
  "write_log c response w = w\<lparr>wd_log := wd_log w @
     [\<lparr>ll_ts = wd_now w, ll_operation = cx_operation c, ll_connection_id = cx_connection_id c,
       ll_agent_id = cx_agent_id c, ll_correlation_id = cx_correlation_id c,
       ll_response_keys = sort (map fst response)\<rparr>]\<rparr>"

definition logging_middleware :: "'st world middleware" where
  "logging_middleware =
     \<lparr>mw_name = ''middleware_log'', mw_kind = Some ''hook'', mw_must_run_before = [],
      mw_must_run_after = [''store_dispatch''],
      mw_call = (\<lambda>c w. CallNext c w (\<lambda>(r, c', w').
        case r of Inl e \<Rightarrow> Return (Inl e) c' w' | Inr response \<Rightarrow> Return r c' (write_log c' response w')))\<rparr>"

end
