(* ===== verification/Chain_Registry.thy ===== *)
theory Chain_Registry
  imports Chain_Order Plugin_Loader Server_Chain
begin

text \<open>
  The middleware registry (core/middleware/registry.py, class \<open>MiddlewareRegistry\<close>) and the
  assembly of the default chain (core/middleware/default_chain.py). A factory is the
  middleware it returns. Entry points and what their manifests say come from outside: a
  discovered plugin is a name, the manifest dict (or the error of reading it) and a factory.
\<close>

section \<open>The registry\<close>

record 's registry_state =
  rg_factories :: "(string \<times> 's middleware) list"
  rg_loaded_manifests :: "(string \<times> manifest) list"
  rg_resolved_order :: "string list option"

definition registry_init :: "'s registry_state" where
  "registry_init = \<lparr>rg_factories = [], rg_loaded_manifests = [], rg_resolved_order = None\<rparr>"

definition rg_register ::
  "string \<Rightarrow> 's middleware \<Rightarrow> 's registry_state \<Rightarrow> unit result \<times> 's registry_state"
where
  "rg_register name factory g =
     (if has_key (rg_factories g) name then (Inl (ValueError ''already registered''), g)
      else (Inr (), g\<lparr>rg_factories := dset (rg_factories g) name factory\<rparr>))"

definition rg_get :: "string \<Rightarrow> 's registry_state \<Rightarrow> 's middleware result" where
  "rg_get name g = (case dget (rg_factories g) name of Some m \<Rightarrow> Inr m | None \<Rightarrow> Inl (KeyError name))"

definition mw_constraints :: "(string \<times> 's middleware) list \<Rightarrow> constraints" where
  "mw_constraints instances n =
     (case dget instances n of
        Some m \<Rightarrow> (mw_must_run_before m, mw_must_run_after m) | None \<Rightarrow> ([], []))"

text \<open>\<open>assemble\<close>: the registered names of \<open>order\<close>, instantiated and sorted.\<close>

definition assemble :: "string list \<Rightarrow> 's registry_state \<Rightarrow> 's middleware list result" where
  "assemble order g =
     (let present = filter (has_key (rg_factories g)) order;
          instances = rg_factories g
      in bind_res (topological_sort present (mw_constraints instances)) (\<lambda>sorted_names.
           Inr (map (\<lambda>n. the (dget instances n)) sorted_names)))"

definition resolved_order :: "'s registry_state \<Rightarrow> string list" where
  "resolved_order g = (case rg_resolved_order g of Some o_r \<Rightarrow> o_r | None \<Rightarrow> [])"

section \<open>Loading plugins\<close>

record 's plugin =
  pg_name :: string
  pg_manifest :: "pydict result"
  pg_factory :: "'s middleware"

text \<open>Step 3: read, validate and check each entry point, stopping at the first error.\<close>

definition check_plugin :: "'r loader_env \<Rightarrow> string \<Rightarrow> 's plugin \<Rightarrow> manifest result" where
  "check_plugin env host p =
     bind_res (pg_manifest p) (\<lambda>raw.
     bind_res (validate_manifest env raw) (\<lambda>m.
     bind_res (check_protocol_version env m host) (\<lambda>_.
     bind_res (assert_capability_orthogonality m) (\<lambda>_. Inr m))))"

fun validate_all ::
  "'r loader_env \<Rightarrow> string \<Rightarrow> ('s plugin \<Rightarrow> bool) \<Rightarrow> 's plugin list \<Rightarrow>
     (string \<times> manifest) list \<Rightarrow> (string \<times> 's plugin) list \<Rightarrow>
     ((string \<times> manifest) list \<times> (string \<times> 's plugin) list) result"
where
  "validate_all env host skip [] ms eps = Inr (ms, eps)"
| "validate_all env host skip (p # ps) ms eps =
     (if skip p then validate_all env host skip ps ms eps
      else case check_plugin env host p of
             Inl e \<Rightarrow> Inl e
           | Inr m \<Rightarrow> validate_all env host skip ps (dset ms (mf_id m) m) (dset eps (mf_id m) p))"

definition manifest_constraints :: "(string \<times> manifest) list \<Rightarrow> constraints" where
  "manifest_constraints ms n =
     (case dget ms n of Some m \<Rightarrow> (mf_must_run_before m, mf_must_run_after m) | None \<Rightarrow> ([], []))"

text \<open>Step 6: the capability keys and ids the loaded plugins provide.\<close>

definition provided_caps :: "(string \<times> manifest) list \<Rightarrow> string set" where
  "provided_caps ms = (\<Union>m \<in> snd ` set ms. insert (mf_id m)
     (set (concat (map (map fst) (mf_capabilities m))) - {''observe_only'', ''may_short_circuit''}))"

definition unmet_requirement :: "(string \<times> manifest) list \<Rightarrow> string list \<Rightarrow> (string \<times> string) option" where
  "unmet_requirement ms ids =
     find (\<lambda>(p, req). req \<notin> provided_caps ms)
       (concat (map (\<lambda>p. case dget ms p of Some m \<Rightarrow> map (Pair p) (mf_requires m) | None \<Rightarrow> []) ids))"

text \<open>Step 7: a name that is already registered is skipped.\<close>

definition register_loaded ::
  "(string \<times> 's plugin) list \<Rightarrow> string list \<Rightarrow> 's registry_state \<Rightarrow> 's registry_state"
where
  "register_loaded eps ids g = foldl (\<lambda>g' p. case dget eps p of
       Some pl \<Rightarrow> snd (rg_register p (pg_factory pl) g') | None \<Rightarrow> g') g ids"

definition load_plugins ::
  "'r loader_env \<Rightarrow> 's plugin list \<Rightarrow> string list option \<Rightarrow> string \<Rightarrow> string \<Rightarrow> bool \<Rightarrow>
     's registry_state \<Rightarrow> unit result \<times> 's registry_state"
where
  "load_plugins env discovered allowlist sox_env host no_discovery g =
     (if no_discovery then (Inr (), g\<lparr>rg_resolved_order := Some []\<rparr>)
      else let eps = map snd (foldl (\<lambda>d p. dset d (pg_name p) p) [] discovered);
               is_production = (sox_env = ''production'')
      in if is_production \<and> (allowlist = None \<or> allowlist = Some [])
         then (Inl (PluginNotAllowed ''*''), g)
         else case validate_all env host
                (\<lambda>p. is_production \<and> (case allowlist of Some al \<Rightarrow> pg_name p \<notin> set al | None \<Rightarrow> False))
                eps [] [] of
           Inl e \<Rightarrow> (Inl e, g)
         | Inr (manifests, ep_map) \<Rightarrow>
             (case (case allowlist of None \<Rightarrow> None
                    | Some al \<Rightarrow> find (\<lambda>w. w \<noteq> [] \<and> \<not> has_key manifests w) al) of
                Some w \<Rightarrow> (Inl (PluginNotFound w), g)
              | None \<Rightarrow>
                  (let to_load = filter (\<lambda>(p, m). case allowlist of None \<Rightarrow> True
                         | Some al \<Rightarrow> p \<in> set al \<or> \<not> is_production) manifests
                   in case toposort_plugins (map fst to_load) (manifest_constraints to_load) of
                        Inl e \<Rightarrow> (Inl e, g)
                      | Inr sorted_ids \<Rightarrow>
                          (case unmet_requirement to_load sorted_ids of
                             Some (p, req) \<Rightarrow> (Inl (PluginRequirementUnmet p req), g)
                           | None \<Rightarrow>
                               (Inr (), (register_loaded ep_map sorted_ids g)
                                  \<lparr>rg_loaded_manifests := to_load,
                                   rg_resolved_order := Some sorted_ids\<rparr>)))))"

text \<open>\<open>load_entry_points\<close>: an entry point that fails to load or register is skipped.\<close>

definition load_entry_points ::
  "(string \<times> 's middleware option) list \<Rightarrow> 's registry_state \<Rightarrow> 's registry_state"
where
  "load_entry_points eps g = foldl (\<lambda>g' (n, loaded). case loaded of
       None \<Rightarrow> g' | Some factory \<Rightarrow> snd (rg_register n factory g')) g eps"

section \<open>The default chain\<close>

definition default_order :: "string list" where
  "default_order = [''namespace_resolver'', ''auth'', ''rate_limit'', ''schema_validator'',
     ''idempotency'', ''store_dispatch'', ''audit_log'']"

definition build_default_pipeline ::
  "py_env \<Rightarrow> (bytes \<Rightarrow> bytes \<Rightarrow> bytes \<Rightarrow> bool) \<Rightarrow> 'st store_port \<Rightarrow> 'st world registry_state \<Rightarrow>
     'st world pipeline result \<times> 'st world registry_state"
where
  "build_default_pipeline env vs port g =
     (let g1 = snd (rg_register ''auth'' (auth_middleware env vs) g);
          g2 = snd (rg_register ''store_dispatch'' (store_dispatch env port) g1)
      in (bind_res (assemble default_order g2) (\<lambda>mws.
            Inr \<lparr>pl_middlewares = mws, pl_terminal = store_dispatch_call env port\<rparr>), g2))"

text \<open>\<open>extend_pipeline_with_registry\<close>: where one plugin is inserted.\<close>

fun first_index :: "('a \<Rightarrow> bool) \<Rightarrow> 'a list \<Rightarrow> nat option" where
  "first_index P [] = None"
| "first_index P (x # xs) = (if P x then Some 0 else map_option Suc (first_index P xs))"

definition latest_ok :: "'s middleware \<Rightarrow> 's middleware list \<Rightarrow> nat option" where
  "latest_ok m chain = first_index (\<lambda>x. mw_name x \<in> set (mw_must_run_before m)) chain"

definition earliest_ok :: "'s middleware \<Rightarrow> 's middleware list \<Rightarrow> nat" where
  "earliest_ok m chain = foldl (\<lambda>e (i, x).
     let e1 = (if mw_name x \<in> set (mw_must_run_after m) then i + 1 else e)
     in if mw_name m \<in> set (mw_must_run_before x) then max e1 (i + 1) else e1) 0 (enumerate 0 chain)"

definition insert_plugin :: "'s middleware \<Rightarrow> 's middleware list \<Rightarrow> 's middleware list" where
  "insert_plugin m chain =
     (case latest_ok m chain of
        Some latest \<Rightarrow> (let at_i = min (earliest_ok m chain) latest in take at_i chain @ m # drop at_i chain)
      | None \<Rightarrow> chain @ [m])"

fun insert_plugins ::
  "string list \<Rightarrow> 's registry_state \<Rightarrow> 's middleware list \<Rightarrow> 's middleware list result"
where
  "insert_plugins [] g chain = Inr chain"
| "insert_plugins (p # ps) g chain =
     bind_res (rg_get p g) (\<lambda>m. insert_plugins ps g (insert_plugin m chain))"

definition extend_pipeline_with_registry ::
  "'s pipeline \<Rightarrow> 's registry_state \<Rightarrow> 's terminal \<Rightarrow> 's pipeline result"
where
  "extend_pipeline_with_registry base g terminal =
     bind_res (insert_plugins (resolved_order g) g (pl_middlewares base)) (\<lambda>chain.
       Inr \<lparr>pl_middlewares = chain, pl_terminal = terminal\<rparr>)"

end
