(* ===== verification/Pipeline_Proofs.thy ===== *)
theory Pipeline_Proofs
  imports Pipeline
begin

text \<open>
  What a dispatch records: the pipeline writes into the trace while the call runs, in place and
  possibly several times per entry. \<open>chain_runs\<close> is the call without that bookkeeping, with the list of
  the runs of the middlewares and their outcomes; the trace of \<open>dispatch\<close> is read off that list.
\<close>

section \<open>The runs of a call\<close>

text \<open>An outcome is the index of a middleware and what it returned or raised, in the order of the ends.\<close>

type_synonym outcome = "nat \<times> pydict result"

primrec act_runs ::
  "(call_context \<Rightarrow> 's \<Rightarrow> pydict result \<times> call_context \<times> 's \<times> outcome list) \<Rightarrow> 's act \<Rightarrow>
     pydict result \<times> call_context \<times> 's \<times> outcome list"
where
  "act_runs nxt (Return r c s) = (r, c, s, [])"
| "act_runs nxt (CallNext c s k) =
     (case nxt c s of (r, c', s', os) \<Rightarrow>
        (case act_runs nxt (k (r, c', s')) of (r2, c2, s2, os2) \<Rightarrow> (r2, c2, s2, os @ os2)))"

primrec chain_runs ::
  "'s middleware list \<Rightarrow> nat \<Rightarrow> 's terminal \<Rightarrow> call_context \<Rightarrow> 's \<Rightarrow>
     pydict result \<times> call_context \<times> 's \<times> outcome list"
where
  "chain_runs [] = (\<lambda>i terminal c s. case terminal c s of (r, c', s') \<Rightarrow> (r, c', s', []))"
| "chain_runs (m # ms) = (\<lambda>i terminal c s.
     case act_runs (chain_runs ms (Suc i) terminal) (mw_call m c s) of
       (r, c', s', os) \<Rightarrow> (r, c', s', os @ [(i, r)]))"

definition outcomes_of :: "nat \<Rightarrow> outcome list \<Rightarrow> pydict result list" where
  "outcomes_of i os = map snd (filter (\<lambda>x. fst x = i) os)"

definition outcome_verdict :: "pydict result \<Rightarrow> verdict" where
  "outcome_verdict r = (case r of
     Inr d \<Rightarrow> if has_key d ''error_code'' then Rejected else Passed
   | Inl (ShortCircuit d) \<Rightarrow> Rejected
   | Inl _ \<Rightarrow> Errored)"

text \<open>The error code of an outcome; one that has none leaves the code of an earlier run in the entry.\<close>

definition outcome_code :: "pydict result \<Rightarrow> pyval list" where
  "outcome_code r = (case r of
     Inr d \<Rightarrow> (case dget d ''error_code'' of Some v \<Rightarrow> [v] | None \<Rightarrow> [])
   | Inl (ShortCircuit d) \<Rightarrow> [dget_default d ''error_code'' PNone]
   | Inl _ \<Rightarrow> [])"

section \<open>The trace is the record of the runs\<close>

definition record_runs :: "outcome list \<Rightarrow> trace \<Rightarrow> trace" where
  "record_runs os t = fold (\<lambda>(i, r) t. t[i := close_entry r (t ! i)]) os t"

lemma record_runs_simps [simp]:
  "record_runs [] t = t" "record_runs (os @ os') t = record_runs os' (record_runs os t)"
  "record_runs [(i, r)] t = t[i := close_entry r (t ! i)]"
  by (simp_all add: record_runs_def)

lemma run_act_runs:
  assumes "\<And>c s t. nxt c s t = (case nxt' c s of (r, c', s', os) \<Rightarrow> (r, c', s', record_runs os t))"
  shows "run_act nxt a t = (case act_runs nxt' a of (r, c', s', os) \<Rightarrow> (r, c', s', record_runs os t))"
  by (induction a arbitrary: t) (simp_all add: assms split: prod.splits)

lemma call_chain_runs:
  "call_chain ms i term c s t =
     (case chain_runs ms i term c s of (r, c', s', os) \<Rightarrow> (r, c', s', record_runs os t))"
proof (induction ms arbitrary: i c s t)
  case (Cons m ms)
  show ?case
    by (simp add: run_act_runs [OF Cons.IH] split: prod.splits)
qed (simp split: prod.splits)

lemma length_record_runs [simp]: "length (record_runs os t) = length t"
  by (induction os arbitrary: t) (auto simp: record_runs_def)

lemma nth_record_runs:
  assumes "j < length t" shows "record_runs os t ! j = fold close_entry (outcomes_of j os) (t ! j)"
  using assms
proof (induction os arbitrary: t)
  case (Cons x os)
  obtain i r where x: "x = (i, r)" by (cases x)
  have "record_runs (x # os) t = record_runs os (t[i := close_entry r (t ! i)])"
    by (simp add: record_runs_def x)
  then show ?case
    using Cons by (simp add: x outcomes_of_def nth_list_update)
qed (simp add: outcomes_of_def)

lemma close_entry_fields [simp]:
  "te_plugin_id (close_entry r e) = te_plugin_id e" "te_kind (close_entry r e) = te_kind e"
  "te_correlation_id (close_entry r e) = te_correlation_id e"
  "te_verdict (close_entry r e) = outcome_verdict r"
  "te_error_code (close_entry r e) = last (te_error_code e # outcome_code r)"
  by (auto simp: close_entry_def outcome_verdict_def outcome_code_def has_key_map_of
      split: sum.splits option.splits exc.splits)

lemma fold_close_entry:
  "te_plugin_id (fold close_entry rs e) = te_plugin_id e" "te_kind (fold close_entry rs e) = te_kind e"
  "te_correlation_id (fold close_entry rs e) = te_correlation_id e"
  "te_verdict (fold close_entry rs e) = last (te_verdict e # map outcome_verdict rs)"
  "te_error_code (fold close_entry rs e) = last (te_error_code e # concat (map outcome_code rs))"
  by (induction rs arbitrary: e) auto

section \<open>Who runs\<close>

lemma act_runs_indices:
  assumes "\<And>c s r c' s' os. nxt c s = (r, c', s', os) \<Longrightarrow> \<exists>k \<le> n. fst ` set os = {i..<i + k}"
    and "act_runs nxt a = (r, c', s', os)"
  shows "\<exists>k \<le> n. fst ` set os = {i..<i + k}"
  using assms(2)
proof (induction a arbitrary: r c' s' os)
  case (CallNext c s k)
  obtain r1 c1 s1 os1 where n: "nxt c s = (r1, c1, s1, os1)" by (metis prod_cases4)
  obtain r2 c2 s2 os2 where a: "act_runs nxt (k (r1, c1, s1)) = (r2, c2, s2, os2)" by (metis prod_cases4)
  obtain k1 where k1: "k1 \<le> n" "fst ` set os1 = {i..<i + k1}" using assms(1) [OF n] by blast
  obtain k2 where k2: "k2 \<le> n" "fst ` set os2 = {i..<i + k2}" using CallNext.IH [OF _ a] by blast
  have "os = os1 @ os2" using CallNext.prems n a by simp
  then have "fst ` set os = {i..<i + max k1 k2}" using k1(2) k2(2) by (auto simp: image_Un)
  then show ?case using k1(1) k2(1) by (intro exI [of _ "max k1 k2"]) simp
qed auto

lemma chain_runs_indices:
  "chain_runs ms i term c s = (r, c', s', os) \<Longrightarrow>
     \<exists>k \<le> length ms. (k = 0) = (ms = []) \<and> fst ` set os = {i..<i + k}"
proof (induction ms arbitrary: i c s r c' s' os)
  case (Cons m ms)
  obtain os1 where os1: "act_runs (chain_runs ms (Suc i) term) (mw_call m c s) = (r, c', s', os1)"
    "os = os1 @ [(i, r)]"
    using Cons.prems by (auto split: prod.splits)
  obtain k where k: "k \<le> length ms" "fst ` set os1 = {Suc i..<Suc i + k}"
    using act_runs_indices [OF _ os1(1), of "length ms" "Suc i"] Cons.IH by blast
  then have "fst ` set os = {i..<i + Suc k}" using os1(2) by auto
  then show ?case using k(1) by (intro exI [of _ "Suc k"]) simp
qed (auto split: prod.splits)

section \<open>Properties\<close>

text \<open>
  C14. The trace of every dispatch, whatever the middlewares do (return, raise, short-circuit,
  call the next stage once, twice or not at all), tells what they did: it has one entry per middleware,
  in chain order, each with the correlation id of the call; its verdict is that of the last time the
  middleware ran (rejected for an answer with an error code and for a short circuit, errored for any
  other exception, passed otherwise) and skipped exactly if it did not run; its error code is the last one
  the middleware gave. Those that ran are a prefix of the chain. The answer is that of the chain, that of
  a short circuit, or an internal error for any other exception, with the trace under its metadata.
\<close>

theorem dispatch_trace:
  "case dispatch p fresh operation inp conn md s of (response, t, s') \<Rightarrow>
   case chain_runs (pl_middlewares p) 0 (pl_terminal p)
      (freeze_correlation_id (new_context fresh operation inp conn md)) s of (r, ctx, s'', os) \<Rightarrow>
     s' = s'' \<and>
     map te_plugin_id t = pl_order p \<and> map te_kind t = map get_kind (pl_middlewares p) \<and>
     map te_correlation_id t =
       replicate (length (pl_middlewares p)) (cx_correlation_id (new_context fresh operation inp conn md)) \<and>
     map te_verdict t =
       map (\<lambda>i. last (Skipped # map outcome_verdict (outcomes_of i os))) [0..<length (pl_middlewares p)] \<and>
     map te_error_code t =
       map (\<lambda>i. last (PNone # concat (map outcome_code (outcomes_of i os)))) [0..<length (pl_middlewares p)] \<and>
     (\<exists>n \<le> length (pl_middlewares p). (n = 0) = (pl_middlewares p = []) \<and> fst ` set os = {0..<n}) \<and>
     (case r of
        Inr d \<Rightarrow> dpop response ''metadata'' = dpop d ''metadata''
      | Inl (ShortCircuit d) \<Rightarrow> dpop response ''metadata'' = dpop d ''metadata''
      | Inl _ \<Rightarrow> dget response ''error_code'' = Some (PStr ''internal_error'')) \<and>
     (\<exists>meta. dget response ''metadata'' = Some (PDict meta) \<and>
        dget meta ''pipeline_trace'' = Some (PList (map entry_value t)) \<and>
        dget meta ''correlation_id'' =
          Some (PStr (cx_correlation_id (new_context fresh operation inp conn md))))"
proof -
  let ?ctx = "freeze_correlation_id (new_context fresh operation inp conn md)"
  let ?corr = "cx_correlation_id (new_context fresh operation inp conn md)"
  let ?t0 = "map (new_entry ?corr) (pl_middlewares p)"
  have corr: "cx_correlation_id ?ctx = ?corr" by (simp add: freeze_correlation_id_def)
  obtain r c' s' os where run: "chain_runs (pl_middlewares p) 0 (pl_terminal p) ?ctx s = (r, c', s', os)"
    by (metis prod_cases4)
  let ?t = "record_runs os ?t0"
  have answer: "dispatch p fresh operation inp conn md s = (attach_trace (recover r) ?t ?corr, ?t, s')"
    by (simp add: dispatch_def Let_def corr call_chain_runs run)
  have entry: "?t ! i = fold close_entry (outcomes_of i os) (new_entry ?corr (pl_middlewares p ! i))"
    if "i < length (pl_middlewares p)" for i
    using that by (simp add: nth_record_runs)
  have columns: "map te_plugin_id ?t = pl_order p" "map te_kind ?t = map get_kind (pl_middlewares p)"
    "map te_correlation_id ?t = replicate (length (pl_middlewares p)) ?corr"
    "map te_verdict ?t =
       map (\<lambda>i. last (Skipped # map outcome_verdict (outcomes_of i os))) [0..<length (pl_middlewares p)]"
    "map te_error_code ?t =
       map (\<lambda>i. last (PNone # concat (map outcome_code (outcomes_of i os)))) [0..<length (pl_middlewares p)]"
    by (auto intro!: nth_equalityI simp: entry fold_close_entry new_entry_def pl_order_def)
  have "\<exists>n \<le> length (pl_middlewares p). (n = 0) = (pl_middlewares p = []) \<and> fst ` set os = {0..<n}"
    using chain_runs_indices [OF run] by simp
  moreover have "case r of
        Inr d \<Rightarrow> dpop (attach_trace (recover r) ?t ?corr) ''metadata'' = dpop d ''metadata''
      | Inl (ShortCircuit d) \<Rightarrow> dpop (attach_trace (recover r) ?t ?corr) ''metadata'' = dpop d ''metadata''
      | Inl _ \<Rightarrow> dget (attach_trace (recover r) ?t ?corr) ''error_code'' = Some (PStr ''internal_error'')"
    by (auto simp: attach_trace_def recover_def make_internal_error_def delete_update_same Let_def
        split: sum.split exc.split)
  moreover have "\<exists>meta. dget (attach_trace (recover r) ?t ?corr) ''metadata'' = Some (PDict meta) \<and>
        dget meta ''pipeline_trace'' = Some (PList (map entry_value ?t)) \<and>
        dget meta ''correlation_id'' = Some (PStr ?corr)"
    by (simp add: attach_trace_def Let_def)
  ultimately show ?thesis unfolding answer run prod.case using columns by blast
qed

end
