(* ===== verification/Identity_Proofs.thy ===== *)
theory Identity_Proofs
  imports Identity
begin

text \<open>
  What the verifier accepts and rejects, what it writes, and how long its replay cache
  protects a request. \<open>run_identity\<close> runs calls on the registry and the verifier in any order.
\<close>

section \<open>Runs\<close>

datatype id_event =
    Register time agent bytes
  | Revoke time agent
  | Verify time time signed_request string "string option"

text \<open>The accepted requests of a run, each with the clock value at which it was accepted.\<close>

fun id_step ::
  "(bytes \<Rightarrow> bytes \<Rightarrow> bytes \<Rightarrow> bool) \<Rightarrow> id_event \<Rightarrow> verifier \<Rightarrow> (time \<times> signed_request) list \<times> verifier"
where
  "id_step vs (Register now a key) v =
     ([], v\<lparr>vf_registry := snd (cred_register now a key (vf_registry v))\<rparr>)"
| "id_step vs (Revoke now a) v = ([], v\<lparr>vf_registry := snd (cred_revoke now a (vf_registry v))\<rparr>)"
| "id_step vs (Verify now anow req operation conn) v =
     (case vf_verify vs now anow req operation conn v of
        (Inl e, v') \<Rightarrow> ([], v')
      | (Inr i, v') \<Rightarrow> ([(now, req)], v'))"

fun run_identity ::
  "(bytes \<Rightarrow> bytes \<Rightarrow> bytes \<Rightarrow> bool) \<Rightarrow> id_event list \<Rightarrow> verifier \<Rightarrow> (time \<times> signed_request) list \<times> verifier"
where
  "run_identity vs [] v = ([], v)"
| "run_identity vs (e # es) v =
     (let (acc, v') = id_step vs e v; (acc', v'') = run_identity vs es v' in (acc @ acc', v''))"

text \<open>The clock of the verifier does not go back.\<close>

fun clock_from :: "time \<Rightarrow> id_event list \<Rightarrow> bool" where
  "clock_from t [] = True"
| "clock_from t (Verify now anow req operation conn # es) = (t \<le> now \<and> clock_from now es)"
| "clock_from t (e # es) = clock_from t es"

section \<open>The registry\<close>

definition registry_ok :: "registry \<Rightarrow> bool" where
  "registry_ok regs \<longleftrightarrow> (\<forall>a r. dget regs a = Some r \<longrightarrow> cr_agent_id r = a \<and> length (cr_public_key r) = 32)"

lemma cred_register_ok [sox_intros]: "registry_ok regs \<Longrightarrow> registry_ok (snd (cred_register now a key regs))"
  by (auto simp: registry_ok_def cred_register_def Let_def)

lemma cred_revoke_ok [sox_intros]: "registry_ok regs \<Longrightarrow> registry_ok (snd (cred_revoke now a regs))"
  by (auto simp: registry_ok_def cred_revoke_def split: option.splits)

section \<open>The replay cache\<close>

lemma prune_fields [simp]:
  "vf_registry (prune_replay_cache now v) = vf_registry v"
  "vf_audit (prune_replay_cache now v) = vf_audit v"
  "vf_replay_window (prune_replay_cache now v) = vf_replay_window v"
  by (simp_all add: prune_replay_cache_def)

definition nonces_ok :: "verifier \<Rightarrow> bool" where
  "nonces_ok v \<longleftrightarrow> distinct (map fst (vf_seen_nonces v))"

lemma prune_nonces_ok [sox_intros]: "nonces_ok v \<Longrightarrow> nonces_ok (prune_replay_cache now v)"
  by (auto simp: nonces_ok_def prune_replay_cache_def distinct_map_filter)

lemma prune_seen:
  assumes "nonces_ok v"
  shows "dget (vf_seen_nonces (prune_replay_cache now v)) n =
    (case dget (vf_seen_nonces v) n of
       None \<Rightarrow> None | Some t \<Rightarrow> if t < now - vf_replay_window v then None else Some t)"
proof -
  have "distinct (map fst d) \<Longrightarrow> map_of (filter (\<lambda>e. \<not> snd e < c) d) n =
    (case map_of d n of None \<Rightarrow> None | Some t \<Rightarrow> if t < c then None else Some t)"
    for d :: "(string \<times> time) list" and c
    by (induction d) (auto split: option.splits simp: rev_image_eqI dest: map_of_SomeD)
  with assms show ?thesis by (simp add: nonces_ok_def prune_replay_cache_def)
qed

text \<open>The nonce of a call is unused at time \<open>now\<close>: never seen, or seen before the window.\<close>

definition nonce_free :: "string \<Rightarrow> time \<Rightarrow> verifier \<Rightarrow> bool" where
  "nonce_free n now v \<longleftrightarrow>
     (\<forall>t. dget (vf_seen_nonces v) n = Some t \<longrightarrow> t < now - vf_replay_window v)"

lemma check_and_insert_result:
  "nonces_ok v \<Longrightarrow> fst (check_and_insert_nonce n now v) = nonce_free n now v"
  by (auto simp: check_and_insert_nonce_def Let_def has_key_map_of prune_seen nonce_free_def
      split: option.splits if_splits)

lemma check_and_insert_ok [sox_intros]:
  "nonces_ok v \<Longrightarrow> nonces_ok (snd (check_and_insert_nonce n now v))"
  using prune_nonces_ok [of v now]
  by (auto simp: check_and_insert_nonce_def Let_def nonces_ok_def distinct_update)

lemma check_and_insert_fields [simp]:
  "vf_registry (snd (check_and_insert_nonce n now v)) = vf_registry v"
  "vf_audit (snd (check_and_insert_nonce n now v)) = vf_audit v"
  "vf_replay_window (snd (check_and_insert_nonce n now v)) = vf_replay_window v"
  by (simp_all add: check_and_insert_nonce_def Let_def)

lemma check_and_insert_seen:
  assumes "nonces_ok v" and "dget (vf_seen_nonces v) n = Some t" and "now - vf_replay_window v \<le> t"
  shows "dget (vf_seen_nonces (snd (check_and_insert_nonce n' now v))) n = Some t"
  using assms by (auto simp: check_and_insert_nonce_def Let_def prune_seen has_key_map_of)

lemma check_and_insert_new:
  "fst (check_and_insert_nonce n now v) \<Longrightarrow>
     dget (vf_seen_nonces (snd (check_and_insert_nonce n now v))) n = Some now"
  by (auto simp: check_and_insert_nonce_def Let_def split: if_splits)

section \<open>What is accepted\<close>

definition credential_valid ::
  "(bytes \<Rightarrow> bytes \<Rightarrow> bytes \<Rightarrow> bool) \<Rightarrow> time \<Rightarrow> signed_request \<Rightarrow> verifier \<Rightarrow> credential \<Rightarrow> bool"
where
  "credential_valid vs now req v r \<longleftrightarrow>
     sr_agent_id req \<noteq> [] \<and> sr_nonce req \<noteq> [] \<and> \<bar>now - sr_timestamp req\<bar> \<le> vf_replay_window v \<and>
     dget (vf_registry v) (sr_agent_id req) = Some r \<and> cr_revoked_at r = None \<and>
     vs (cr_public_key r) (canonical_payload req) (sr_signature req)"

definition acceptable ::
  "(bytes \<Rightarrow> bytes \<Rightarrow> bytes \<Rightarrow> bool) \<Rightarrow> time \<Rightarrow> signed_request \<Rightarrow> verifier \<Rightarrow> bool"
where
  "acceptable vs now req v \<longleftrightarrow>
     (\<exists>r. credential_valid vs now req v r) \<and> nonce_free (sr_nonce req) now v"

lemma vf_verify_valid:
  assumes "credential_valid vs now req v r"
  shows "vf_verify vs now anow req operation conn v =
    (if fst (check_and_insert_nonce (sr_nonce req) now v)
     then (Inr \<lparr>vi_agent_id = cr_agent_id r, vi_verified_at = now, vi_connection_id = conn,
             vi_origin_server = None\<rparr>, snd (check_and_insert_nonce (sr_nonce req) now v))
     else (Inl (IdentityFailure ReplayDetected ''Duplicate nonce within replay window''),
           record_failure anow (Some (sr_agent_id req)) ''Duplicate nonce within replay window''
             operation conn (snd (check_and_insert_nonce (sr_nonce req) now v))))"
  using assms
  by (simp add: vf_verify_def vf_fail_def credential_valid_def cred_lookup_def is_revoked_def
      split: prod.split bool.split)

lemma vf_verify_invalid:
  assumes "\<And>r. \<not> credential_valid vs now req v r"
  shows "\<exists>kind reason claimed. vf_verify vs now anow req operation conn v =
    (Inl (IdentityFailure kind reason), record_failure anow claimed reason operation conn v)"
proof (cases "dget (vf_registry v) (sr_agent_id req)")
  case None
  then show ?thesis by (auto simp: vf_verify_def vf_fail_def cred_lookup_def)
next
  case (Some r)
  then show ?thesis
    using assms [of r]
    by (auto simp: vf_verify_def vf_fail_def cred_lookup_def is_revoked_def credential_valid_def)
qed

text \<open>Everything a call of \<open>verify\<close> does, in one statement.\<close>

lemma vf_verify_outcome:
  assumes "nonces_ok v"
  obtains (accept) r where "acceptable vs now req v" "dget (vf_registry v) (sr_agent_id req) = Some r"
      "vf_verify vs now anow req operation conn v =
         (Inr \<lparr>vi_agent_id = cr_agent_id r, vi_verified_at = now, vi_connection_id = conn,
            vi_origin_server = None\<rparr>, snd (check_and_insert_nonce (sr_nonce req) now v))"
  | (reject) kind reason claimed where "\<not> acceptable vs now req v"
      "vf_verify vs now anow req operation conn v =
         (Inl (IdentityFailure kind reason), record_failure anow claimed reason operation conn v)"
  | (replay) "\<not> acceptable vs now req v"
      "vf_verify vs now anow req operation conn v =
         (Inl (IdentityFailure ReplayDetected ''Duplicate nonce within replay window''),
          record_failure anow (Some (sr_agent_id req)) ''Duplicate nonce within replay window''
            operation conn (prune_replay_cache now v))"
proof (cases "\<exists>r. credential_valid vs now req v r")
  case True
  then obtain r where r: "credential_valid vs now req v r" by blast
  show thesis
  proof (cases "fst (check_and_insert_nonce (sr_nonce req) now v)")
    case True
    with accept [of r] r vf_verify_valid [OF r] check_and_insert_result [OF assms] show thesis
      by (auto simp: acceptable_def credential_valid_def)
  next
    case False
    then have "snd (check_and_insert_nonce (sr_nonce req) now v) = prune_replay_cache now v"
      by (auto simp: check_and_insert_nonce_def Let_def)
    with replay r False vf_verify_valid [OF r] check_and_insert_result [OF assms] show thesis
      by (simp add: acceptable_def)
  qed
next
  case False
  then show thesis
    using vf_verify_invalid [of vs now req v anow operation conn] reject
    unfolding acceptable_def by blast
qed

section \<open>The invariant of a run\<close>

definition verifier_ok :: "time \<Rightarrow> verifier \<Rightarrow> bool" where
  "verifier_ok w v \<longleftrightarrow> registry_ok (vf_registry v) \<and> nonces_ok v \<and> vf_replay_window v = w"

lemma verifier_ok_init: "verifier_ok w (verifier_init w)"
  by (simp add: verifier_ok_def verifier_init_def registry_ok_def nonces_ok_def)

lemma record_failure_fields [simp]:
  "vf_registry (record_failure t c r p k v) = vf_registry v"
  "vf_seen_nonces (record_failure t c r p k v) = vf_seen_nonces v"
  "vf_replay_window (record_failure t c r p k v) = vf_replay_window v"
  "nonces_ok (record_failure t c r p k v) = nonces_ok v"
  by (simp_all add: record_failure_def nonces_ok_def)

lemma id_step_ok [sox_intros]:
  assumes "verifier_ok w v" shows "verifier_ok w (snd (id_step vs e v))"
proof (cases e)
  case (Verify now anow req operation conn)
  from assms have ok: "nonces_ok v" by (simp add: verifier_ok_def)
  show ?thesis
    by (cases rule: vf_verify_outcome [OF ok, of vs now req anow operation conn])
      (use assms check_and_insert_ok [OF ok] prune_nonces_ok [OF ok] in
        \<open>simp_all add: Verify verifier_ok_def\<close>)
qed (use assms cred_register_ok cred_revoke_ok in \<open>simp_all add: verifier_ok_def nonces_ok_def\<close>)

lemma run_identity_Cons:
  "run_identity vs (e # es) v =
     (fst (id_step vs e v) @ fst (run_identity vs es (snd (id_step vs e v))),
      snd (run_identity vs es (snd (id_step vs e v))))"
  by (simp add: split_beta Let_def)

lemma run_identity_ok: "verifier_ok w v \<Longrightarrow> verifier_ok w (snd (run_identity vs es v))"
  by (induction es arbitrary: v) (auto simp: run_identity_Cons id_step_ok simp del: run_identity.simps(2))

text \<open>A nonce seen at \<open>t\<close> is remembered as long as the clock stays within the window of \<open>t\<close>.\<close>

lemma id_step_seen:
  assumes ok: "nonces_ok v" and seen: "dget (vf_seen_nonces v) n = Some t"
    and now: "\<And>now anow req operation conn. e = Verify now anow req operation conn \<Longrightarrow> now \<le> t + vf_replay_window v"
  shows "dget (vf_seen_nonces (snd (id_step vs e v))) n = Some t"
proof (cases e)
  case (Verify now anow req operation conn)
  have keep: "dget (vf_seen_nonces (prune_replay_cache now v)) n = Some t"
    "dget (vf_seen_nonces (snd (check_and_insert_nonce (sr_nonce req) now v))) n = Some t"
    using now [OF Verify] check_and_insert_seen [OF ok seen] by (simp_all add: prune_seen [OF ok] seen)
  show ?thesis
    by (cases rule: vf_verify_outcome [OF ok, of vs now req anow operation conn])
      (use keep seen in \<open>simp_all add: Verify\<close>)
qed (use seen in simp_all)

lemma clock_from_later: "clock_from t es \<Longrightarrow> t' \<le> t \<Longrightarrow> clock_from t' es"
  by (induction t es rule: clock_from.induct) auto

text \<open>While the nonce is remembered it is not accepted, so a second acceptance comes late.\<close>

lemma accepted_late:
  assumes "verifier_ok w v" and "dget (vf_seen_nonces v) n = Some t" and "clock_from t0 es"
    and "(t2, req) \<in> set (fst (run_identity vs es v))" and "sr_nonce req = n"
  shows "t + w < t2"
  using assms
proof (induction es arbitrary: v t0)
  case (Cons e es)
  show ?case
  proof (cases "\<exists>now anow req operation conn. e = Verify now anow req operation conn \<and> t + w < now")
    case True
    then obtain now anow req' operation conn where e: "e = Verify now anow req' operation conn"
      and late: "t + w < now" by blast
    have "clock_from now es" using Cons.prems(3) e by simp
    then have "now \<le> t2"
    proof -
      have after: "clock_from now fs \<Longrightarrow> (t2, req) \<in> set (fst (run_identity vs fs u)) \<Longrightarrow> now \<le> t2"
        for fs u
      proof (induction fs arbitrary: u now)
        case (Cons f fs)
        then show ?case
          by (cases f) (fastforce simp: split_beta Let_def split: sum.splits prod.splits
              dest: clock_from_later)+
      qed simp
      have "(t2, req) \<in> set (fst (id_step vs e v)) \<Longrightarrow> t2 = now"
        by (auto simp: e split: sum.splits prod.splits)
      with after [OF \<open>clock_from now es\<close>] Cons.prems(4) show ?thesis
        by (auto simp: run_identity_Cons simp del: run_identity.simps(2))
    qed
    with late show ?thesis by simp
  next
    case False
    have ok: "nonces_ok v" "vf_replay_window v = w" using Cons.prems(1) by (simp_all add: verifier_ok_def)
    have seen: "dget (vf_seen_nonces (snd (id_step vs e v))) n = Some t"
      using id_step_seen [OF ok(1) Cons.prems(2)] False ok(2) by (metis not_le)
    have "(t2, req) \<notin> set (fst (id_step vs e v))"
    proof
      assume acc: "(t2, req) \<in> set (fst (id_step vs e v))"
      then obtain anow operation conn where e: "e = Verify t2 anow req operation conn"
        by (cases e) (auto split: sum.splits prod.splits)
      have "\<not> acceptable vs t2 req v"
        using False e ok(2) Cons.prems(2,5) by (auto simp: acceptable_def nonce_free_def)
      then show False
        using acc by (cases rule: vf_verify_outcome [OF ok(1), of vs t2 req anow operation conn])
          (simp_all add: e)
    qed
    then have "(t2, req) \<in> set (fst (run_identity vs es (snd (id_step vs e v))))"
      using Cons.prems(4) by (simp add: run_identity_Cons del: run_identity.simps(2))
    moreover have "clock_from t0 es \<or> (\<exists>t1. clock_from t1 es)" using Cons.prems(3) by (cases e) auto
    ultimately show ?thesis
      using Cons.IH [OF id_step_ok [OF Cons.prems(1)] seen _ _ Cons.prems(5)] by blast
  qed
qed simp

lemma accepted_fresh:
  assumes "verifier_ok w v" and "(t, req) \<in> set (fst (run_identity vs es v))"
  shows "t \<le> sr_timestamp req + w"
  using assms
proof (induction es arbitrary: v)
  case (Cons e es)
  have ok: "nonces_ok v" "vf_replay_window v = w" using Cons.prems(1) by (simp_all add: verifier_ok_def)
  have "t \<le> sr_timestamp req + w" if acc: "(t, req) \<in> set (fst (id_step vs e v))"
  proof -
    obtain anow operation conn where e: "e = Verify t anow req operation conn"
      using acc by (cases e) (auto split: sum.splits prod.splits)
    then have "acceptable vs t req v"
      using acc by (cases rule: vf_verify_outcome [OF ok(1), of vs t req anow operation conn]) simp_all
    then show ?thesis using ok(2) by (auto simp: acceptable_def credential_valid_def)
  qed
  then show ?case
    using Cons.IH [OF id_step_ok [OF Cons.prems(1)]] Cons.prems(2)
    by (auto simp: run_identity_Cons simp del: run_identity.simps(2))
qed simp

section \<open>The signed bytes\<close>

definition line_free :: "string \<Rightarrow> bool" where
  "line_free s \<longleftrightarrow> newline \<notin> set s"

lemma digit_not_newline: "is_digit c \<Longrightarrow> c \<noteq> newline"
  by (auto simp: is_digit_def newline_def)

lemma line_free_str_nat: "line_free (str_nat n)"
  using str_nat_digits [of n] digit_not_newline by (auto simp: line_free_def)

lemma line_free_append [simp]: "line_free (s @ t) \<longleftrightarrow> line_free s \<and> line_free t"
  by (auto simp: line_free_def)

lemma line_free_fixed6: "line_free (fixed6 x)"
  unfolding fixed6_def Let_def line_free_append pad_left_def
  by (simp add: line_free_str_nat) (auto simp: line_free_def newline_def)

lemma payload_lines:
  assumes "line_free (sr_agent_id r)" "line_free (sr_nonce r)" "line_free (sr_method r)"
    "line_free (sr_body_hash r)"
  shows "split_on newline (canonical_payload r) =
    [sr_agent_id r, sr_nonce r, fixed6 (sr_timestamp r), sr_method r, sr_body_hash r]"
  unfolding canonical_payload_def
  by (rule split_on_join) (use assms line_free_fixed6 in \<open>auto simp: line_free_def\<close>)

section \<open>Properties\<close>

text \<open>
  C2. What \<open>verify\<close> accepts, exactly: a non-empty agent id and nonce, a timestamp within the
  window of the clock, an agent that is registered and not revoked, a signature over the
  canonical payload under that agent's registered key, and a nonce not remembered in the
  window; it then certifies the agent id of the registry. The operation that is called
  plays no part, nor does the method or the body the request names.
\<close>

theorem verify_accepts:
  "fst (vf_verify vs now anow req operation conn (snd (run_identity vs es (verifier_init w)))) = Inr i \<longleftrightarrow>
     acceptable vs now req (snd (run_identity vs es (verifier_init w))) \<and>
     i = \<lparr>vi_agent_id = sr_agent_id req, vi_verified_at = now, vi_connection_id = conn,
           vi_origin_server = None\<rparr>"
proof -
  let ?v = "snd (run_identity vs es (verifier_init w))"
  have v: "verifier_ok w ?v" by (rule run_identity_ok [OF verifier_ok_init])
  then have ok: "nonces_ok ?v" by (simp add: verifier_ok_def)
  have "dget (vf_registry ?v) (sr_agent_id req) = Some r \<Longrightarrow> cr_agent_id r = sr_agent_id req" for r
    using v by (simp add: verifier_ok_def registry_ok_def)
  then show ?thesis
    by (cases rule: vf_verify_outcome [OF ok, of vs now req anow operation conn]) auto
qed

text \<open>
  C3. No replay: once a request is accepted at time \<open>t1\<close>, a request with the same nonce and
  the same timestamp is never accepted again unless its timestamp lay in the future of \<open>t1\<close>,
  whatever calls and registry changes happen in between and however often the cache is
  pruned, as long as the server's clock does not go back.
\<close>

theorem verify_no_replay:
  assumes "run_identity vs es (verifier_init w) = (acc, v)"
    and "id_step vs (Verify t1 anow req operation conn) v = ([(t1, req)], v')"
    and "clock_from t1 es'"
    and "(t2, req') \<in> set (fst (run_identity vs es' v'))"
    and "sr_nonce req' = sr_nonce req" and "sr_timestamp req' = sr_timestamp req"
  shows "sr_timestamp req > t1"
proof -
  have v: "verifier_ok w v" using run_identity_ok [OF verifier_ok_init, of w vs es] assms(1) by simp
  then have ok: "nonces_ok v" by (simp add: verifier_ok_def)
  have v': "verifier_ok w v'" using id_step_ok [OF v, of vs "Verify t1 anow req operation conn"] assms(2) by simp
  have "dget (vf_seen_nonces v') (sr_nonce req) = Some t1"
    using assms(2) check_and_insert_new [of "sr_nonce req" t1 v] check_and_insert_result [OF ok]
    by (cases rule: vf_verify_outcome [OF ok, of vs t1 req anow operation conn])
      (auto simp: acceptable_def)
  then have late: "t1 + w < t2" using accepted_late [OF v' _ assms(3,4,5)] by simp
  have "t2 \<le> sr_timestamp req' + w" using accepted_fresh [OF v' assms(4)] .
  with late assms(6) show ?thesis by simp
qed

text \<open>A concrete deployment: one registered agent and a toy signature scheme, key followed by payload.\<close>

definition toy_scheme :: "bytes \<Rightarrow> bytes \<Rightarrow> bytes \<Rightarrow> bool" where
  "toy_scheme key payload signature \<longleftrightarrow> signature = key @ payload"

definition toy_key :: bytes where
  "toy_key = replicate 32 (CHR ''k'')"

definition toy_request :: "time \<Rightarrow> signed_request" where
  "toy_request ts =
     (let r = \<lparr>sr_agent_id = ''a'', sr_nonce = ''n'', sr_timestamp = ts, sr_method = ''recv'',
                sr_body_hash = [], sr_signature = []\<rparr>
      in r\<lparr>sr_signature := toy_key @ canonical_payload r\<rparr>)"

definition toy_verifier :: verifier where
  "toy_verifier = snd (run_identity toy_scheme [Register 0 ''a'' toy_key] (verifier_init 300))"

lemma canonical_payload_signature [simp]: "canonical_payload (r\<lparr>sr_signature := x\<rparr>) = canonical_payload r"
  by (simp add: canonical_payload_def)

lemma toy_request_fields [simp]:
  "sr_agent_id (toy_request ts) = ''a''" "sr_nonce (toy_request ts) = ''n''"
  "sr_timestamp (toy_request ts) = ts"
  "toy_scheme toy_key (canonical_payload (toy_request ts)) (sr_signature (toy_request ts))"
  by (simp_all add: toy_request_def toy_scheme_def canonical_payload_def Let_def)

lemma toy_verifier_fields [simp]:
  "vf_registry toy_verifier = [(''a'', \<lparr>cr_agent_id = ''a'', cr_public_key = toy_key,
     cr_registered_at = 0, cr_revoked_at = None\<rparr>)]"
  "vf_replay_window toy_verifier = 300" "vf_seen_nonces toy_verifier = []"
  by (simp_all add: toy_verifier_def verifier_init_def cred_register_def toy_key_def Let_def)

lemma toy_accept:
  "id_step toy_scheme (Verify 0 0 (toy_request 300) ''recv'' None) toy_verifier =
     ([(0, toy_request 300)], toy_verifier\<lparr>vf_seen_nonces := [(''n'', 0)]\<rparr>)"
  by (simp add: vf_verify_def cred_lookup_def is_revoked_def check_and_insert_nonce_def
      prune_replay_cache_def has_key_def)

theorem verify_no_replay_witness:
  "sr_timestamp (toy_request 300) > 0"
proof (rule verify_no_replay [OF _ toy_accept, where es' = "[Verify 301 301 (toy_request 300) ''send'' None]"
      and ?t2.0 = 301 and req' = "toy_request 300"])
  show "run_identity toy_scheme [Register 0 ''a'' toy_key] (verifier_init 300) = ([], toy_verifier)"
    by (simp add: toy_verifier_def split_beta)
  show "(301, toy_request 300) \<in> set (fst (run_identity toy_scheme
      [Verify 301 301 (toy_request 300) ''send'' None] (toy_verifier\<lparr>vf_seen_nonces := [(''n'', 0)]\<rparr>)))"
    by (simp add: vf_verify_def cred_lookup_def is_revoked_def check_and_insert_nonce_def
        prune_replay_cache_def has_key_def)
qed simp_all

text \<open>
  A future-dated request can be replayed: once accepted at \<open>t1\<close>, the same request is
  accepted a second time, for any operation, at every time after the window of \<open>t1\<close> has
  passed and before the window of its own timestamp has.
\<close>

theorem verify_future_replay:
  assumes "nonces_ok v" and "acceptable vs t1 req v"
    and "v' = snd (vf_verify vs t1 anow req operation conn v)"
    and "t1 + vf_replay_window v < t2" and "t2 \<le> sr_timestamp req + vf_replay_window v"
  shows "\<exists>i. fst (vf_verify vs t2 anow' req operation' conn' v') = Inr i \<and> vi_agent_id i =
    cr_agent_id (the (dget (vf_registry v) (sr_agent_id req)))"
proof -
  obtain r where r: "credential_valid vs t1 req v r" using assms(2) by (auto simp: acceptable_def)
  have ins: "fst (check_and_insert_nonce (sr_nonce req) t1 v)"
    using assms(2) check_and_insert_result [OF assms(1)] by (simp add: acceptable_def)
  then have v': "v' = snd (check_and_insert_nonce (sr_nonce req) t1 v)"
    using vf_verify_valid [OF r] assms(3) by simp
  have ok: "nonces_ok v'" using check_and_insert_ok [OF assms(1)] v' by simp
  have "nonce_free (sr_nonce req) t2 v'"
    using check_and_insert_new [OF ins] assms(4) v' by (simp add: nonce_free_def)
  moreover have "credential_valid vs t2 req v' r"
    using r assms(4,5) v' by (auto simp: credential_valid_def abs_if split: if_splits)
  ultimately show ?thesis
    using vf_verify_valid [of vs t2 req v' r] check_and_insert_result [OF ok] r
    by (simp add: credential_valid_def)
qed

theorem verify_future_replay_witness:
  "\<exists>i. fst (vf_verify toy_scheme 301 301 (toy_request 300) ''send'' None
     (snd (vf_verify toy_scheme 0 0 (toy_request 300) ''recv'' None toy_verifier))) = Inr i \<and>
     vi_agent_id i = ''a''"
  using verify_future_replay [OF _ _ refl, of toy_verifier toy_scheme 0 "toy_request 300" 301 301
      "''send''" None 0 "''recv''" None]
  by (simp add: nonces_ok_def acceptable_def credential_valid_def nonce_free_def)

fun is_verify :: "id_event \<Rightarrow> bool" where
  "is_verify (Verify now anow req operation conn) = True"
| "is_verify e = False"

lemma record_failure_length [simp]:
  "length (vf_audit (record_failure t c r p k v)) = Suc (length (vf_audit v))"
  by (simp add: record_failure_def)

lemma id_step_audit:
  assumes "nonces_ok v"
  shows "length (vf_audit (snd (id_step vs e v))) + length (fst (id_step vs e v)) =
    length (vf_audit v) + (if is_verify e then 1 else 0)"
proof (cases e)
  case (Verify now anow req operation conn)
  show ?thesis
    by (cases rule: vf_verify_outcome [OF assms, of vs now req anow operation conn]) (simp_all add: Verify)
qed simp_all

lemma run_identity_audit:
  "verifier_ok w v \<Longrightarrow> length (vf_audit (snd (run_identity vs es v))) + length (fst (run_identity vs es v)) =
     length (vf_audit v) + length (filter is_verify es)"
proof (induction es arbitrary: v)
  case (Cons e es)
  then show ?case
    using Cons.IH [OF id_step_ok [OF Cons.prems, of vs e]] id_step_audit [of v vs e]
    by (auto simp: run_identity_Cons verifier_ok_def simp del: run_identity.simps(2))
qed simp

text \<open>
  C15. The audit log is complete: over every run, each call of \<open>verify\<close> either accepts its
  request and writes nothing, or writes exactly one line.
\<close>

theorem verify_audited:
  "length (vf_audit (snd (run_identity vs es (verifier_init w)))) +
     length (fst (run_identity vs es (verifier_init w))) = length (filter is_verify es)"
  using run_identity_audit [OF verifier_ok_init] by (simp add: verifier_init_def)

text \<open>
  C17. The signed bytes determine the request: two envelopes without line breaks in their
  fields have the same canonical payload only if they agree on the agent, the nonce, the
  method, the body hash and the timestamp to six decimals.
\<close>

theorem payload_injective:
  assumes "canonical_payload r = canonical_payload r'"
    and "line_free (sr_agent_id r)" "line_free (sr_nonce r)" "line_free (sr_method r)" "line_free (sr_body_hash r)"
    and "line_free (sr_agent_id r')" "line_free (sr_nonce r')" "line_free (sr_method r')"
    "line_free (sr_body_hash r')"
  shows "sr_agent_id r = sr_agent_id r' \<and> sr_nonce r = sr_nonce r' \<and>
    fixed6 (sr_timestamp r) = fixed6 (sr_timestamp r') \<and> sr_method r = sr_method r' \<and>
    sr_body_hash r = sr_body_hash r'"
  using payload_lines [OF assms(2-5)] payload_lines [OF assms(6-9)] assms(1) by simp

theorem payload_injective_witness:
  "fixed6 (sr_timestamp (toy_request 1)) = fixed6 (sr_timestamp ((toy_request 1)\<lparr>sr_signature := []\<rparr>))"
  using payload_injective [of "toy_request 1" "(toy_request 1)\<lparr>sr_signature := []\<rparr>"]
  by (simp add: line_free_def newline_def toy_request_def Let_def)

text \<open>Without that restriction a line break moves text from one field to the next.\<close>

lemma payload_ambiguous:
  "canonical_payload \<lparr>sr_agent_id = ''a'', sr_nonce = ''b'' @ newline # ''c'', sr_timestamp = 0,
     sr_method = m, sr_body_hash = h, sr_signature = x\<rparr> =
   join [newline] [''a'', ''b'', ''c'', fixed6 0, m, h]"
  by (simp add: canonical_payload_def)

end
