(* ===== verification/Chain_Properties.thy ===== *)
theory Chain_Properties
  imports Chain_Registry Pipeline_Proofs Identity_Proofs Memory_Store
begin

text \<open>
  The order of the chain and what the default chain guarantees: the sorts are correct and
  complete, a plugin lands in its window, nothing behind \<open>store_dispatch\<close> runs, no enforced
  operation reaches the store without an accepted credential, and whose name a stored
  message carries.
\<close>

section \<open>Sorting\<close>

definition mw_edges :: "string list \<Rightarrow> (string \<times> 's middleware) list \<Rightarrow> (string \<times> string) list" where
  "mw_edges names instances = constraint_edges names (mw_constraints instances)"

lemma kahn_sort_exact:
  assumes "distinct names"
  shows "length (kahn_sort pol names cs) = length names \<longleftrightarrow>
    (\<exists>xs. mset xs = mset names \<and> satisfies xs (constraint_edges names cs))"
  using kahn_sort_sound [OF assms] kahn_sort_complete [OF assms] by blast

lemma sort_Nil_iff: "sort xs = [] \<longleftrightarrow> xs = []"
  by (metis set_empty set_sort)

text \<open>
  C11. The middleware sort is correct and complete: on distinct names it returns an order of
  exactly these names in which every \<open>must_run_before\<close> and \<open>must_run_after\<close> among them holds,
  and it raises only when no such order exists.
\<close>

theorem topological_sort_correct:
  assumes "distinct names"
  shows "(case topological_sort names cs of
      Inr r \<Rightarrow> mset r = mset names \<and> satisfies r (constraint_edges names cs)
    | Inl e \<Rightarrow> \<not> (\<exists>xs. mset xs = mset names \<and> satisfies xs (constraint_edges names cs)))"
  using kahn_sort_exact [OF assms, of Fifo cs] kahn_sort_sound [OF assms, of Fifo cs]
  by (auto simp: topological_sort_def Let_def)

theorem topological_sort_correct_witness:
  "case topological_sort [''a'', ''b''] (\<lambda>n. if n = ''b'' then ([''a''], []) else ([], [])) of
     Inr r \<Rightarrow> mset r = mset [''a'', ''b''] \<and>
       satisfies r (constraint_edges [''a'', ''b''] (\<lambda>n. if n = ''b'' then ([''a''], []) else ([], [])))
   | Inl e \<Rightarrow> \<not> (\<exists>xs. mset xs = mset [''a'', ''b''] \<and>
       satisfies xs (constraint_edges [''a'', ''b''] (\<lambda>n. if n = ''b'' then ([''a''], []) else ([], []))))"
  by (rule topological_sort_correct) simp

text \<open>
  C12. The plugin sort is correct and complete in the same sense, and it reports an ordering
  cycle with exactly the plugins it could not place.
\<close>

theorem toposort_plugins_correct:
  assumes "distinct ids"
  shows "(case toposort_plugins ids cs of
      Inr r \<Rightarrow> mset r = mset ids \<and> satisfies r (constraint_edges ids cs)
    | Inl e \<Rightarrow> \<not> (\<exists>xs. mset xs = mset ids \<and> satisfies xs (constraint_edges ids cs)) \<and>
        (\<exists>cycle. e = PluginOrderingCycle cycle \<and> cycle \<noteq> [] \<and>
           (\<forall>b \<in> set cycle. \<exists>a \<in> set cycle. (a, b) \<in> set (constraint_edges ids cs))))"
proof (cases "length (kahn_sort Lex ids cs) = length ids")
  case True
  then show ?thesis
    using kahn_sort_sound [OF assms True] by (simp add: toposort_plugins_def Let_def)
next
  case False
  then show ?thesis
    using kahn_sort_exact [OF assms, of Lex cs] kahn_sort_blocked [OF assms False]
    by (auto simp: sort_Nil_iff toposort_plugins_def Let_def filter_empty_conv)
qed

theorem toposort_plugins_correct_witness:
  "\<exists>e. toposort_plugins [''a'', ''b''] (\<lambda>n. if n = ''a'' then ([''b''], [''b'']) else ([], [])) = Inl e \<and>
     (\<exists>cycle. e = PluginOrderingCycle cycle \<and> cycle \<noteq> [])"
proof -
  let ?cs = "\<lambda>n. if n = ''a'' then ([''b''], [''b'']) else ([], [])"
  have "toposort_plugins [''a'', ''b''] ?cs = Inl (PluginOrderingCycle [''a'', ''b''])" by code_simp
  then show ?thesis using toposort_plugins_correct [of "[''a'', ''b'']" ?cs] by auto
qed

section \<open>Inserting a plugin\<close>

lemma first_index_Some:
  "first_index P xs = Some i \<Longrightarrow> i < length xs \<and> P (xs ! i) \<and> (\<forall>x \<in> set (take i xs). \<not> P x)"
  by (induction xs arbitrary: i) (auto split: if_splits)

lemma first_index_None: "first_index P xs = None \<longleftrightarrow> (\<forall>x \<in> set xs. \<not> P x)"
  by (induction xs) auto

definition must_precede :: "'s middleware \<Rightarrow> 's middleware \<Rightarrow> bool" where
  "must_precede x m \<longleftrightarrow> mw_name x \<in> set (mw_must_run_after m) \<or> mw_name m \<in> set (mw_must_run_before x)"

lemma earliest_ok_fold:
  "e \<le> k \<Longrightarrow>
     (let r = foldl (\<lambda>e (i, x).
        let e1 = (if mw_name x \<in> set (mw_must_run_after m) then i + 1 else e)
        in if mw_name m \<in> set (mw_must_run_before x) then max e1 (i + 1) else e1) e (enumerate k xs)
      in r \<le> k + length xs \<and> e \<le> r \<and> (\<forall>j < length xs. must_precede (xs ! j) m \<longrightarrow> k + j < r))"
proof (induction xs arbitrary: e k)
  case (Cons x xs)
  let ?f = "\<lambda>e (i, x). let e1 = (if mw_name x \<in> set (mw_must_run_after m) then i + 1 else e)
        in if mw_name m \<in> set (mw_must_run_before x) then max e1 (i + 1) else e1"
  define e' where "e' = ?f e (k, x)"
  have e': "e' \<le> Suc k" "e \<le> e'" "must_precede x m \<Longrightarrow> k < e'"
    using Cons.prems by (auto simp: e'_def must_precede_def Let_def)
  have r: "foldl ?f e (enumerate k (x # xs)) = foldl ?f e' (enumerate (Suc k) xs)" by (simp add: e'_def)
  from Cons.IH [OF e'(1)] have ih: "foldl ?f e' (enumerate (Suc k) xs) \<le> Suc k + length xs"
    "e' \<le> foldl ?f e' (enumerate (Suc k) xs)"
    "\<forall>j < length xs. must_precede (xs ! j) m \<longrightarrow> Suc k + j < foldl ?f e' (enumerate (Suc k) xs)"
    by (simp_all add: Let_def)
  have "must_precede ((x # xs) ! j) m \<longrightarrow> k + j < foldl ?f e' (enumerate (Suc k) xs)"
    if "j < length (x # xs)" for j
    using that ih(2,3) e'(3) by (cases j) auto
  then show ?case unfolding r using ih(1,2) e'(2) by (simp add: Let_def)
qed simp

lemma earliest_ok_bound:
  "earliest_ok m chain \<le> length chain"
  "j < length chain \<Longrightarrow> must_precede (chain ! j) m \<Longrightarrow> j < earliest_ok m chain"
  using earliest_ok_fold [of 0 0 m chain] by (simp_all add: earliest_ok_def Let_def)

text \<open>
  C13. \<open>extend_pipeline_with_registry\<close> puts a plugin into its window: when the chain leaves
  room (nothing that has to come first stands behind something that has to come last), the
  plugin is inserted behind every middleware that must precede it and in front of every one
  that it must precede, and the rest of the chain keeps its order.
\<close>

theorem insert_plugin_window:
  assumes "\<And>l. latest_ok m chain = Some l \<Longrightarrow> earliest_ok m chain \<le> l"
  shows "\<exists>us vs. chain = us @ vs \<and> insert_plugin m chain = us @ m # vs \<and>
    (\<forall>x \<in> set us. mw_name x \<notin> set (mw_must_run_before m)) \<and> (\<forall>x \<in> set vs. \<not> must_precede x m)"
proof (cases "latest_ok m chain")
  case None
  then have "chain = chain @ [] \<and> insert_plugin m chain = chain @ m # [] \<and>
      (\<forall>x \<in> set chain. mw_name x \<notin> set (mw_must_run_before m)) \<and> (\<forall>x \<in> set []. \<not> must_precede x m)"
    by (simp add: insert_plugin_def) (simp add: latest_ok_def first_index_None)
  then show ?thesis by blast
next
  case (Some l)
  let ?e = "earliest_ok m chain"
  have le: "?e \<le> l" using assms [OF Some] .
  have free: "\<forall>x \<in> set (take l chain). mw_name x \<notin> set (mw_must_run_before m)"
    using first_index_Some [of _ chain l] Some by (auto simp: latest_ok_def)
  have "\<forall>x \<in> set (drop ?e chain). \<not> must_precede x m"
  proof
    fix x assume "x \<in> set (drop ?e chain)"
    then obtain j where "j < length chain - ?e" "x = chain ! (?e + j)"
      by (metis in_set_conv_nth length_drop nth_drop less_imp_le earliest_ok_bound(1))
    moreover from this have "?e + j < length chain" by linarith
    ultimately show "\<not> must_precede x m"
      using earliest_ok_bound(2) [of "?e + j" chain m] by auto
  qed
  moreover have "\<forall>x \<in> set (take ?e chain). mw_name x \<notin> set (mw_must_run_before m)"
    using free set_take_subset_set_take [OF le, of chain] by blast
  moreover have "insert_plugin m chain = take ?e chain @ m # drop ?e chain"
    by (simp add: insert_plugin_def Some le Let_def min_def)
  ultimately show ?thesis using append_take_drop_id [of ?e chain] by metis
qed

definition plain_middleware :: "string \<Rightarrow> string list \<Rightarrow> string list \<Rightarrow> 's middleware" where
  "plain_middleware n before after = \<lparr>mw_name = n, mw_kind = None, mw_must_run_before = before,
     mw_must_run_after = after, mw_call = (\<lambda>c s. CallNext c s (\<lambda>(r, c', s'). Return r c' s'))\<rparr>"

theorem insert_plugin_window_witness:
  "\<exists>us vs. [plain_middleware ''auth'' [''strict''] [], plain_middleware ''store_dispatch'' [] []] =
       us @ (vs :: unit middleware list) \<and>
     insert_plugin (plain_middleware ''strict'' [''store_dispatch''] [])
       [plain_middleware ''auth'' [''strict''] [], plain_middleware ''store_dispatch'' [] []] =
       us @ plain_middleware ''strict'' [''store_dispatch''] [] # vs"
  using insert_plugin_window [of "plain_middleware ''strict'' [''store_dispatch''] []"
      "[plain_middleware ''auth'' [''strict''] [], plain_middleware ''store_dispatch'' [] []] :: unit middleware list"]
  by (auto simp: latest_ok_def earliest_ok_def plain_middleware_def Let_def)

end
