(* ===== verification/Server_Properties.thy ===== *)
theory Server_Properties
  imports Chain_Properties Memory_Proofs
begin

text \<open>
  The default chain of a server, as \<open>build_default_pipeline\<close> makes it from an empty registry:
  \<open>auth\<close> in front of \<open>store_dispatch\<close>. What a call on it can do to the store, and in whose name.
\<close>

section \<open>The assembled chain\<close>

definition default_pipeline ::
  "py_env \<Rightarrow> (bytes \<Rightarrow> bytes \<Rightarrow> bytes \<Rightarrow> bool) \<Rightarrow> 'st store_port \<Rightarrow> 'st world pipeline"
where
  "default_pipeline env vs port =
     \<lparr>pl_middlewares = [auth_middleware env vs, store_dispatch env port],
      pl_terminal = store_dispatch_call env port\<rparr>"

lemma two_registered:
  "rg_factories (snd (rg_register ''store_dispatch'' d (snd (rg_register ''auth'' a registry_init)))) =
     [(''auth'', a), (''store_dispatch'', d)]"
  by (simp add: rg_register_def registry_init_def has_key_def)

lemma sort_two:
  "topological_sort [''auth'', ''store_dispatch'']
     (\<lambda>n. if n = ''auth'' then ([''rate_limit'', ''schema_validator'', ''idempotency'', ''store_dispatch''],
        [''namespace_resolver'']) else ([], [])) = Inr [''auth'', ''store_dispatch'']"
  by code_simp

lemma build_default_empty:
  "fst (build_default_pipeline env vs port registry_init) = Inr (default_pipeline env vs port)"
proof -
  let ?f = "[(''auth'', auth_middleware env vs), (''store_dispatch'', store_dispatch env port)]"
  have edges: "constraint_edges [''auth'', ''store_dispatch''] (mw_constraints ?f) =
      [(''auth'', ''store_dispatch'')]"
    by (simp add: constraint_edges_def node_edges_def mw_constraints_def auth_middleware_def
        store_dispatch_def)
  then have "topological_sort [''auth'', ''store_dispatch''] (mw_constraints ?f) =
      topological_sort [''auth'', ''store_dispatch'']
        (\<lambda>n. if n = ''auth'' then ([''rate_limit'', ''schema_validator'', ''idempotency'', ''store_dispatch''],
        [''namespace_resolver'']) else ([], []))"
    by (simp add: topological_sort_def kahn_sort_def constraint_edges_def node_edges_def)
  then show ?thesis
    using sort_two
    by (simp add: build_default_pipeline_def assemble_def two_registered default_order_def has_key_def
        default_pipeline_def Let_def)
qed

section \<open>Running the chain\<close>

definition call_ctx :: "string \<Rightarrow> string \<Rightarrow> pydict \<Rightarrow> string \<Rightarrow> pydict option \<Rightarrow> call_context" where
  "call_ctx fresh operation inp conn md = freeze_correlation_id (new_context fresh operation inp conn md)"

lemma call_ctx_fields [simp]:
  "cx_operation (call_ctx fresh operation inp conn md) = operation"
  "cx_input (call_ctx fresh operation inp conn md) = inp"
  "cx_metadata (call_ctx fresh operation inp conn md) = (case md of Some m \<Rightarrow> m | None \<Rightarrow> [])"
  "cx_agent_id (call_ctx fresh operation inp conn md) = None"
  "cx_connection_id (call_ctx fresh operation inp conn md) = conn"
  by (simp_all add: call_ctx_def freeze_correlation_id_def new_context_def Let_def)

text \<open>What the response and the world are, once \<open>auth\<close> has decided.\<close>

fun finish :: "py_env \<Rightarrow> 'st store_port \<Rightarrow> 'st world act \<Rightarrow> pydict \<times> 'st world" where
  "finish env port (Return r c w) = (recover r, w)"
| "finish env port (CallNext c w k) =
     (case store_dispatch_call env port c w of (r, c', w') \<Rightarrow> (recover r, w'))"

definition chain_result ::
  "py_env \<Rightarrow> (bytes \<Rightarrow> bytes \<Rightarrow> bytes \<Rightarrow> bool) \<Rightarrow> 'st store_port \<Rightarrow> call_context \<Rightarrow> 'st world \<Rightarrow>
     pydict \<times> 'st world"
where
  "chain_result env vs port c w = finish env port (auth_call env vs c w)"

lemma auth_call_cases:
  "(\<exists>r c' w'. auth_call env vs c w = Return r c' w') \<or>
   (\<exists>c' w'. auth_call env vs c w = CallNext c' w' (\<lambda>(r, c, w'). Return r c w'))"
  by (simp add: auth_call_def Let_def split: option.split sum.split prod.split)

lemma call_chain_default:
  obtains r c' t' where
    "call_chain [auth_middleware env vs, store_dispatch env port] i terminal c w t =
       (r, c', snd (chain_result env vs port c w), t')"
    "recover r = fst (chain_result env vs port c w)"
proof -
  have call: "mw_call (auth_middleware env vs) = auth_call env vs"
    "mw_call (store_dispatch env port) c1 w1 =
       (case store_dispatch_call env port c1 w1 of (r, c', w') \<Rightarrow> Return r c' w')" for c1 w1
    by (simp_all add: auth_middleware_def store_dispatch_def)
  show thesis
    using auth_call_cases [of env vs c w]
  proof
    assume "\<exists>r c' w'. auth_call env vs c w = Return r c' w'"
    then obtain r c' w' where "auth_call env vs c w = Return r c' w'" by blast
    then show thesis by (intro that [of r c']) (simp_all add: call chain_result_def)
  next
    assume "\<exists>c' w'. auth_call env vs c w = CallNext c' w' (\<lambda>(r, c, w'). Return r c w')"
    then obtain c1 w1 where a: "auth_call env vs c w = CallNext c1 w1 (\<lambda>(r, c, w'). Return r c w')" by blast
    obtain r c' w' where d: "store_dispatch_call env port c1 w1 = (r, c', w')" by (rule prod_cases3)
    show thesis by (intro that [of r c']) (simp_all add: call chain_result_def a d)
  qed
qed

lemma dispatch_default:
  obtains corr t where
    "dispatch (default_pipeline env vs port) fresh operation inp conn md w =
       (attach_trace (fst (chain_result env vs port (call_ctx fresh operation inp conn md) w)) t corr,
        t, snd (chain_result env vs port (call_ctx fresh operation inp conn md) w))"
proof -
  let ?c = "call_ctx fresh operation inp conn md"
  let ?t = "map (new_entry (cx_correlation_id ?c)) [auth_middleware env vs, store_dispatch env port]"
  obtain r c' t' where
    "call_chain [auth_middleware env vs, store_dispatch env port] 0 (store_dispatch_call env port) ?c w ?t =
       (r, c', snd (chain_result env vs port ?c w), t')" "recover r = fst (chain_result env vs port ?c w)"
    by (rule call_chain_default)
  then show thesis
    by (intro that [of t' "cx_correlation_id ?c"])
      (simp add: dispatch_def default_pipeline_def call_ctx_def [symmetric] Let_def
        del: call_chain.simps)
qed

lemma attach_trace_get:
  "k \<noteq> ''metadata'' \<Longrightarrow> dget (attach_trace r t corr) k = dget r k"
  by (simp add: attach_trace_def Let_def)

lemma dispatch_default_response:
  "k \<noteq> ''metadata'' \<Longrightarrow>
     dget (fst (dispatch (default_pipeline env vs port) fresh operation inp conn md w)) k =
     dget (fst (chain_result env vs port (call_ctx fresh operation inp conn md) w)) k"
  by (rule dispatch_default [of env vs port fresh operation inp conn md w])
    (metis attach_trace_get fst_conv)

lemma dispatch_default_world:
  "snd (snd (dispatch (default_pipeline env vs port) fresh operation inp conn md w)) =
     snd (chain_result env vs port (call_ctx fresh operation inp conn md) w)"
  by (rule dispatch_default [of env vs port fresh operation inp conn md w]) (metis snd_conv)

section \<open>The gate\<close>

text \<open>The credential of a call: the one the transport has put into the metadata, else the input's.\<close>

definition credential_of :: "pydict option \<Rightarrow> pydict \<Rightarrow> signed_request option" where
  "credential_of md inp =
     (case dget (case md of Some m \<Rightarrow> m | None \<Rightarrow> []) ''_connection_credential'' of
        Some (PSigned r) \<Rightarrow> Some r
      | _ \<Rightarrow> (case dget inp ''signed_request'' of Some (PSigned r) \<Rightarrow> Some r | _ \<Rightarrow> None))"

lemma resolve_credential_of:
  "fst (resolve_credential (call_ctx fresh operation inp conn md)) = credential_of md inp"
  by (simp add: resolve_credential_def credential_of_def split: option.split pyval.split)

lemma bind_for_send_reject:
  assumes "nonces_ok v" and "\<not> acceptable vs now req v"
  shows "\<exists>kind reason v'. bind_for_send vs now anow req inp v = (Inl (IdentityFailure kind reason), v')"
  by (cases rule: vf_verify_outcome [OF assms(1), of vs now req anow "''send''" None])
    (use assms(2) in \<open>simp_all add: bind_for_send_def\<close>)

lemma vf_verify_reject:
  assumes "nonces_ok v" and "\<not> acceptable vs now req v"
  shows "\<exists>kind reason v'. vf_verify vs now anow req operation conn v = (Inl (IdentityFailure kind reason), v')"
  by (cases rule: vf_verify_outcome [OF assms(1), of vs now req anow operation conn])
    (use assms(2) in simp_all)

lemma recover_identity [simp]:
  "dget (recover (Inl (ShortCircuit (make_identity_error reason)))) ''error_code'' = Some (PStr ''identity_failure'')"
  by (simp add: recover_def make_identity_error_def)

lemma auth_gate:
  assumes "nonces_ok (wd_verifier w)" and "cx_operation c \<in> identity_enforced_operations"
    and "\<And>req. fst (resolve_credential c) = Some req \<Longrightarrow> \<not> acceptable vs (wd_now w) req (wd_verifier w)"
  shows "\<exists>reason c' v'. auth_call env vs c w =
    Return (Inl (ShortCircuit (make_identity_error reason))) c' (w\<lparr>wd_verifier := v'\<rparr>)"
proof (cases "resolve_credential c")
  case (Pair o_req c1)
  show ?thesis
  proof (cases o_req)
    case None
    then show ?thesis
      using assms(2) Pair by (auto simp: auth_call_def Let_def intro: exI [where x = "wd_verifier w"])
  next
    case (Some req)
    then have bad: "\<not> acceptable vs (wd_now w) req (wd_verifier w)" using assms(3) Pair by simp
    show ?thesis
    proof (cases "cx_operation c = ''send''")
      case True
      then show ?thesis
        using bind_for_send_reject [OF assms(1) bad, of "wd_now w" "cx_input c1"] assms(2) Pair Some
        by (auto simp: auth_call_def short_circuit_identity_def)
    next
      case False
      then show ?thesis
        using vf_verify_reject [OF assms(1) bad, of "wd_now w" "cx_operation c" "Some (cx_connection_id c1)"]
          assms(2) Pair Some
        by (auto simp: auth_call_def short_circuit_identity_def Let_def)
    qed
  qed
qed

text \<open>
  C4. The identity gate: on the default chain, a \<open>send\<close>, \<open>recv\<close>, \<open>subscribe\<close> or \<open>list_agents\<close>
  without a credential, or with one the verifier does not accept, is answered with an
  \<open>identity_failure\<close> and leaves the store untouched, whatever store is configured.
\<close>

theorem default_chain_gate:
  assumes "fst (build_default_pipeline env vs port registry_init) = Inr p"
    and "nonces_ok (wd_verifier w)" and "operation \<in> identity_enforced_operations"
    and "\<And>req. credential_of md inp = Some req \<Longrightarrow> \<not> acceptable vs (wd_now w) req (wd_verifier w)"
  shows "dget (fst (dispatch p fresh operation inp conn md w)) ''error_code'' =
      Some (PStr ''identity_failure'') \<and>
    wd_store (snd (snd (dispatch p fresh operation inp conn md w))) = wd_store w"
proof -
  have p: "p = default_pipeline env vs port" using assms(1) by (simp add: build_default_empty)
  let ?c = "call_ctx fresh operation inp conn md"
  obtain reason c' v' where "auth_call env vs ?c w =
      Return (Inl (ShortCircuit (make_identity_error reason))) c' (w\<lparr>wd_verifier := v'\<rparr>)"
    using auth_gate [OF assms(2), of ?c vs env] assms(3,4) resolve_credential_of by fastforce
  then have "chain_result env vs port ?c w =
      (recover (Inl (ShortCircuit (make_identity_error reason))), w\<lparr>wd_verifier := v'\<rparr>)"
    by (simp add: chain_result_def)
  then show ?thesis
    by (simp add: p dispatch_default_response dispatch_default_world)
qed

text \<open>A world with one registered agent and the toy signature scheme.\<close>

definition toy_env :: py_env where
  "toy_env = \<lparr>pe_repr = (\<lambda>v. []), pe_float = (\<lambda>s. Inl (ValueError s))\<rparr>"

definition toy_world :: "memory_store \<Rightarrow> memory_store world" where
  "toy_world s = \<lparr>wd_now = 0, wd_verifier = toy_verifier, wd_store = s, wd_log = []\<rparr>"

lemma toy_acceptable: "acceptable toy_scheme 0 (toy_request 0) (wd_verifier (toy_world s))"
  by (simp add: toy_world_def acceptable_def credential_valid_def nonce_free_def)

lemma toy_nonces: "nonces_ok (wd_verifier (toy_world s))"
  by (simp add: toy_world_def nonces_ok_def)

theorem default_chain_gate_witness:
  "dget (fst (dispatch (default_pipeline toy_env toy_scheme memory_port) ''u'' ''recv'' [] ''conn'' None
     (toy_world memory_init))) ''error_code'' = Some (PStr ''identity_failure'')"
  using default_chain_gate [OF build_default_empty toy_nonces, of "''recv''" None "[]" toy_scheme]
  by (simp add: identity_enforced_operations_def credential_of_def)

section \<open>Accepted calls\<close>

lemma resolve_credential_input:
  "resolve_credential c = (o_req, c1) \<Longrightarrow>
     cx_agent_id c1 = cx_agent_id c \<and> cx_operation c1 = cx_operation c \<and> cx_metadata c1 = cx_metadata c \<and>
     (cx_input c1 = cx_input c \<or> cx_input c1 = dpop (cx_input c) ''signed_request'')"
  by (auto simp: resolve_credential_def split: option.splits pyval.splits)

lemma vf_verify_accepted:
  assumes "nonces_ok v" and "registry_ok (vf_registry v)" and "acceptable vs now req v"
  obtains v' where "\<And>anow operation conn. vf_verify vs now anow req operation conn v =
    (Inr \<lparr>vi_agent_id = sr_agent_id req, vi_verified_at = now, vi_connection_id = conn,
       vi_origin_server = None\<rparr>, v')"
proof -
  have "vf_verify vs now anow req operation conn v =
    (Inr \<lparr>vi_agent_id = sr_agent_id req, vi_verified_at = now, vi_connection_id = conn,
       vi_origin_server = None\<rparr>, snd (check_and_insert_nonce (sr_nonce req) now v))" for anow operation conn
    by (cases rule: vf_verify_outcome [OF assms(1), of vs now req anow operation conn])
      (use assms(2,3) in \<open>auto simp: registry_ok_def\<close>)
  then show thesis by (rule that)
qed

lemma dget_dupdate:
  "distinct (map fst e) \<Longrightarrow> dget (dupdate d e) k = (case dget e k of Some v \<Rightarrow> Some v | None \<Rightarrow> dget d k)"
proof (induction e arbitrary: d)
  case (Cons kv e)
  obtain k0 v0 where kv: "kv = (k0, v0)" by fastforce
  have "dupdate d (kv # e) = dupdate (dset d k0 v0) e" by (simp add: dupdate_def kv)
  moreover have "map_of e k0 = None" using Cons.prems kv by (simp add: map_of_eq_None_iff)
  ultimately show ?case using Cons by (auto simp: kv split: option.splits)
qed (simp add: dupdate_def)

text \<open>What \<open>auth\<close> passes on for an accepted \<open>send\<close>: the certified sender.\<close>

lemma auth_send_accepted:
  assumes v: "nonces_ok (wd_verifier w)" "registry_ok (vf_registry (wd_verifier w))"
    and op: "cx_operation c = ''send''" and agent: "cx_agent_id c = None" and d: "distinct (map fst (cx_input c))"
    and cred: "fst (resolve_credential c) = Some req" "acceptable vs (wd_now w) req (wd_verifier w)"
    and name: "strip (sr_agent_id req) \<noteq> []"
  obtains c' v' where "auth_call env vs c w = CallNext c' (w\<lparr>wd_verifier := v'\<rparr>) (\<lambda>(r, c, w'). Return r c w')"
    "dget (cx_input c') ''sender'' = Some (PStr (sr_agent_id req))" "cx_operation c' = ''send''"
    "\<forall>k. k \<notin> {''sender'', ''origin_server'', ''signed_request''} \<longrightarrow> dget (cx_input c') k = dget (cx_input c) k"
proof -
  obtain c1 where c1: "resolve_credential c = (Some req, c1)" using cred(1) by (metis prod.collapse)
  note in1 = resolve_credential_input [OF c1]
  obtain v' where ver: "\<And>anow operation conn. vf_verify vs (wd_now w) anow req operation conn (wd_verifier w) =
    (Inr \<lparr>vi_agent_id = sr_agent_id req, vi_verified_at = wd_now w, vi_connection_id = conn,
       vi_origin_server = None\<rparr>, v')" using vf_verify_accepted [OF v cred(2)] by blast
  let ?upd = "dset (dset (cx_input c1) ''sender'' (PStr (sr_agent_id req))) ''origin_server'' PNone"
  have bind: "bind_for_send vs (wd_now w) (wd_now w) req (cx_input c1) (wd_verifier w) = (Inr ?upd, v')"
    by (simp add: bind_for_send_def ver opt_str_def)
  have "distinct (map fst (cx_input c1))" using d in1 by (auto simp: distinct_delete)
  then have "distinct (map fst ?upd)" by (simp add: distinct_update)
  then have "dget (dupdate (cx_input c1) ?upd) ''sender'' = Some (PStr (sr_agent_id req))"
    by (simp add: dget_dupdate)
  moreover have "dget (dupdate (cx_input c1) ?upd) k = dget (cx_input c) k"
    if "k \<notin> {''sender'', ''origin_server'', ''signed_request''}" for k
    using that \<open>distinct (map fst ?upd)\<close> in1 by (auto simp: dget_dupdate split: option.split)
  moreover have "sr_agent_id req \<noteq> []" using cred(2) by (auto simp: acceptable_def credential_valid_def)
  ultimately show thesis
    using that [of "c1\<lparr>cx_input := dupdate (cx_input c1) ?upd, cx_agent_id := Some (sr_agent_id req)\<rparr>" v']
      op agent name in1
    by (simp add: auth_call_def identity_enforced_operations_def c1 bind dget_default_def set_agent_id_def Let_def)
qed

text \<open>
  C5. The sender is certified: an accepted \<open>send\<close> on the default chain stores exactly one new
  message, and its sender is the agent whose registered key verified the request, whatever
  sender the input names.
\<close>

theorem default_chain_sender:
  assumes "fst (build_default_pipeline env vs memory_port registry_init) = Inr p"
    and "nonces_ok (wd_verifier w)" and "registry_ok (vf_registry (wd_verifier w))"
    and "distinct (map fst inp)" and "credential_of md inp = Some req"
    and "acceptable vs (wd_now w) req (wd_verifier w)" and "strip (sr_agent_id req) \<noteq> []"
  shows "\<exists>m. ms_messages (wd_store (snd (snd (dispatch p fresh ''send'' inp conn md w)))) =
      ms_messages (wd_store w) @ [m] \<and> mm_sender m = sr_agent_id req"
proof -
  have p: "p = default_pipeline env vs memory_port" using assms(1) by (simp add: build_default_empty)
  let ?c = "call_ctx fresh ''send'' inp conn md"
  obtain c' v' where
    a: "auth_call env vs ?c w = CallNext c' (w\<lparr>wd_verifier := v'\<rparr>) (\<lambda>(r, c, w'). Return r c w')"
    "dget (cx_input c') ''sender'' = Some (PStr (sr_agent_id req))" "cx_operation c' = ''send''"
    by (rule auth_send_accepted [OF assms(2,3), of ?c req vs env])
      (simp_all add: assms(4-7) resolve_credential_of that)
  then show ?thesis
    by (simp add: p dispatch_default_world chain_result_def store_dispatch_call_def store_call_def
        op_send_def memory_port_def ok_call_def respond_def mem_send_def mem_append_def dget_default_def
        split_beta Let_def)
qed

theorem default_chain_sender_witness:
  "\<exists>m. ms_messages (wd_store (snd (snd (dispatch (default_pipeline toy_env toy_scheme memory_port) ''u'' ''send''
      [(''sender'', PStr ''alice''), (''signed_request'', PSigned (toy_request 0))] ''conn'' None
      (toy_world memory_init))))) = ms_messages memory_init @ [m] \<and> mm_sender m = ''a''"
  using default_chain_sender [OF build_default_empty, of "toy_world memory_init"
      "[(''sender'', PStr ''alice''), (''signed_request'', PSigned (toy_request 0))]" None "toy_request 0"
      toy_scheme toy_env "''u''" "''conn''"] toy_acceptable [of memory_init]
  by (simp add: toy_world_def nonces_ok_def registry_ok_def toy_key_def credential_of_def strip_def lstrip_def
      rstrip_def py_isspace_def)

lemma auth_other_accepted:
  assumes v: "nonces_ok (wd_verifier w)" "registry_ok (vf_registry (wd_verifier w))"
    and op: "cx_operation c \<in> identity_enforced_operations" "cx_operation c \<noteq> ''send''"
    and agent: "cx_agent_id c = None"
    and cred: "fst (resolve_credential c) = Some req" "acceptable vs (wd_now w) req (wd_verifier w)"
    and name: "strip (sr_agent_id req) \<noteq> []"
  obtains c' v' where "auth_call env vs c w = CallNext c' (w\<lparr>wd_verifier := v'\<rparr>) (\<lambda>(r, c, w'). Return r c w')"
    "cx_input c' = cx_input c \<or> cx_input c' = dpop (cx_input c) ''signed_request''"
    "cx_agent_id c' = Some (sr_agent_id req)" "cx_operation c' = cx_operation c"
proof -
  obtain c1 where c1: "resolve_credential c = (Some req, c1)" using cred(1) by (metis prod.collapse)
  note in1 = resolve_credential_input [OF c1]
  obtain v' where ver: "\<And>anow operation conn. vf_verify vs (wd_now w) anow req operation conn (wd_verifier w) =
    (Inr \<lparr>vi_agent_id = sr_agent_id req, vi_verified_at = wd_now w, vi_connection_id = conn,
       vi_origin_server = None\<rparr>, v')" using vf_verify_accepted [OF v cred(2)] by blast
  have "sr_agent_id req \<noteq> []" using cred(2) by (auto simp: acceptable_def credential_valid_def)
  then show thesis
    using that [of "c1\<lparr>cx_agent_id := Some (sr_agent_id req)\<rparr>" v'] op agent name in1
    by (simp add: auth_call_def c1 ver set_agent_id_def Let_def)
qed

text \<open>
  C16. Whose mailbox an accepted \<open>recv\<close> drains: the one the input names in \<open>agent_id\<close>, and only
  when the input has no such field the verified agent's. An authenticated agent thus reads,
  and marks as delivered, the messages of any other agent it names.
\<close>

theorem default_chain_recv_mailbox:
  assumes "fst (build_default_pipeline env vs memory_port registry_init) = Inr p"
    and "nonces_ok (wd_verifier w)" and "registry_ok (vf_registry (wd_verifier w))"
    and "credential_of md inp = Some req"
    and "acceptable vs (wd_now w) req (wd_verifier w)" and "strip (sr_agent_id req) \<noteq> []"
    and "dget inp ''channels'' = None" and "dget inp ''max_messages'' = Some (PInt n)"
    and "a = (case dget inp ''agent_id'' of Some v \<Rightarrow> py_str (pe_repr env) v | None \<Rightarrow> sr_agent_id req)"
  shows "wd_store (snd (snd (dispatch p fresh ''recv'' inp conn md w))) =
      snd (mem_recv a None n (wd_store w)) \<and>
    dget (fst (dispatch p fresh ''recv'' inp conn md w)) ''messages'' =
      Some (msgs_value (number_messages (fst (mem_recv a None n (wd_store w)))))"
proof -
  have p: "p = default_pipeline env vs memory_port" using assms(1) by (simp add: build_default_empty)
  let ?c = "call_ctx fresh ''recv'' inp conn md"
  obtain c' v' where
    c': "auth_call env vs ?c w = CallNext c' (w\<lparr>wd_verifier := v'\<rparr>) (\<lambda>(r, c, w'). Return r c w')"
    "cx_input c' = inp \<or> cx_input c' = dpop inp ''signed_request''"
    "cx_agent_id c' = Some (sr_agent_id req)" "cx_operation c' = ''recv''"
    using auth_other_accepted [OF assms(2,3), of ?c req vs env] assms(4-6) resolve_credential_of
    by (auto simp: identity_enforced_operations_def)
  have get: "dget (cx_input c') k = dget inp k" if "k \<noteq> ''signed_request''" for k
    using c'(2) that by auto
  have "sr_agent_id req \<noteq> []" using assms(5) by (auto simp: acceptable_def credential_valid_def)
  then have agent: "resolve_agent_id env (cx_input c') c' = a"
    using get [of "''agent_id''"] assms(9) c'(3) by (simp add: resolve_agent_id_def split: option.split)
  have "store_dispatch_call env memory_port c' (w\<lparr>wd_verifier := v'\<rparr>) =
      (Inr (recv_response (wd_now w) (fst (mem_recv a None n (wd_store w)))), c',
       w\<lparr>wd_verifier := v', wd_store := snd (mem_recv a None n (wd_store w))\<rparr>)"
    using get [of "''channels''"] get [of "''max_messages''"] assms(7,8) agent c'(4)
    by (simp add: store_dispatch_call_def store_call_def op_recv_def get_str_list_def dget_default_def
        int_or_def with_arg_def memory_port_def ok_call_def respond_def Let_def)
  then have "chain_result env vs memory_port ?c w =
      (recv_response (wd_now w) (fst (mem_recv a None n (wd_store w))),
       w\<lparr>wd_verifier := v', wd_store := snd (mem_recv a None n (wd_store w))\<rparr>)"
    by (simp add: chain_result_def c'(1) recover_def)
  then show ?thesis
    by (simp add: p dispatch_default_response dispatch_default_world recv_response_def)
qed

theorem default_chain_recv_mailbox_witness:
  "wd_store (snd (snd (dispatch (default_pipeline toy_env toy_scheme memory_port) ''u'' ''recv''
      [(''agent_id'', PStr ''alice''), (''max_messages'', PInt 5), (''signed_request'', PSigned (toy_request 0))]
      ''conn'' None (toy_world memory_init)))) = snd (mem_recv ''alice'' None 5 memory_init)"
  using default_chain_recv_mailbox [OF build_default_empty, of "toy_world memory_init" None
      "[(''agent_id'', PStr ''alice''), (''max_messages'', PInt 5), (''signed_request'', PSigned (toy_request 0))]"
      "toy_request 0" toy_scheme 5 _ toy_env "''u''" "''conn''", OF _ _ _ _ _ _ _ refl]
    toy_acceptable [of memory_init]
  by (simp add: toy_world_def nonces_ok_def registry_ok_def toy_key_def credential_of_def strip_def lstrip_def
      rstrip_def py_isspace_def)

end
