(* ===== verification/Enforcer.thy ===== *)
theory Enforcer
  imports Sqlite_Store
begin

text \<open>
  The cadence enforcer (\<open>core/enforcer\<close>) and the hook command that drives it
  (\<open>enforcer/cli.py\<close>). Events, the policy and the per-agent counters are records; \<open>decide\<close> is
  the pure decision function, \<open>state_store\<close> the table of counters, \<open>run_hook\<close> one invocation
  of the hook: it may beat the agent's heartbeat or look into its inbox (both in the message
  database), then loads the counters, decides and applies the event.
\<close>

section \<open>Events, decisions and policy (events.py, policy.py)\<close>

datatype event_type = ToolUsed | ChannelSend | ChannelRecv | TurnStarted | StopRequested

text \<open>\<open>ev_tool_name\<close> is a string or None, or what else the hook's JSON holds there.\<close>

record event =
  ev_event_type :: event_type
  ev_agent_id :: agent
  ev_timestamp :: time
  ev_tool_name :: pyval
  ev_metadata :: pydict

datatype action = Noop | Inject | Block

record decision =
  dc_action :: action
  dc_message :: "string option"
  dc_reason :: "string option"

definition noop :: "string \<Rightarrow> decision" where
  "noop reason = \<lparr>dc_action = Noop, dc_message = None, dc_reason = Some reason\<rparr>"

definition inject :: "string \<Rightarrow> string \<Rightarrow> decision" where
  "inject message reason = \<lparr>dc_action = Inject, dc_message = Some message, dc_reason = Some reason\<rparr>"

definition block :: "string \<Rightarrow> string \<Rightarrow> decision" where
  "block message reason = \<lparr>dc_action = Block, dc_message = Some message, dc_reason = Some reason\<rparr>"

record policy =
  po_reminder_threshold_tool_calls :: int
  po_reminder_threshold_turns :: int
  po_force_drain_on_stop :: bool
  po_send_followed_by_idle_turns :: int
  po_suspect_send_and_wait :: bool
  po_reminder_text_drain :: string
  po_reminder_text_drain_on_stop :: string
  po_reminder_text_send_and_wait :: string

definition default_policy :: policy where
  "default_policy =
     \<lparr>po_reminder_threshold_tool_calls = 5, po_reminder_threshold_turns = 3,
      po_force_drain_on_stop = True, po_send_followed_by_idle_turns = 3,
      po_suspect_send_and_wait = True,
      po_reminder_text_drain =
        ''You have not checked the channels inbox in a while. '' @
        ''Call {{recv_tool}} before continuing if you may be waiting on input.'',
      po_reminder_text_drain_on_stop =
        ''Inbox not drained. Call {{recv_tool}} and integrate any messages '' @
        ''before completing the task.'',
      po_reminder_text_send_and_wait =
        ''You sent a message and have not made progress. Per the discipline, '' @
        ''continue under your best-guess interpretation while awaiting reply. '' @
        ''Drain the inbox at the next major decision.''\<rparr>"

section \<open>Counters (state.py)\<close>

record enf_state =
  es_schema_version :: string
  es_agent_id :: agent
  es_tool_calls_since_drain :: int
  es_last_drain_ts :: "time option"
  es_last_send_ts :: "time option"
  es_sends_since_last_drain :: int
  es_turns_since_last_drain :: int

definition cold_state :: "agent \<Rightarrow> enf_state" where
  "cold_state a = \<lparr>es_schema_version = ''1.0'', es_agent_id = a, es_tool_calls_since_drain = 0,
     es_last_drain_ts = None, es_last_send_ts = None, es_sends_since_last_drain = 0,
     es_turns_since_last_drain = 0\<rparr>"

text \<open>The table \<open>enforcer_state\<close>, keyed by agent, behind a connection.\<close>

record state_store =
  ss_conn :: bool
  ss_rows :: "(agent \<times> enf_state) list"

definition ss_open :: "state_store \<Rightarrow> state_store" where
  "ss_open s = s\<lparr>ss_conn := True\<rparr>"

definition ss_close :: "state_store \<Rightarrow> state_store" where
  "ss_close s = (if ss_conn s then s\<lparr>ss_conn := False\<rparr> else s)"

definition ss_require_conn :: "state_store \<Rightarrow> unit result" where
  "ss_require_conn s = (if ss_conn s then Inr () else Inl (RuntimeError
     ''StateStore is not open; call open() or use as async context manager.''))"

definition select_state :: "agent \<Rightarrow> state_store \<Rightarrow> enf_state" where
  "select_state a s =
     (case dget (ss_rows s) a of None \<Rightarrow> cold_state a | Some row \<Rightarrow> row\<lparr>es_agent_id := a\<rparr>)"

definition upsert_state :: "enf_state \<Rightarrow> state_store \<Rightarrow> state_store" where
  "upsert_state st s = s\<lparr>ss_rows := dset (ss_rows s) (es_agent_id st) st\<rparr>"

definition ss_load :: "agent \<Rightarrow> state_store \<Rightarrow> enf_state result" where
  "ss_load a s = bind_res (ss_require_conn s) (\<lambda>_. Inr (select_state a s))"

definition ss_save :: "enf_state \<Rightarrow> state_store \<Rightarrow> unit result \<times> state_store" where
  "ss_save st s = (case ss_require_conn s of Inl e \<Rightarrow> (Inl e, s) | Inr _ \<Rightarrow> (Inr (), upsert_state st s))"

fun mutate :: "event_type \<Rightarrow> time \<Rightarrow> enf_state \<Rightarrow> enf_state" where
  "mutate ChannelRecv ts st = st\<lparr>es_tool_calls_since_drain := 0, es_sends_since_last_drain := 0,
     es_turns_since_last_drain := 0, es_last_drain_ts := Some ts\<rparr>"
| "mutate ToolUsed ts st = st\<lparr>es_tool_calls_since_drain := es_tool_calls_since_drain st + 1\<rparr>"
| "mutate ChannelSend ts st = st\<lparr>es_last_send_ts := Some ts,
     es_sends_since_last_drain := es_sends_since_last_drain st + 1\<rparr>"
| "mutate TurnStarted ts st = st\<lparr>es_turns_since_last_drain := es_turns_since_last_drain st + 1\<rparr>"
| "mutate StopRequested ts st = st"

text \<open>\<open>apply_event\<close> runs inside \<open>BEGIN IMMEDIATE\<close>: load, change and save are one step.\<close>

definition apply_event :: "agent \<Rightarrow> event_type \<Rightarrow> time \<Rightarrow> state_store \<Rightarrow> enf_state result \<times> state_store" where
  "apply_event a et ts s =
     (case ss_require_conn s of Inl e \<Rightarrow> (Inl e, s)
      | Inr _ \<Rightarrow> (let st = mutate et ts (select_state a s) in (Inr st, upsert_state st s)))"

section \<open>The decision function (decide.py)\<close>

definition recv_tool_names :: "string list" where
  "recv_tool_names = [''channels__recv'', ''mcp__sox__channels__recv'']"

definition send_tool_names :: "string list" where
  "send_tool_names = [''channels__send'', ''mcp__sox__channels__send'']"

text \<open>\<open>v in names\<close> for a set of strings and a hashable \<open>v\<close>.\<close>

fun named_in :: "pyval \<Rightarrow> string list \<Rightarrow> bool" where
  "named_in (PStr s) names = (s \<in> set names)"
| "named_in v names = False"

definition decide :: "event \<Rightarrow> enf_state \<Rightarrow> policy \<Rightarrow> decision" where
  "decide e st po =
     (case ev_event_type e of
        ToolUsed \<Rightarrow>
          if named_in (ev_tool_name e) recv_tool_names then noop ''channel_recv resets counters''
          else let new_count = es_tool_calls_since_drain st + 1
               in if new_count \<ge> po_reminder_threshold_tool_calls po
                  then inject (po_reminder_text_drain po)
                    (''tool_calls_since_drain '' @ str_int new_count @
                     '' >= reminder_threshold_tool_calls '' @ str_int (po_reminder_threshold_tool_calls po))
                  else noop (''tool_calls_since_drain will be '' @ str_int new_count)
      | ChannelRecv \<Rightarrow> noop ''channel_recv resets counters''
      | ChannelSend \<Rightarrow>
          if po_suspect_send_and_wait po \<and> es_sends_since_last_drain st > 0 \<and>
             es_turns_since_last_drain st \<ge> po_send_followed_by_idle_turns po
          then inject (po_reminder_text_send_and_wait po)
            (''sends_since_last_drain='' @ str_int (es_sends_since_last_drain st) @
             '', turns_since_last_drain='' @ str_int (es_turns_since_last_drain st) @
             '' >= send_followed_by_idle_turns='' @ str_int (po_send_followed_by_idle_turns po))
          else noop ''channel_send recorded''
      | StopRequested \<Rightarrow>
          let inbox_non_empty = (case dget (ev_metadata e) ''inbox_non_empty'' of
                Some v \<Rightarrow> truthy v
              | None \<Rightarrow> es_sends_since_last_drain st > 0)
          in if inbox_non_empty \<and> po_force_drain_on_stop po
             then block (po_reminder_text_drain_on_stop po)
               ''stop_requested with non-empty inbox and force_drain_on_stop=True''
             else noop ''stop_requested; inbox empty or force_drain_on_stop=False''
      | TurnStarted \<Rightarrow>
          let new_turns = es_turns_since_last_drain st + 1
          in if new_turns \<ge> po_reminder_threshold_turns po
             then inject (po_reminder_text_drain po)
               (''turns_since_last_drain '' @ str_int new_turns @
                '' >= reminder_threshold_turns '' @ str_int (po_reminder_threshold_turns po))
             else noop (''turns_since_last_drain will be '' @ str_int new_turns))"

section \<open>The hook command (cli.py)\<close>

type_synonym os_env = "(string \<times> string) list"

text \<open>
  The two files a hook works on: the counters and the message database of the server. The
  connections of the hook are closed again when it ends.
\<close>

record hook_world =
  hw_state :: state_store
  hw_store :: sqlite_store

definition resolve_backing_store_url :: "os_env \<Rightarrow> string" where
  "resolve_backing_store_url env = dget_default env ''SOX_BACKING_STORE'' ''memory://''"

definition resolve_sqlite_path :: "string \<Rightarrow> string option" where
  "resolve_sqlite_path url =
     (if \<not> starts_with url ''sqlite://'' then None
      else let raw_path = drop (length ''sqlite://'') url
           in if raw_path = '':memory:'' \<or> raw_path = ''/:memory:'' then None
              else if raw_path = [] then None
              else Some raw_path)"

text \<open>The check of the inbox is a \<open>recv\<close> of one message; nothing puts the message back.\<close>

definition inbox_non_empty :: "os_env \<Rightarrow> agent \<Rightarrow> hook_world \<Rightarrow> bool \<times> hook_world" where
  "inbox_non_empty env a w =
     (let url = resolve_backing_store_url env
      in if starts_with url ''memory://'' then (False, w)
         else case resolve_sqlite_path url of
           None \<Rightarrow> (False, w)
         | Some db_path \<Rightarrow>
             (case sq_recv a None 1 (sq_initialize (hw_store w)) of
                (Inl e, s) \<Rightarrow> (False, w\<lparr>hw_store := sq_close s\<rparr>)
              | (Inr messages, s) \<Rightarrow> (length messages > 0, w\<lparr>hw_store := sq_close s\<rparr>)))"

definition auto_heartbeat_ttl :: int where
  "auto_heartbeat_ttl = 60"

definition auto_heartbeat :: "os_env \<Rightarrow> time \<Rightarrow> time \<Rightarrow> agent \<Rightarrow> hook_world \<Rightarrow> hook_world" where
  "auto_heartbeat env now sent_at a w =
     (if a = [] \<or> a = ''unknown-agent'' then w
      else case resolve_sqlite_path (resolve_backing_store_url env) of
        None \<Rightarrow> w
      | Some db_path \<Rightarrow>
          w\<lparr>hw_store := sq_close (snd (sq_heartbeat now sent_at a ''online''
              (Some auto_heartbeat_ttl) (sq_initialize (hw_store w))))\<rparr>)"

definition extract_agent_id :: "os_env \<Rightarrow> pydict \<Rightarrow> agent" where
  "extract_agent_id env hook_data =
     (case filter (\<lambda>v. truthy v \<and> is_str v)
             (map (\<lambda>k. dget_default hook_data k PNone) [''agent_name'', ''session_id'', ''agentName'']) of
        PStr s # _ \<Rightarrow> s
      | _ \<Rightarrow>
          (case filter (\<lambda>s. s \<noteq> []) (List.map_filter (dget env) [''CLAUDE_AGENT_NAME'', ''SOX_AGENT_ID'']) of
             s # _ \<Rightarrow> s
           | [] \<Rightarrow> ''unknown-agent''))"

text \<open>\<open>hook_data.get("tool_name") or hook_data.get("toolName")\<close>.\<close>

definition hook_tool_name :: "pydict \<Rightarrow> pyval" where
  "hook_tool_name hook_data =
     (let v = dget_default hook_data ''tool_name'' PNone
      in if truthy v then v else dget_default hook_data ''toolName'' PNone)"

definition build_tool_used_event :: "os_env \<Rightarrow> time \<Rightarrow> pydict \<Rightarrow> event result" where
  "build_tool_used_event env now hook_data =
     (let tool = hook_tool_name hook_data
      in if is_list tool \<or> is_dict tool then Inl (TypeError ''unhashable type'')
         else Inr \<lparr>ev_event_type =
                     (if named_in tool recv_tool_names then ChannelRecv
                      else if named_in tool send_tool_names then ChannelSend
                      else ToolUsed),
                   ev_agent_id = extract_agent_id env hook_data, ev_timestamp = now,
                   ev_tool_name = tool, ev_metadata = []\<rparr>)"

definition build_stop_event :: "os_env \<Rightarrow> time \<Rightarrow> pydict \<Rightarrow> bool \<Rightarrow> event" where
  "build_stop_event env now hook_data inbox =
     \<lparr>ev_event_type = StopRequested, ev_agent_id = extract_agent_id env hook_data, ev_timestamp = now,
      ev_tool_name = PNone, ev_metadata = [(''inbox_non_empty'', PBool inbox)]\<rparr>"

text \<open>Load, decide, apply: inside \<open>async with StateStore(...)\<close>.\<close>

definition enforce :: "policy \<Rightarrow> event \<Rightarrow> state_store \<Rightarrow> decision result \<times> state_store" where
  "enforce po e s =
     (case ss_load (ev_agent_id e) s of
        Inl err \<Rightarrow> (Inl err, s)
      | Inr st \<Rightarrow>
          (let d = decide e st po; (r, s') = apply_event (ev_agent_id e) (ev_event_type e) (ev_timestamp e) s
           in (bind_res r (\<lambda>_. Inr d), s')))"

definition placeholder_map :: "(string \<times> string) list" where
  "placeholder_map =
     [(''{{send_tool}}'', ''mcp__sox__channels__send''), (''{{recv_tool}}'', ''mcp__sox__channels__recv''),
      (''{{subscribe_tool}}'', ''mcp__sox__channels__subscribe''),
      (''{{list_tool}}'', ''mcp__sox__channels__list_channels'')]"

definition substitute_placeholders :: "string \<Rightarrow> string" where
  "substitute_placeholders message =
     foldl (\<lambda>m (placeholder, tool). str_replace placeholder tool m) message placeholder_map"

fun action_value :: "action \<Rightarrow> string" where
  "action_value Noop = ''noop''"
| "action_value Inject = ''inject''"
| "action_value Block = ''block''"

definition hook_response :: "decision \<Rightarrow> pydict option" where
  "hook_response d =
     (if dc_action d = Noop then None
      else let message = substitute_placeholders (case dc_message d of None \<Rightarrow> [] | Some m \<Rightarrow> m)
           in Some [(''action'', PStr (action_value (dc_action d))),
                    (''message'', if message = [] then PNone else PStr message),
                    (''reason'', opt_str (dc_reason d)), (''schema_version'', PStr ''1.0'')])"

definition enforce_in :: "event \<Rightarrow> hook_world \<Rightarrow> pydict option result \<times> hook_world" where
  "enforce_in e w =
     (case enforce default_policy e (ss_open (hw_state w)) of
        (r, s) \<Rightarrow> (bind_res r (\<lambda>d. Inr (hook_response d)), w\<lparr>hw_state := ss_close s\<rparr>))"

text \<open>\<open>_run\<close>; all reads of the clock in one call give \<open>now\<close>.\<close>

definition run_hook :: "os_env \<Rightarrow> time \<Rightarrow> string \<Rightarrow> pydict \<Rightarrow> hook_world \<Rightarrow> pydict option result \<times> hook_world" where
  "run_hook env now hook_type hook_data w =
     (if hook_type = ''post_tool_use'' then
        (case build_tool_used_event env now hook_data of
           Inl e \<Rightarrow> (Inl e, w)
         | Inr e \<Rightarrow> enforce_in e (auto_heartbeat env now now (ev_agent_id e) w))
      else if hook_type = ''stop'' \<or> hook_type = ''subagent_stop'' then
        (let (inbox, w1) = (if po_force_drain_on_stop default_policy
                            then inbox_non_empty env (extract_agent_id env hook_data) w else (False, w))
         in enforce_in (build_stop_event env now hook_data inbox) w1)
      else (Inr None, w))"

text \<open>
  \<open>main\<close> after argument parsing: the exit code and what is printed. \<open>loads\<close> is
  \<open>json.loads\<close>; a document that is not an object has no \<open>get\<close>.
\<close>

definition hook_main ::
  "(string \<Rightarrow> pyval option) \<Rightarrow> os_env \<Rightarrow> time \<Rightarrow> string \<Rightarrow> string \<Rightarrow> hook_world \<Rightarrow> (int \<times> pydict option) \<times> hook_world"
where
  "hook_main loads env now hook_type raw w =
     (if strip raw = [] then ((0, None), w)
      else case loads raw of
        None \<Rightarrow> ((1, None), w)
      | Some (PDict hook_data) \<Rightarrow>
          (case run_hook env now hook_type hook_data w of
             (Inl e, w') \<Rightarrow> ((1, None), w')
           | (Inr d, w') \<Rightarrow> ((0, d), w'))
      | Some v \<Rightarrow> ((1, None), w))"

end
