(* ===== verification/Enforcer_Proofs.thy ===== *)
theory Enforcer_Proofs
  imports Enforcer Sqlite_Proofs
begin

text \<open>
  What the enforcer guarantees. The counters in the table are compared with the history of
  events; the stop hook and the heartbeat hook are followed into the message database.
\<close>

section \<open>Decisions as a function of the history\<close>

definition own_events :: "agent \<Rightarrow> event list \<Rightarrow> event list" where
  "own_events a hist = filter (\<lambda>e. ev_agent_id e = a) hist"

text \<open>The events after the last \<open>channel_recv\<close>, latest first.\<close>

definition since_drain :: "event list \<Rightarrow> event list" where
  "since_drain hist = takeWhile (\<lambda>e. ev_event_type e \<noteq> ChannelRecv) (rev hist)"

definition count_type :: "event_type \<Rightarrow> event list \<Rightarrow> int" where
  "count_type et es = int (length (filter (\<lambda>e. ev_event_type e = et) es))"

text \<open>What the policy requires for event \<open>e\<close> after the events \<open>hist\<close> of all agents.\<close>

definition required_action :: "policy \<Rightarrow> event list \<Rightarrow> event \<Rightarrow> action" where
  "required_action po hist e =
     (let recent = since_drain (own_events (ev_agent_id e) hist)
      in case ev_event_type e of
        ToolUsed \<Rightarrow>
          if \<not> named_in (ev_tool_name e) recv_tool_names \<and>
             count_type ToolUsed (e # recent) \<ge> po_reminder_threshold_tool_calls po
          then Inject else Noop
      | TurnStarted \<Rightarrow>
          if count_type TurnStarted (e # recent) \<ge> po_reminder_threshold_turns po then Inject else Noop
      | ChannelSend \<Rightarrow>
          if po_suspect_send_and_wait po \<and> count_type ChannelSend recent \<ge> 1 \<and>
             count_type TurnStarted recent \<ge> po_send_followed_by_idle_turns po
          then Inject else Noop
      | ChannelRecv \<Rightarrow> Noop
      | StopRequested \<Rightarrow>
          if po_force_drain_on_stop po \<and>
             (case dget (ev_metadata e) ''inbox_non_empty'' of
                Some v \<Rightarrow> truthy v | None \<Rightarrow> count_type ChannelSend recent \<ge> 1)
          then Block else Noop)"

fun enf_run :: "policy \<Rightarrow> event list \<Rightarrow> state_store \<Rightarrow> decision result list \<times> state_store" where
  "enf_run po [] s = ([], s)"
| "enf_run po (e # es) s =
     (let (d, s') = enforce po e s; (ds, s'') = enf_run po es s' in (d # ds, s''))"

definition counts_history :: "event list \<Rightarrow> state_store \<Rightarrow> bool" where
  "counts_history hist s \<longleftrightarrow> ss_conn s \<and> (\<forall>a.
     let recent = since_drain (own_events a hist); st = select_state a s
     in es_tool_calls_since_drain st = count_type ToolUsed recent \<and>
        es_sends_since_last_drain st = count_type ChannelSend recent \<and>
        es_turns_since_last_drain st = count_type TurnStarted recent)"

lemma own_events_snoc [simp]:
  "own_events a (hist @ [e]) = own_events a hist @ (if ev_agent_id e = a then [e] else [])"
  by (simp add: own_events_def)

lemma since_drain_snoc [simp]:
  "since_drain (hist @ [e]) = (if ev_event_type e = ChannelRecv then [] else e # since_drain hist)"
  by (simp add: since_drain_def)

lemma count_type_Nil [simp]: "count_type et [] = 0"
  by (simp add: count_type_def)

lemma count_type_Cons [simp]:
  "count_type et (e # es) = count_type et es + (if ev_event_type e = et then 1 else 0)"
  by (simp add: count_type_def)

lemma select_upsert:
  "select_state a (upsert_state st s) =
     (if es_agent_id st = a then st\<lparr>es_agent_id := a\<rparr> else select_state a s)"
  by (simp add: select_state_def upsert_state_def update_conv' eq_commute)

lemma select_agent [simp]: "es_agent_id (select_state a s) = a"
  by (simp add: select_state_def cold_state_def split: option.split)

lemma upsert_conn [simp]: "ss_conn (upsert_state st s) = ss_conn s"
  by (simp add: upsert_state_def)

lemma mutate_agent [simp]: "es_agent_id (mutate et ts st) = es_agent_id st"
  by (cases et) simp_all

lemma enforce_open:
  assumes "ss_conn s"
  shows "enforce po e s =
    (Inr (decide e (select_state (ev_agent_id e) s) po),
     upsert_state (mutate (ev_event_type e) (ev_timestamp e) (select_state (ev_agent_id e) s)) s)"
  using assms by (simp add: enforce_def ss_load_def apply_event_def ss_require_conn_def Let_def)

lemma counts_step:
  assumes "counts_history hist s"
  shows "counts_history (hist @ [e]) (snd (enforce po e s))"
proof -
  have "ss_conn s" using assms by (simp add: counts_history_def)
  then show ?thesis
    using assms by (cases "ev_event_type e")
      (auto simp: counts_history_def enforce_open select_upsert Let_def)
qed

lemma decide_required:
  assumes "counts_history hist s"
  shows "dc_action (decide e (select_state (ev_agent_id e) s) po) = required_action po hist e"
  using assms
  by (cases "ev_event_type e")
    (auto simp: counts_history_def decide_def required_action_def noop_def inject_def block_def Let_def
      split: option.split)

lemma enf_run_required:
  assumes "counts_history hist s"
  shows "map (map_sum id dc_action) (fst (enf_run po evs s)) =
    map (\<lambda>i. Inr (required_action po (hist @ take i evs) (evs ! i))) [0..<length evs]"
  using assms
proof (induction evs arbitrary: hist s)
  case (Cons e evs)
  have conn: "ss_conn s" using Cons.prems by (simp add: counts_history_def)
  have "map (map_sum id dc_action) (fst (enf_run po (e # evs) s)) =
      Inr (required_action po hist e) #
      map (map_sum id dc_action) (fst (enf_run po evs (snd (enforce po e s))))"
    using decide_required [OF Cons.prems] by (simp add: split_beta Let_def enforce_open [OF conn])
  also have "\<dots> = Inr (required_action po hist e) #
      map (\<lambda>i. Inr (required_action po ((hist @ [e]) @ take i evs) (evs ! i))) [0..<length evs]"
    using Cons.IH [OF counts_step [OF Cons.prems]] by (simp add: id_def)
  finally show ?case
    by (simp add: upt_conv_Cons map_Suc_upt [symmetric] comp_def id_def del: upt_Suc enf_run.simps)
qed simp

lemma counts_empty: "counts_history [] (ss_open \<lparr>ss_conn = c, ss_rows = []\<rparr>)"
  by (simp add: counts_history_def ss_open_def own_events_def since_drain_def select_state_def
      cold_state_def)

text \<open>
  C18. The enforcer decides by the agent's own history: over any sequence of events of any
  agents, on a fresh table, every event is answered, and with the action the policy requires
  of the events of that agent since its last \<open>channel_recv\<close>.
\<close>

theorem decisions_follow_history:
  "map (map_sum id dc_action) (fst (enf_run po evs (ss_open \<lparr>ss_conn = False, ss_rows = []\<rparr>))) =
     map (\<lambda>i. Inr (required_action po (take i evs) (evs ! i))) [0..<length evs]"
  using enf_run_required [OF counts_empty, of po evs] by simp

section \<open>The stop hook\<close>

fun run_hooks :: "os_env \<Rightarrow> string \<Rightarrow> pydict \<Rightarrow> time list \<Rightarrow> hook_world \<Rightarrow> pydict option result list \<times> hook_world" where
  "run_hooks env hook_type hook_data [] w = ([], w)"
| "run_hooks env hook_type hook_data (t # ts) w =
     (let (r, w') = run_hook env t hook_type hook_data w;
          (rs, w'') = run_hooks env hook_type hook_data ts w' in (r # rs, w''))"

lemma run_hooks_Cons:
  "run_hooks env hook_type hook_data (t # ts) w =
     (fst (run_hook env t hook_type hook_data w) #
        fst (run_hooks env hook_type hook_data ts (snd (run_hook env t hook_type hook_data w))),
      snd (run_hooks env hook_type hook_data ts (snd (run_hook env t hook_type hook_data w))))"
  by (simp add: split_beta Let_def)

definition unread :: "agent \<Rightarrow> sqlite_store \<Rightarrow> message_row list" where
  "unread a s = filter (row_wanted a None (sq_patterns s a)) (sq_messages s)"

lemma unread_lifecycle [simp]:
  "unread a (sq_initialize s) = unread a s" "unread a (sq_close s) = unread a s"
  "sq_ids_ok (sq_initialize s) = sq_ids_ok s" "sq_ids_ok (sq_close s) = sq_ids_ok s"
  by (simp_all add: unread_def sq_initialize_def sq_close_def sq_patterns_def sq_ids_ok_def)

lemma filter_except:
  assumes "distinct (map f xs)" and "x \<in> set xs" and "P x"
  shows "Suc (length (filter (\<lambda>y. P y \<and> f y \<noteq> f x) xs)) = length (filter P xs)"
  using assms
proof (induction xs)
  case (Cons y ys)
  show ?case
  proof (cases "x = y")
    case True
    then have "filter (\<lambda>z. P z \<and> f z \<noteq> f x) ys = filter P ys"
      using Cons.prems(1) by (intro filter_cong) (auto simp: image_iff)
    with True Cons.prems show ?thesis by simp
  next
    case False
    with Cons show ?thesis by auto
  qed
qed simp

lemma filter_update_delivered:
  "filter (row_wanted a None pats) (update_delivered a {i} rows) =
     filter (\<lambda>r. row_wanted a None pats r \<and> rw_id r \<noteq> i) rows"
  by (induction rows) (auto simp: update_delivered_def row_wanted_def)

lemma sq_recv_one:
  assumes "sq_ids_ok s" and "sq_conn s" and "sq_recv a None 1 s = (r, s')"
  shows "\<exists>ms. r = Inr ms \<and> (ms = []) = (unread a s = []) \<and>
    length (unread a s') = length (unread a s) - 1 \<and> sq_ids_ok s'"
proof -
  let ?P = "row_wanted a None (sq_patterns s a)"
  let ?el = "take 1 (filter ?P (sort_key row_order (sq_messages s)))"
  have none: "filter ?P rows = []" if "sq_patterns s a = []" for rows
    using that by (simp add: row_wanted_def agent_matches_channel_def matches_any_def filter_empty_conv)
  have el: "eligible_rows a None 1 (sq_patterns s a) (sq_messages s) = ?el"
    by (simp add: eligible_rows_def collect_after_take)
  have run: "(r, s') = (Inr (map build_message ?el),
      s\<lparr>sq_messages := update_delivered a (rw_id ` set ?el) (sq_messages s)\<rparr>)"
    using assms(2,3) none [of "sort_key row_order (sq_messages s)"]
    by (auto simp: sq_recv_def require_conn_def sq_patterns_def [symmetric] el Let_def
        update_delivered_def split: if_splits)
  have s': "s' = s\<lparr>sq_messages := update_delivered a (rw_id ` set ?el) (sq_messages s)\<rparr>"
    using run by simp
  have ids: "sq_ids_ok s'"
    using assms(1) unfolding s' by (auto simp: sq_ids_ok_def update_delivered_def comp_def if_distrib cong: if_cong)
  show ?thesis
  proof (cases ?el)
    case Nil
    then have "filter ?P (sq_messages s) = []"
      by (metis filter_empty_conv set_sort take_eq_Nil zero_neq_one)
    with Nil run ids show ?thesis by (simp add: unread_def update_delivered_def sq_patterns_def)
  next
    case (Cons x xs)
    then have one: "?el = [x]" by (cases xs) (auto dest: arg_cong [where f = length])
    then have "x \<in> set (filter ?P (sort_key row_order (sq_messages s)))"
      by (metis in_set_takeD list.set_intros(1))
    then have x: "x \<in> set (sq_messages s)" "?P x" by simp_all
    have "Suc (length (unread a s')) = length (unread a s)"
      using filter_except [of rw_id "sq_messages s" x ?P] x assms(1) s' one
      by (simp add: unread_def filter_update_delivered sq_patterns_def sq_ids_ok_def)
    moreover have "r = Inr [build_message x]" using run one by simp
    ultimately show ?thesis using ids by auto
  qed
qed

definition stop_block :: "pydict option" where
  "stop_block = Some [(''action'', PStr ''block''),
     (''message'', PStr (''Inbox not drained. Call mcp__sox__channels__recv and integrate any messages '' @
        ''before completing the task.'')),
     (''reason'', PStr ''stop_requested with non-empty inbox and force_drain_on_stop=True''),
     (''schema_version'', PStr ''1.0'')]"

lemma substitute_stop_text:
  "substitute_placeholders (po_reminder_text_drain_on_stop default_policy) =
     ''Inbox not drained. Call mcp__sox__channels__recv and integrate any messages before completing the task.''"
  by code_simp

lemma stop_response:
  "hook_response (decide (build_stop_event env now hook_data inbox) st default_policy) =
     (if inbox then stop_block else None)"
proof -
  have "po_force_drain_on_stop default_policy" by (simp add: default_policy_def)
  then show ?thesis
    by (simp add: decide_def build_stop_event_def block_def noop_def hook_response_def
        substitute_stop_text stop_block_def opt_str_def Let_def)
qed

lemma enforce_in_store [simp]: "hw_store (snd (enforce_in e w)) = hw_store w"
  by (simp add: enforce_in_def split_beta)

lemma enforce_in_result:
  "fst (enforce_in e w) =
     Inr (hook_response (decide e (select_state (ev_agent_id e) (ss_open (hw_state w))) default_policy))"
  by (simp add: enforce_in_def enforce_open ss_open_def)

lemma sqlite_not_memory:
  "resolve_sqlite_path url = Some p \<Longrightarrow> \<not> starts_with url ''memory://''"
  by (auto simp: resolve_sqlite_path_def starts_with_iff split: if_splits)

lemma stop_hook:
  assumes "resolve_sqlite_path (resolve_backing_store_url env) = Some p" and "sq_ids_ok (hw_store w)"
  shows "fst (run_hook env t ''stop'' hook_data w) =
      Inr (if unread (extract_agent_id env hook_data) (hw_store w) = [] then None else stop_block)"
    and "length (unread (extract_agent_id env hook_data) (hw_store (snd (run_hook env t ''stop'' hook_data w)))) =
      length (unread (extract_agent_id env hook_data) (hw_store w)) - 1"
    and "sq_ids_ok (hw_store (snd (run_hook env t ''stop'' hook_data w)))"
proof -
  let ?a = "extract_agent_id env hook_data"
  have init: "sq_conn (sq_initialize (hw_store w))" by (simp add: sq_initialize_def)
  obtain r s' where recv: "sq_recv ?a None 1 (sq_initialize (hw_store w)) = (r, s')" by fastforce
  obtain ms where r: "r = Inr ms" "(ms = []) = (unread ?a (hw_store w) = [])"
    "length (unread ?a s') = length (unread ?a (hw_store w)) - 1" "sq_ids_ok s'"
    using sq_recv_one [OF _ _ recv] assms(2) by (auto simp: init)
  have inbox: "inbox_non_empty env ?a w = (ms \<noteq> [], w\<lparr>hw_store := sq_close s'\<rparr>)"
    using assms(1) sqlite_not_memory [OF assms(1)] recv r(1)
    by (simp add: inbox_non_empty_def Let_def)
  have run: "run_hook env t ''stop'' hook_data w =
      enforce_in (build_stop_event env t hook_data (ms \<noteq> [])) (w\<lparr>hw_store := sq_close s'\<rparr>)"
    by (simp add: run_hook_def inbox default_policy_def)
  show "fst (run_hook env t ''stop'' hook_data w) = Inr (if unread ?a (hw_store w) = [] then None else stop_block)"
    unfolding run enforce_in_result stop_response using r(2) by simp
  show "length (unread ?a (hw_store (snd (run_hook env t ''stop'' hook_data w)))) =
      length (unread ?a (hw_store w)) - 1"
    and "sq_ids_ok (hw_store (snd (run_hook env t ''stop'' hook_data w)))"
    unfolding run using r(3,4) by simp_all
qed

lemma stop_hooks:
  assumes "resolve_sqlite_path (resolve_backing_store_url env) = Some p"
  shows "sq_ids_ok (hw_store w) \<Longrightarrow> length ts = length (unread (extract_agent_id env hook_data) (hw_store w)) \<Longrightarrow>
    fst (run_hooks env ''stop'' hook_data (ts @ [t]) w) = replicate (length ts) (Inr stop_block) @ [Inr None] \<and>
    unread (extract_agent_id env hook_data) (hw_store (snd (run_hooks env ''stop'' hook_data (ts @ [t]) w))) = []"
proof (induction ts arbitrary: w)
  case Nil
  then show ?case
    using stop_hook [OF assms Nil.prems(1), where hook_data = hook_data and t = t]
    by (simp add: run_hooks_Cons del: run_hooks.simps(2))
next
  case (Cons u ts)
  let ?w = "snd (run_hook env u ''stop'' hook_data w)"
  have k: "length (unread (extract_agent_id env hook_data) (hw_store w)) = Suc (length ts)"
    using Cons.prems(2) by simp
  then have "unread (extract_agent_id env hook_data) (hw_store w) \<noteq> []" by auto
  then show ?case
    using stop_hook [OF assms Cons.prems(1), where hook_data = hook_data and t = u] Cons.IH [of ?w]
    by (simp add: run_hooks_Cons k del: run_hooks.simps(2))
qed

definition toy_hook_env :: os_env where
  "toy_hook_env = [(''SOX_BACKING_STORE'', ''sqlite:///tmp/sox.db''), (''SOX_AGENT_ID'', ''bob'')]"

text \<open>
  C19. The stop hook empties the inbox it is meant to guard: with \<open>k\<close> unread messages on a
  SQLite server, \<open>k\<close> stop requests in a row are blocked and the next is let through, although
  the agent has not called \<open>recv\<close>; its messages count as delivered by then.
\<close>

theorem stop_hooks_drain_inbox:
  assumes "resolve_sqlite_path (resolve_backing_store_url env) = Some p"
    and "sq_ids_ok (hw_store w)"
    and "length ts = length (unread (extract_agent_id env hook_data) (hw_store w))"
  shows "fst (run_hooks env ''stop'' hook_data (ts @ [t]) w) =
      replicate (length ts) (Inr stop_block) @ [Inr None] \<and>
    unread (extract_agent_id env hook_data)
      (hw_store (snd (run_hooks env ''stop'' hook_data (ts @ [t]) w))) = []"
  using stop_hooks [OF assms, of t] .

theorem stop_hooks_drain_inbox_witness:
  "let s = snd (run_ops sq_step [Subscribe ''bob'' ''team'', Send 1 ''team'' ''ann'' [] None None]
             (sq_initialize sqlite_init));
       w = \<lparr>hw_state = \<lparr>ss_conn = False, ss_rows = []\<rparr>, hw_store = sq_close s\<rparr>
   in fst (run_hooks toy_hook_env ''stop'' [] [2, 3] w) = [Inr stop_block, Inr None] \<and>
      unread ''bob'' (hw_store (snd (run_hooks toy_hook_env ''stop'' [] [2, 3] w))) = []"
proof -
  let ?s = "snd (run_ops sq_step [Subscribe ''bob'' ''team'', Send 1 ''team'' ''ann'' [] None None]
    (sq_initialize sqlite_init))"
  let ?w = "\<lparr>hw_state = \<lparr>ss_conn = False, ss_rows = []\<rparr>, hw_store = sq_close ?s\<rparr>"
  have a: "extract_agent_id toy_hook_env [] = ''bob''"
    by (simp add: extract_agent_id_def toy_hook_env_def dget_default_def List.map_filter_def)
  have p: "resolve_sqlite_path (resolve_backing_store_url toy_hook_env) = Some ''/tmp/sox.db''"
    by (simp add: resolve_sqlite_path_def resolve_backing_store_url_def toy_hook_env_def dget_default_def
        starts_with_def)
  have u: "length (unread ''bob'' ?s) = 1" "sq_ids_ok ?s"
    by code_simp+
  show ?thesis
    using stop_hooks_drain_inbox [OF p, of ?w "[2]" "[]" 3] u by (simp add: a Let_def del: run_hooks.simps(2))
qed

section \<open>The heartbeat of the tool hook\<close>

lemma filter_hd: "filter P xs = y # ys \<Longrightarrow> P y"
  by (metis filter_eq_ConsD)

lemma first_str_nonempty:
  assumes "d \<noteq> []"
  shows "(case filter (\<lambda>v. truthy v \<and> is_str v) vs of PStr s # _ \<Rightarrow> s | _ \<Rightarrow> d) \<noteq> []"
  using assms by (auto split: list.split pyval.split dest!: filter_hd)

lemma first_nonempty:
  "(case filter (\<lambda>s. s \<noteq> []) xs of s # _ \<Rightarrow> s | [] \<Rightarrow> ''unknown-agent'') \<noteq> []"
  by (auto split: list.split dest!: filter_hd)

lemma extract_agent_id_nonempty: "extract_agent_id env hook_data \<noteq> []"
  unfolding extract_agent_id_def by (rule first_str_nonempty [OF first_nonempty])

lemma tool_hook_store:
  assumes "resolve_sqlite_path (resolve_backing_store_url env) = Some p"
    and "build_tool_used_event env t hook_data = Inr e"
    and "ev_agent_id e \<noteq> ''unknown-agent''" and "ev_agent_id e \<noteq> []"
  shows "hw_store (snd (run_hook env t ''post_tool_use'' hook_data w)) =
    sq_close (snd (sq_heartbeat t t (ev_agent_id e) ''online'' (Some 60) (sq_initialize (hw_store w))))"
  using assms by (simp add: run_hook_def auto_heartbeat_def auto_heartbeat_ttl_def)

lemma heartbeat_liveness:
  assumes "sq_conn s"
  shows "dget (sq_liveness (snd (sq_heartbeat t u a status ttl s))) a =
    Some \<lparr>lv_status = status, lv_recorded_at = t, lv_expires_at = t + real_of_int (effective_ttl ttl),
      lv_namespace = (case dget (sq_liveness s) a of None \<Rightarrow> None | Some r \<Rightarrow> lv_namespace r)\<rparr>"
  using assms
  by (simp add: sq_heartbeat_def sq_send_def insert_message_def require_conn_def update_conv' Let_def)

lemma list_agents_live:
  assumes "(a, r) \<in> set (sq_liveness s)" and "sq_conn s"
    and "ae_presence_state (agent_of_row now (a, r)) = p"
  shows "\<exists>entries entry. sq_list_agents now (Some [p]) None s = Inr entries \<and>
    entry \<in> set entries \<and> ae_agent_id entry = a"
proof -
  have "agent_of_row now (a, r) \<in>
      set (filter (\<lambda>e. ae_presence_state e \<in> set [p]) (map (agent_of_row now) (sq_liveness s)))"
    using assms(1,3) by auto
  moreover have "ae_agent_id (agent_of_row now (a, r)) = a" by (simp add: agent_of_row_def)
  ultimately show ?thesis
    using assms(2) unfolding sq_list_agents_def require_conn_def by (auto simp: Let_def)
qed

text \<open>
  C20. A tool call keeps its agent online: after a \<open>post_tool_use\<close> hook at time \<open>t\<close> on a SQLite
  server, \<open>list_agents\<close> reports the agent as online at any time before \<open>t + 60\<close>.
\<close>

theorem tool_hook_keeps_online:
  assumes "resolve_sqlite_path (resolve_backing_store_url env) = Some p"
    and "extract_agent_id env hook_data \<noteq> ''unknown-agent''"
    and "build_tool_used_event env t hook_data = Inr e"
    and "now < t + 60"
  shows "\<exists>entries entry.
    sq_list_agents now (Some [''online'']) None
      (sq_initialize (hw_store (snd (run_hook env t ''post_tool_use'' hook_data w)))) = Inr entries \<and>
    entry \<in> set entries \<and> ae_agent_id entry = extract_agent_id env hook_data"
proof -
  let ?a = "extract_agent_id env hook_data"
  let ?s = "snd (sq_heartbeat t t ?a ''online'' (Some 60) (sq_initialize (hw_store w)))"
  have a: "ev_agent_id e = ?a"
    using assms(3) by (auto simp: build_tool_used_event_def Let_def split: if_splits)
  have store: "hw_store (snd (run_hook env t ''post_tool_use'' hook_data w)) = sq_close ?s"
    using tool_hook_store [OF assms(1,3)] assms(2) extract_agent_id_nonempty by (simp add: a)
  have live: "sq_liveness (sq_initialize (sq_close ?s)) = sq_liveness ?s"
    by (simp add: sq_initialize_def sq_close_def)
  obtain r where r: "dget (sq_liveness ?s) ?a = Some r" "lv_status r = ''online''" "lv_expires_at r = t + 60"
    using heartbeat_liveness [of "sq_initialize (hw_store w)" t t ?a "''online''" "Some 60"]
    by (simp add: sq_initialize_def effective_ttl_def)
  then have "(?a, r) \<in> set (sq_liveness (sq_initialize (sq_close ?s)))"
    unfolding live by (simp add: map_of_SomeD)
  moreover have "sq_conn (sq_initialize (sq_close ?s))" by (simp add: sq_initialize_def)
  moreover have "ae_presence_state (agent_of_row now (?a, r)) = ''online''"
    using r(2,3) assms(4) by (simp add: agent_of_row_def presence_of_def)
  ultimately show ?thesis
    unfolding store by (rule list_agents_live)
qed

theorem tool_hook_keeps_online_witness:
  "\<exists>entries entry.
    sq_list_agents 40 (Some [''online'']) None
      (sq_initialize (hw_store (snd (run_hook toy_hook_env 0 ''post_tool_use'' [(''tool_name'', PStr ''Bash'')]
        \<lparr>hw_state = \<lparr>ss_conn = False, ss_rows = []\<rparr>, hw_store = sqlite_init\<rparr>)))) = Inr entries \<and>
    entry \<in> set entries \<and> ae_agent_id entry = ''bob''"
proof -
  let ?d = "[(''tool_name'', PStr ''Bash'')]"
  have p: "resolve_sqlite_path (resolve_backing_store_url toy_hook_env) = Some ''/tmp/sox.db''"
    by (simp add: resolve_sqlite_path_def resolve_backing_store_url_def toy_hook_env_def dget_default_def
        starts_with_def)
  have a: "extract_agent_id toy_hook_env ?d = ''bob''"
    by (simp add: extract_agent_id_def toy_hook_env_def dget_default_def List.map_filter_def)
  obtain e where e: "build_tool_used_event toy_hook_env 0 ?d = Inr e"
    by (simp add: build_tool_used_event_def hook_tool_name_def dget_default_def Let_def)
  have "extract_agent_id toy_hook_env ?d \<noteq> ''unknown-agent''" unfolding a by simp
  from tool_hook_keeps_online [OF p this e, of 40] show ?thesis unfolding a by simp
qed

end
