(* ===== verification/Migration.thy ===== *)
theory Migration
  imports Sqlite_Store
begin

text \<open>
  Opening a database file (\<open>sqlite/store.py: initialize\<close>, \<open>schema.sql\<close>) and the migration
  runner (\<open>sqlite/migration_runner.py\<close>) with its scripts. A database is its tables, the
  columns of \<open>messages\<close>, the rows and the table \<open>_sox_meta\<close>. A script runs statement by
  statement, each committed by itself, as \<open>executescript\<close> does.
\<close>

section \<open>Databases\<close>

text \<open>
  A row has values for \<open>seq\<close> and \<open>reply_to\<close> also where the column is missing; they mean
  nothing until the column is added, which sets them to the default.
\<close>

record database =
  db_meta :: "(string \<times> string) list option"
  db_tables :: "string list"
  db_columns :: "string list"
  db_rows :: "message_row list"

definition empty_database :: database where
  "empty_database = \<lparr>db_meta = None, db_tables = [], db_columns = [], db_rows = []\<rparr>"

definition message_columns :: "string list" where
  "message_columns = [''id'', ''channel'', ''sender'', ''body'', ''correlation_id'', ''sent_at'',
     ''delivered_to'', ''seq'', ''reply_to'']"

definition create_table :: "string \<Rightarrow> database \<Rightarrow> database" where
  "create_table t db = (if t \<in> set (db_tables db) then db else db\<lparr>db_tables := db_tables db @ [t]\<rparr>)"

text \<open>\<open>schema.sql\<close>: the tables in their current shape, where they do not exist.\<close>

definition apply_schema :: "database \<Rightarrow> database" where
  "apply_schema db =
     (let db1 = (if ''messages'' \<in> set (db_tables db) then db
                 else (create_table ''messages'' db)\<lparr>db_columns := message_columns\<rparr>)
      in create_table ''liveness'' (create_table ''subscriptions'' db1))"

section \<open>Statements of the migration scripts\<close>

datatype sql_stmt = AddColumn string | BackfillSeq | CreateTable string

text \<open>\<open>ROW_NUMBER() OVER (PARTITION BY channel ORDER BY sent_at ASC, id ASC)\<close>.\<close>

definition send_order :: "message_row \<Rightarrow> time \<times> int" where
  "send_order r = (rw_sent_at r, rw_id r)"

definition row_number :: "message_row list \<Rightarrow> message_row \<Rightarrow> int" where
  "row_number rows r =
     int (length (filter (\<lambda>x. send_order x \<le> send_order r) (filter (\<lambda>x. rw_channel x = rw_channel r) rows)))"

definition default_column :: "string \<Rightarrow> message_row \<Rightarrow> message_row" where
  "default_column c r =
     (if c = ''seq'' then r\<lparr>rw_seq := 0\<rparr> else if c = ''reply_to'' then r\<lparr>rw_reply_to := None\<rparr> else r)"

fun run_stmt :: "sql_stmt \<Rightarrow> database \<Rightarrow> unit result \<times> database" where
  "run_stmt (AddColumn c) db =
     (if c \<in> set (db_columns db)
      then (Inl (OperationalError (''duplicate column name: '' @ c)), db)
      else (Inr (), db\<lparr>db_columns := db_columns db @ [c], db_rows := map (default_column c) (db_rows db)\<rparr>))"
| "run_stmt BackfillSeq db =
     (Inr (), db\<lparr>db_rows := map (\<lambda>r. if rw_seq r = 0 then r\<lparr>rw_seq := row_number (db_rows db) r\<rparr> else r)
                 (db_rows db)\<rparr>)"
| "run_stmt (CreateTable t) db = (Inr (), create_table t db)"

text \<open>\<open>executescript\<close>: stops at the first error, what ran before it stays.\<close>

fun run_script :: "sql_stmt list \<Rightarrow> database \<Rightarrow> unit result \<times> database" where
  "run_script [] db = (Inr (), db)"
| "run_script (st # sts) db =
     (case run_stmt st db of (Inl e, db') \<Rightarrow> (Inl e, db') | (Inr _, db') \<Rightarrow> run_script sts db')"

text \<open>The script files of the directory \<open>migrations\<close>.\<close>

definition script_1_0_to_1_1 :: "sql_stmt list" where
  "script_1_0_to_1_1 = [AddColumn ''seq'', BackfillSeq]"

definition script_1_1_to_1_2 :: "sql_stmt list" where
  "script_1_1_to_1_2 = [AddColumn ''reply_to'']"

definition script_1_2_to_1_3 :: "sql_stmt list" where
  "script_1_2_to_1_3 = [CreateTable ''liveness'']"

definition migration_script :: "string \<times> string \<Rightarrow> sql_stmt list option" where
  "migration_script step =
     (if step = (''1.0'', ''1.1'') then Some script_1_0_to_1_1
      else if step = (''1.1'', ''1.2'') then Some script_1_1_to_1_2
      else if step = (''1.2'', ''1.3'') then Some script_1_2_to_1_3
      else None)"

lemmas migration_scripts = script_1_0_to_1_1_def script_1_1_to_1_2_def script_1_2_to_1_3_def

section \<open>The runner\<close>

definition migration_chain :: "(string \<times> string) list" where
  "migration_chain = [(''1.0'', ''1.1''), (''1.1'', ''1.2''), (''1.2'', ''1.3'')]"

text \<open>A tuple of integers, compared as Python compares tuples.\<close>

fun parse_ints :: "string list \<Rightarrow> int list result" where
  "parse_ints [] = Inr []"
| "parse_ints (p # ps) = bind_res (parse_int p) (\<lambda>i. bind_res (parse_ints ps) (\<lambda>is. Inr (i # is)))"

definition parse_version :: "string \<Rightarrow> int list result" where
  "parse_version v = parse_ints (split_on (CHR ''.'') v)"

definition ensure_meta :: "database \<Rightarrow> database" where
  "ensure_meta db = (case db_meta db of None \<Rightarrow> db\<lparr>db_meta := Some []\<rparr> | Some m \<Rightarrow> db)"

definition persisted_version :: "database \<Rightarrow> string" where
  "persisted_version db =
     (case db_meta db of None \<Rightarrow> ''0.0'' | Some m \<Rightarrow> dget_default m ''schema_version'' ''0.0'')"

definition get_persisted_version :: "database \<Rightarrow> string \<times> database" where
  "get_persisted_version db = (let db' = ensure_meta db in (persisted_version db', db'))"

definition set_persisted_version :: "string \<Rightarrow> database \<Rightarrow> database" where
  "set_persisted_version v db =
     db\<lparr>db_meta := map_option (\<lambda>m. dset m ''schema_version'' v) (db_meta db)\<rparr>"

definition column_exists :: "string \<Rightarrow> database \<Rightarrow> bool" where
  "column_exists c db \<longleftrightarrow> c \<in> set (db_columns db)"

definition table_exists :: "string \<Rightarrow> database \<Rightarrow> bool" where
  "table_exists t db \<longleftrightarrow> t \<in> set (db_tables db)"

definition needs_apply :: "string \<times> string \<Rightarrow> database \<Rightarrow> bool" where
  "needs_apply step db =
     (if step = (''1.0'', ''1.1'') then \<not> column_exists ''seq'' db
      else if step = (''1.1'', ''1.2'') then \<not> column_exists ''reply_to'' db
      else if step = (''1.2'', ''1.3'') then \<not> table_exists ''liveness'' db
      else True)"

definition apply_migration :: "string \<times> string \<Rightarrow> database \<Rightarrow> unit result \<times> database" where
  "apply_migration step db =
     (case migration_script step of
        None \<Rightarrow> (Inl (RuntimeError ''Missing migration script''), db)
      | Some script \<Rightarrow>
          (case (if needs_apply step db then run_script script db else (Inr (), db)) of
             (Inl e, db') \<Rightarrow> (Inl e, db')
           | (Inr _, db') \<Rightarrow> (Inr (), set_persisted_version (snd step) db')))"

definition next_step :: "string \<Rightarrow> (string \<times> string) option" where
  "next_step cursor = find (\<lambda>s. fst s = cursor) migration_chain"

text \<open>The number of steps of the chain that are still ahead of a version.\<close>

definition steps_ahead :: "string \<Rightarrow> nat" where
  "steps_ahead cursor = length (dropWhile (\<lambda>s. fst s \<noteq> cursor) migration_chain)"

lemma next_step_cases:
  assumes "next_step cursor = Some s"
  shows "fst s = cursor" and "steps_ahead (snd s) < steps_ahead cursor"
  using assms by (auto simp: next_step_def steps_ahead_def migration_chain_def split: if_splits)

function walk_chain :: "string \<Rightarrow> string \<Rightarrow> (string \<times> string) list result" where
  "walk_chain cursor target =
     (if cursor = target then Inr []
      else case next_step cursor of
        None \<Rightarrow> Inl (ValueError ''No migration path'')
      | Some step \<Rightarrow> bind_res (walk_chain (snd step) target) (\<lambda>chain. Inr (step # chain)))"
  by pat_completeness auto
termination
  by (relation "measure (\<lambda>(cursor, target). steps_ahead cursor)") (auto dest: next_step_cases)

declare walk_chain.simps [simp del]

definition chain_for :: "string \<Rightarrow> string \<Rightarrow> (string \<times> string) list result" where
  "chain_for persisted target =
     (if persisted = target then Inr []
      else bind_res (parse_version persisted) (\<lambda>p. bind_res (parse_version target) (\<lambda>t.
        if p > t then Inl (ValueError ''refusing to downgrade'')
        else if persisted = ''0.0'' then Inr migration_chain
        else walk_chain persisted target)))"

fun apply_chain :: "(string \<times> string) list \<Rightarrow> database \<Rightarrow> (string \<times> string) list result \<times> database" where
  "apply_chain [] db = (Inr [], db)"
| "apply_chain (step # steps) db =
     (case apply_migration step db of
        (Inl e, db') \<Rightarrow> (Inl e, db')
      | (Inr _, db') \<Rightarrow>
          (case apply_chain steps db' of (r, db'') \<Rightarrow> (bind_res r (\<lambda>done_steps. Inr (step # done_steps)), db'')))"

text \<open>The applied steps are returned as pairs, the code joins each with an arrow.\<close>

definition migrate :: "string \<Rightarrow> database \<Rightarrow> (string \<times> (string \<times> string) list) result \<times> database" where
  "migrate target db =
     (let (starting, db1) = get_persisted_version db
      in if starting = target then (Inr (starting, []), db1)
         else if starting = ''0.0'' \<and> (column_exists ''reply_to'' db1 \<or> migration_chain = [])
         then (Inr (starting, []), set_persisted_version target db1)
         else (let start = (if starting = ''0.0'' then fst (hd migration_chain) else starting)
               in case chain_for start target of
                    Inl e \<Rightarrow> (Inl e, db1)
                  | Inr chain \<Rightarrow>
                      (case apply_chain chain db1 of (r, db2) \<Rightarrow> (bind_res r (\<lambda>applied. Inr (start, applied)), db2))))"

definition schema_version :: string where
  "schema_version = ''1.3''"

text \<open>\<open>SqliteStore.initialize\<close> on the file.\<close>

definition initialize_database :: "database \<Rightarrow> (string \<times> (string \<times> string) list) result \<times> database" where
  "initialize_database db = migrate schema_version (apply_schema db)"

end
