(* ===== verification/Migration_Proofs.thy ===== *)
theory Migration_Proofs
  imports Migration
begin

text \<open>
  Opening an older database brings it to the current shape, keeps its rows and numbers the
  messages of each channel; what happens when the first migration is interrupted between its
  statements.
\<close>

section \<open>The backfilled numbers\<close>

lemma length_filter_key_sorted:
  fixes f :: "'a \<Rightarrow> 'b::linorder"
  assumes "sorted_wrt (<) (map f xs)" and "i < length xs"
  shows "length (filter (\<lambda>x. f x \<le> f (xs ! i)) xs) = Suc i"
  using assms
proof (induction xs arbitrary: i)
  case (Cons x xs)
  show ?case
  proof (cases i)
    case 0
    have "\<forall>y \<in> set xs. f x < f y" using Cons.prems(1) by simp
    then have "filter (\<lambda>y. f y \<le> f x) xs = []" by (simp add: filter_empty_conv not_le)
    with 0 show ?thesis by simp
  next
    case (Suc j)
    with Cons.prems have "f x \<le> f (xs ! j)" by (auto intro: less_imp_le)
    with Suc Cons show ?thesis by simp
  qed
qed simp

lemma sorted_key_strict:
  assumes "distinct (map f xs)"
  shows "sorted_wrt (<) (map f (sort_key f xs))"
proof -
  have "sorted (map f (sort_key f xs))" by (rule sorted_sort_key)
  moreover have "mset (map f (sort_key f xs)) = mset (map f xs)" by simp
  then have "distinct (map f (sort_key f xs))"
    using assms by (metis mset_eq_imp_distinct_iff)
  ultimately show ?thesis by (simp add: strict_sorted_iff)
qed

definition channel_rows :: "channel \<Rightarrow> message_row list \<Rightarrow> message_row list" where
  "channel_rows c rows = sort_key send_order (filter (\<lambda>r. rw_channel r = c) rows)"

lemma row_number_channel:
  assumes "rw_channel r = c"
  shows "row_number rows r = int (length (filter (\<lambda>x. send_order x \<le> send_order r) (channel_rows c rows)))"
proof -
  have "mset (filter (\<lambda>x. send_order x \<le> send_order r) (channel_rows c rows)) =
      mset (filter (\<lambda>x. send_order x \<le> send_order r) (filter (\<lambda>x. rw_channel x = c) rows))"
    by (simp add: channel_rows_def filter_filter_mset)
  from mset_eq_length [OF this] show ?thesis using assms by (simp add: row_number_def)
qed

lemma row_numbers:
  assumes "distinct (map rw_id rows)"
  shows "map (row_number rows) (channel_rows c rows) = map int [1..<Suc (length (channel_rows c rows))]"
proof (rule nth_equalityI)
  let ?cs = "channel_rows c rows"
  have "distinct (map send_order (filter (\<lambda>r. rw_channel r = c) rows))"
    using assms by (auto simp: distinct_map send_order_def inj_on_def)
  then have strict: "sorted_wrt (<) (map send_order ?cs)"
    unfolding channel_rows_def by (rule sorted_key_strict)
  fix i assume "i < length (map (row_number rows) ?cs)"
  then have i: "i < length ?cs" by simp
  then have "rw_channel (?cs ! i) = c"
    using nth_mem [OF i] by (simp add: channel_rows_def)
  then show "map (row_number rows) ?cs ! i = map int [1..<Suc (length ?cs)] ! i"
    using i length_filter_key_sorted [OF strict i] by (simp add: row_number_channel del: upt_Suc)
qed (simp del: upt_Suc)

section \<open>Databases of the known versions\<close>

definition extra_columns :: "database \<Rightarrow> string list" where
  "extra_columns db = filter (\<lambda>c. c \<in> {''seq'', ''reply_to''}) (db_columns db)"

text \<open>A file no release has touched, or one whose columns are those of its recorded version.\<close>

definition known_database :: "database \<Rightarrow> bool" where
  "known_database db \<longleftrightarrow>
     (if ''messages'' \<in> set (db_tables db)
      then persisted_version db \<in> {''0.0'', ''1.0''} \<and> extra_columns db = [] \<or>
           persisted_version db = ''1.1'' \<and> extra_columns db = [''seq''] \<or>
           persisted_version db \<in> {''1.2'', ''1.3''} \<and> extra_columns db = [''seq'', ''reply_to'']
      else persisted_version db = ''0.0'' \<and> db_rows db = [])"

definition bare_row :: "message_row \<Rightarrow> message_row" where
  "bare_row r = r\<lparr>rw_seq := 0, rw_reply_to := None\<rparr>"

lemma chain_for_known:
  "chain_for ''1.0'' ''1.3'' = Inr migration_chain"
  "chain_for ''1.1'' ''1.3'' = Inr (drop 1 migration_chain)"
  "chain_for ''1.2'' ''1.3'' = Inr (drop 2 migration_chain)"
  by code_simp+

lemma create_table_other [simp]:
  "db_rows (create_table t db) = db_rows db" "db_meta (create_table t db) = db_meta db"
  "db_columns (create_table t db) = db_columns db" "set (db_tables (create_table t db)) = insert t (set (db_tables db))"
  "persisted_version (create_table t db) = persisted_version db"
  by (auto simp: create_table_def persisted_version_def)

lemma apply_schema_simps [simp]:
  "db_rows (apply_schema db) = db_rows db" "db_meta (apply_schema db) = db_meta db"
  "persisted_version (apply_schema db) = persisted_version db"
  "set (db_tables (apply_schema db)) = set (db_tables db) \<union> {''messages'', ''subscriptions'', ''liveness''}"
  by (auto simp: apply_schema_def persisted_version_def Let_def)

lemma apply_schema_columns:
  "db_columns (apply_schema db) =
     (if ''messages'' \<in> set (db_tables db) then db_columns db else message_columns)"
  by (simp add: apply_schema_def Let_def)

lemma ensure_meta_simps [simp]:
  "db_rows (ensure_meta db) = db_rows db" "db_columns (ensure_meta db) = db_columns db"
  "db_tables (ensure_meta db) = db_tables db" "persisted_version (ensure_meta db) = persisted_version db"
  "db_meta (ensure_meta db) \<noteq> None"
  by (auto simp: ensure_meta_def persisted_version_def dget_default_def split: option.split)

lemma set_persisted_simps [simp]:
  "db_rows (set_persisted_version v db) = db_rows db"
  "db_columns (set_persisted_version v db) = db_columns db"
  "db_tables (set_persisted_version v db) = db_tables db"
  "(db_meta (set_persisted_version v db) = None) = (db_meta db = None)"
  by (simp_all add: set_persisted_version_def)

lemma persisted_set [simp]:
  "db_meta db \<noteq> None \<Longrightarrow> persisted_version (set_persisted_version v db) = v"
  by (auto simp: set_persisted_version_def persisted_version_def dget_default_def update_conv')

section \<open>The steps of the chain\<close>

definition numbered_rows :: "message_row list \<Rightarrow> message_row list" where
  "numbered_rows rows = map (\<lambda>r. r\<lparr>rw_seq := row_number rows r\<rparr>) rows"

definition clear_reply :: "message_row \<Rightarrow> message_row" where
  "clear_reply r = r\<lparr>rw_reply_to := None\<rparr>"

lemma default_columns:
  "default_column ''seq'' = (\<lambda>r. r\<lparr>rw_seq := 0\<rparr>)" "default_column ''reply_to'' = clear_reply"
  by (simp_all add: default_column_def clear_reply_def fun_eq_iff)

lemma row_number_default [simp]:
  "row_number (map (\<lambda>r. r\<lparr>rw_seq := 0\<rparr>) rows) (r\<lparr>rw_seq := 0\<rparr>) = row_number rows r"
  by (simp add: row_number_def filter_map comp_def send_order_def)

lemma migrate_seq:
  assumes "''seq'' \<notin> set (db_columns db)"
  shows "apply_migration (''1.0'', ''1.1'') db = (Inr (), set_persisted_version ''1.1''
    (db\<lparr>db_columns := db_columns db @ [''seq''], db_rows := numbered_rows (db_rows db)\<rparr>))"
  using assms
  by (simp add: apply_migration_def migration_script_def migration_scripts needs_apply_def column_exists_def
      numbered_rows_def default_columns comp_def)

lemma migrate_reply:
  assumes "''reply_to'' \<notin> set (db_columns db)"
  shows "apply_migration (''1.1'', ''1.2'') db = (Inr (), set_persisted_version ''1.2''
    (db\<lparr>db_columns := db_columns db @ [''reply_to''], db_rows := map clear_reply (db_rows db)\<rparr>))"
  using assms
  by (simp add: apply_migration_def migration_script_def migration_scripts needs_apply_def column_exists_def default_columns)

lemma migrate_liveness:
  assumes "''liveness'' \<in> set (db_tables db)"
  shows "apply_migration (''1.2'', ''1.3'') db = (Inr (), set_persisted_version ''1.3'' db)"
  using assms by (simp add: apply_migration_def migration_script_def migration_scripts needs_apply_def table_exists_def)

definition migrated_rows :: "database \<Rightarrow> message_row list" where
  "migrated_rows db =
     (if ''messages'' \<in> set (db_tables db)
      then (let rows = (if ''seq'' \<in> set (db_columns db) then db_rows db else numbered_rows (db_rows db))
            in if ''reply_to'' \<in> set (db_columns db) then rows else map clear_reply rows)
      else [])"

lemma extra_columns_mem:
  "''seq'' \<in> set (db_columns db) \<longleftrightarrow> ''seq'' \<in> set (extra_columns db)"
  "''reply_to'' \<in> set (db_columns db) \<longleftrightarrow> ''reply_to'' \<in> set (extra_columns db)"
  by (simp_all add: extra_columns_def)

text \<open>What one opening of a known database leaves in the file.\<close>

definition current_database :: "database \<Rightarrow> bool" where
  "current_database db \<longleftrightarrow> persisted_version db = ''1.3'' \<and>
     {''seq'', ''reply_to''} \<subseteq> set (db_columns db) \<and>
     {''messages'', ''subscriptions'', ''liveness''} \<subseteq> set (db_tables db)"

lemma set_persisted_current:
  "current_database (set_persisted_version ''1.3'' db) \<longleftrightarrow> db_meta db \<noteq> None \<and>
     {''seq'', ''reply_to''} \<subseteq> set (db_columns db) \<and>
     {''messages'', ''subscriptions'', ''liveness''} \<subseteq> set (db_tables db)"
  by (cases "db_meta db") (auto simp: current_database_def persisted_version_def set_persisted_version_def
      update_conv' dget_default_def)

lemma initialize_known:
  assumes "known_database db"
  shows "\<exists>r. initialize_database db = (Inr r, snd (initialize_database db)) \<and>
    current_database (snd (initialize_database db)) \<and>
    db_rows (snd (initialize_database db)) = migrated_rows db"
proof -
  note defs = initialize_database_def migrate_def schema_version_def get_persisted_version_def Let_def
    column_exists_def apply_schema_columns migrated_rows_def
  consider (fresh) "''messages'' \<notin> set (db_tables db)" "persisted_version db = ''0.0''" "db_rows db = []"
    | (old) "''messages'' \<in> set (db_tables db)" "persisted_version db \<in> {''0.0'', ''1.0''}" "extra_columns db = []"
    | (seq) "''messages'' \<in> set (db_tables db)" "persisted_version db = ''1.1''" "extra_columns db = [''seq'']"
    | (reply) "''messages'' \<in> set (db_tables db)" "persisted_version db = ''1.2''"
        "extra_columns db = [''seq'', ''reply_to'']"
    | (current) "''messages'' \<in> set (db_tables db)" "persisted_version db = ''1.3''"
        "extra_columns db = [''seq'', ''reply_to'']"
    using assms by (auto simp: known_database_def split: if_splits)
  then show ?thesis
  proof cases
    case fresh
    then show ?thesis
      by (simp add: defs message_columns_def set_persisted_current)
  next
    case old
    then show ?thesis
      by (auto simp: defs extra_columns_mem chain_for_known migration_chain_def migrate_seq
          migrate_reply migrate_liveness set_persisted_current)
  next
    case seq
    then show ?thesis
      by (simp add: defs extra_columns_mem chain_for_known migration_chain_def migrate_reply
          migrate_liveness set_persisted_current)
  next
    case reply
    then show ?thesis
      by (simp add: defs extra_columns_mem chain_for_known migration_chain_def migrate_liveness
          set_persisted_current)
  next
    case current
    then show ?thesis
      by (simp add: defs extra_columns_mem current_database_def)
  qed
qed

lemma initialize_current:
  assumes "current_database db"
  shows "initialize_database db = (Inr (''1.3'', []), db)"
proof -
  have "apply_schema db = db"
    using assms by (simp add: apply_schema_def create_table_def current_database_def Let_def)
  moreover have "ensure_meta db = db"
    using assms by (auto simp: ensure_meta_def current_database_def persisted_version_def split: option.splits)
  ultimately show ?thesis
    using assms by (simp add: initialize_database_def migrate_def schema_version_def
        get_persisted_version_def current_database_def Let_def)
qed

lemma sort_key_map_id:
  assumes "\<And>x. f (g x) = f x"
  shows "sort_key f (map g xs) = map g (sort_key f xs)"
proof -
  have ins: "insort_key f (g x) (map g ys) = map g (insort_key f x ys)" for x ys
    by (induction ys) (simp_all add: assms)
  show ?thesis by (induction xs) (simp_all add: ins)
qed

lemma channel_rows_map:
  assumes "\<And>r. send_order (g r) = send_order r" and "\<And>r. rw_channel (g r) = rw_channel r"
  shows "channel_rows c (map g rows) = map g (channel_rows c rows)"
  by (simp add: channel_rows_def filter_map comp_def assms sort_key_map_id)

lemma migrated_numbers:
  assumes "''messages'' \<in> set (db_tables db)" and "''seq'' \<notin> set (db_columns db)"
    and "distinct (map rw_id (db_rows db))"
  shows "map rw_seq (channel_rows c (migrated_rows db)) =
    map int [1..<Suc (length (channel_rows c (db_rows db)))]"
proof -
  have num: "map rw_seq (channel_rows c (numbered_rows (db_rows db))) =
      map int [1..<Suc (length (channel_rows c (db_rows db)))]"
    unfolding numbered_rows_def
    by (subst channel_rows_map) (simp_all add: send_order_def comp_def row_numbers [OF assms(3)])
  have "map rw_seq (channel_rows c (map clear_reply rows)) = map rw_seq (channel_rows c rows)" for rows
    by (subst channel_rows_map) (simp_all add: send_order_def clear_reply_def comp_def)
  with num show ?thesis using assms(1,2) by (simp add: migrated_rows_def Let_def del: upt_Suc)
qed

lemma migrated_bare: "map bare_row (migrated_rows db) = (if ''messages'' \<in> set (db_tables db) then map bare_row (db_rows db) else [])"
  by (auto simp: migrated_rows_def numbered_rows_def clear_reply_def bare_row_def comp_def Let_def)

lemma Max_numbers: "0 < n \<Longrightarrow> Max (set (map int [1..<Suc n])) = int n"
  by (intro Max_eqI) auto

section \<open>Properties\<close>

definition old_row :: "int \<Rightarrow> channel \<Rightarrow> time \<Rightarrow> message_row" where
  "old_row i ch t = \<lparr>rw_id = i, rw_channel = ch, rw_sender = ''ann'', rw_body = [],
     rw_correlation_id = None, rw_sent_at = t, rw_delivered_to = [], rw_seq = 0, rw_reply_to = None\<rparr>"

definition old_database :: database where
  "old_database = \<lparr>db_meta = None, db_tables = [''messages'', ''subscriptions''],
     db_columns = take 7 message_columns, db_rows = [old_row 1 ''team'' 5, old_row 2 ''team'' 3]\<rparr>"

text \<open>
  C21. Opening a database of any known version succeeds and brings it to version 1.3 with all
  columns and tables; the rows are kept apart from the two added columns; opening it again
  changes nothing.
\<close>

theorem initialize_migrates:
  assumes "known_database db"
  shows "case initialize_database db of (r, db') \<Rightarrow>
    isl r = False \<and> current_database db' \<and> length (db_rows db') = length (db_rows db) \<and>
    map bare_row (db_rows db') = map bare_row (db_rows db) \<and>
    initialize_database db' = (Inr (''1.3'', []), db')"
proof -
  obtain r db' where i: "initialize_database db = (Inr r, db')" "current_database db'"
      "db_rows db' = migrated_rows db"
    using initialize_known [OF assms] by (metis prod.collapse snd_conv)
  have bare: "map bare_row (migrated_rows db) = map bare_row (db_rows db)"
    using assms by (auto simp: migrated_bare known_database_def)
  then have "length (migrated_rows db) = length (db_rows db)" by (rule map_eq_imp_length_eq)
  with bare show ?thesis by (simp add: i initialize_current)
qed

theorem initialize_migrates_witness:
  "case initialize_database old_database of (r, db') \<Rightarrow>
    isl r = False \<and> current_database db' \<and> length (db_rows db') = length (db_rows old_database) \<and>
    map bare_row (db_rows db') = map bare_row (db_rows old_database) \<and>
    initialize_database db' = (Inr (''1.3'', []), db')"
proof -
  have "known_database old_database" by code_simp
  then show ?thesis by (rule initialize_migrates)
qed

text \<open>
  C22. The numbers of an older database: after the migration the messages of a channel, in the
  order of sending, carry the numbers 1, 2, 3 and so on, and the next message sent there takes
  the number after the last.
\<close>

theorem migration_numbers:
  assumes "known_database db" and "''messages'' \<in> set (db_tables db)"
    and "''seq'' \<notin> set (db_columns db)" and "distinct (map rw_id (db_rows db))"
  shows "let rows = db_rows (snd (initialize_database db)); n = length (filter (\<lambda>r. rw_channel r = c) rows)
    in map rw_seq (channel_rows c rows) = map int [1..<Suc n] \<and> select_next_seq c rows = int n + 1"
proof -
  let ?rows = "db_rows (snd (initialize_database db))" and ?n = "length (channel_rows c (db_rows db))"
  have rows: "?rows = migrated_rows db" using initialize_known [OF assms(1)] by blast
  have nums: "map rw_seq (channel_rows c ?rows) = map int [1..<Suc ?n]"
    unfolding rows by (rule migrated_numbers [OF assms(2,3,4)])
  have "length (filter (\<lambda>r. rw_channel r = c) ?rows) = length (map rw_seq (channel_rows c ?rows))"
    by (simp add: channel_rows_def)
  also have "\<dots> = ?n" unfolding nums by (simp del: upt_Suc)
  finally have n: "length (filter (\<lambda>r. rw_channel r = c) ?rows) = ?n" .
  have seqs: "set (map rw_seq (filter (\<lambda>r. rw_channel r = c) ?rows)) = set (map int [1..<Suc ?n])"
    unfolding nums [symmetric] by (simp add: channel_rows_def)
  have "select_next_seq c ?rows = int ?n + 1"
  proof (cases "?n = 0")
    case True
    then show ?thesis using n by (simp add: select_next_seq_def)
  next
    case False
    then have "filter (\<lambda>r. rw_channel r = c) ?rows \<noteq> []" using n by auto
    moreover have "Max (set (map int [1..<Suc ?n])) = int ?n"
      using False by (intro Max_numbers) simp
    ultimately show ?thesis by (simp add: select_next_seq_def Let_def seqs del: set_map upt_Suc)
  qed
  with nums n show ?thesis by (simp add: Let_def del: upt_Suc)
qed

theorem migration_numbers_witness:
  "let rows = db_rows (snd (initialize_database old_database));
       n = length (filter (\<lambda>r. rw_channel r = ''team'') rows)
   in map rw_seq (channel_rows ''team'' rows) = map int [1..<Suc n] \<and> select_next_seq ''team'' rows = int n + 1"
proof -
  have "known_database old_database" "''messages'' \<in> set (db_tables old_database)"
    "''seq'' \<notin> set (db_columns old_database)" "distinct (map rw_id (db_rows old_database))"
    by code_simp+
  then show ?thesis by (rule migration_numbers)
qed

lemma migrate_seq_present:
  assumes "''seq'' \<in> set (db_columns db)"
  shows "apply_migration (''1.0'', ''1.1'') db = (Inr (), set_persisted_version ''1.1'' db)"
  using assms by (simp add: apply_migration_def migration_script_def migration_scripts needs_apply_def column_exists_def)

text \<open>The file after a crash between the two statements of the first script.\<close>

definition interrupted_backfill :: "database \<Rightarrow> database" where
  "interrupted_backfill db =
     snd (run_script (take 1 (the (migration_script (''1.0'', ''1.1'')))) (ensure_meta (apply_schema db)))"

lemma interrupted_backfill:
  assumes "''messages'' \<in> set (db_tables db)" and "''seq'' \<notin> set (db_columns db)"
  shows "interrupted_backfill db = (ensure_meta (apply_schema db))
    \<lparr>db_columns := db_columns db @ [''seq''], db_rows := map (\<lambda>r. r\<lparr>rw_seq := 0\<rparr>) (db_rows db)\<rparr>"
  using assms
  by (simp add: interrupted_backfill_def migration_script_def migration_scripts apply_schema_columns default_columns)

lemma initialize_past_seq:
  assumes "apply_schema d = d" and "ensure_meta d = d" and "db_meta d \<noteq> None"
    and "persisted_version d \<in> {''0.0'', ''1.0''}"
    and "''seq'' \<in> set (db_columns d)" and "''reply_to'' \<notin> set (db_columns d)"
    and "{''messages'', ''subscriptions'', ''liveness''} \<subseteq> set (db_tables d)"
  shows "current_database (snd (initialize_database d))"
    and "db_rows (snd (initialize_database d)) = map clear_reply (db_rows d)"
  using assms
  by (auto simp: initialize_database_def migrate_def schema_version_def get_persisted_version_def
      column_exists_def chain_for_known migration_chain_def Let_def
      migrate_seq_present migrate_reply migrate_liveness set_persisted_current)

text \<open>
  A migration is not safe against a crash: when the first script stops after its first
  statement, the next opening sees the new column, skips the script and reports the current
  version, but every old message has number 0 and the next message of any channel gets
  number 1.
\<close>

theorem migration_interrupted:
  assumes "known_database db" and "''messages'' \<in> set (db_tables db)" and "''seq'' \<notin> set (db_columns db)"
  shows "let db' = snd (initialize_database (interrupted_backfill db))
    in current_database db' \<and> map rw_seq (db_rows db') = replicate (length (db_rows db)) 0 \<and>
       select_next_seq c (db_rows db') = 1"
proof -
  let ?db = "interrupted_backfill db"
  let ?rows = "map (\<lambda>r. clear_reply (r\<lparr>rw_seq := 0\<rparr>)) (db_rows db)"
  have v: "persisted_version db \<in> {''0.0'', ''1.0''}" "extra_columns db = []"
    using assms by (auto simp: known_database_def extra_columns_mem)
  have r: "''reply_to'' \<notin> set (db_columns db)" using v(2) by (simp add: extra_columns_mem)
  have db: "db_columns ?db = db_columns db @ [''seq'']" "persisted_version ?db = persisted_version db"
      "{''messages'', ''subscriptions'', ''liveness''} \<subseteq> set (db_tables ?db)" "db_meta ?db \<noteq> None"
      "db_rows ?db = map (\<lambda>r. r\<lparr>rw_seq := 0\<rparr>) (db_rows db)"
    using assms persisted_version_def ensure_meta_simps(4) [of "apply_schema db"]
    by (auto simp: interrupted_backfill persisted_version_def simp del: ensure_meta_simps(4))
  have sch: "apply_schema ?db = ?db" "ensure_meta ?db = ?db"
    using db(3,4) by (auto simp: apply_schema_def create_table_def ensure_meta_def Let_def split: option.split)
  have "current_database (snd (initialize_database ?db)) \<and> db_rows (snd (initialize_database ?db)) = ?rows"
    using initialize_past_seq [OF sch db(4)] v(1) r db by (simp add: comp_def)
  moreover have "map rw_seq ?rows = replicate (length (db_rows db)) 0"
    by (simp add: clear_reply_def comp_def map_replicate_const)
  moreover have "select_next_seq c ?rows = 1"
  proof (cases "filter (\<lambda>r. rw_channel r = c) ?rows")
    case (Cons x xs)
    have "\<forall>r \<in> set ?rows. rw_seq r = 0" by (auto simp: clear_reply_def)
    moreover have "set (x # xs) \<subseteq> set ?rows" unfolding Cons [symmetric] by (rule filter_is_subset)
    ultimately have "set (map rw_seq (filter (\<lambda>r. rw_channel r = c) ?rows)) = {0}"
      unfolding Cons by auto
    then show ?thesis by (simp only: select_next_seq_def Let_def) simp
  qed (simp add: select_next_seq_def)
  ultimately show ?thesis by (simp add: Let_def)
qed

theorem migration_interrupted_witness:
  "let db' = snd (initialize_database (interrupted_backfill old_database))
   in current_database db' \<and> map rw_seq (db_rows db') = replicate (length (db_rows old_database)) 0 \<and>
      select_next_seq ''team'' (db_rows db') = 1"
proof -
  have "known_database old_database" "''messages'' \<in> set (db_tables old_database)"
    "''seq'' \<notin> set (db_columns old_database)"
    by code_simp+
  then show ?thesis by (rule migration_interrupted)
qed

end
