(* ===== verification/Filesystem_Store.thy ===== *)
theory Filesystem_Store
  imports Backing_Store Identity
begin

text \<open>
  The filesystem adapter (\<open>adapters/backing_stores/filesystem/store.py\<close>): one directory per
  channel with a file per message and a file per agent that lists what it has been handed.

  A directory is a dictionary from names to contents, in the order of creation, which stands
  for the order \<open>iterdir\<close> and \<open>glob\<close> leave open. JSON documents are held decoded. The model
  covers names that are one path component: a channel that is not empty, \<open>.\<close> or \<open>..\<close>, an agent
  id without a slash. The hex text of \<open>uuid4\<close> is an argument of \<open>send\<close>.
\<close>

section \<open>Channel names\<close>

definition encode_channel :: "channel \<Rightarrow> string" where
  "encode_channel ch =
     str_replace '':'' ''%3A'' (str_replace [CHR 0x5C] ''%5C'' (str_replace ''/'' ''%2F''
       (str_replace ''%'' ''%25'' ch)))"

definition decode_channel :: "string \<Rightarrow> channel" where
  "decode_channel dirname =
     str_replace ''%25'' ''%'' (str_replace ''%5C'' [CHR 0x5C] (str_replace ''%2F'' ''/''
       (str_replace ''%3A'' '':'' dirname)))"

section \<open>State\<close>

record fs_dir =
  fd_messages :: "(string \<times> pydict) list"
  fd_delivered :: "(agent \<times> string list) list"

definition empty_dir :: fs_dir where
  "empty_dir = \<lparr>fd_messages = [], fd_delivered = []\<rparr>"

text \<open>
  \<open>channels/\<close> and \<open>subscriptions/\<close>, and what the process holds in memory: the event and the
  tables \<open>__init_extras\<close> creates on first use.
\<close>

record fs_store =
  fs_channels :: "(string \<times> fs_dir) list"
  fs_subscriptions :: "(agent \<times> string list) list"
  fs_new_message_event :: bool
  fs_ack_records :: "(string \<times> ack_record) list"
  fs_liveness :: "(agent \<times> liveness_record) list"
  fs_groups :: "(string \<times> group_member list) list"

definition fs_init :: fs_store where
  "fs_init = \<lparr>fs_channels = [], fs_subscriptions = [], fs_new_message_event = False,
     fs_ack_records = [], fs_liveness = [], fs_groups = []\<rparr>"

section \<open>Helpers\<close>

definition fs_dir_of :: "channel \<Rightarrow> fs_store \<Rightarrow> fs_dir" where
  "fs_dir_of ch s = dget_default (fs_channels s) (encode_channel ch) empty_dir"

definition fs_put_dir :: "channel \<Rightarrow> fs_dir \<Rightarrow> fs_store \<Rightarrow> fs_store" where
  "fs_put_dir ch d s = s\<lparr>fs_channels := dset (fs_channels s) (encode_channel ch) d\<rparr>"

definition fs_patterns :: "fs_store \<Rightarrow> agent \<Rightarrow> string list" where
  "fs_patterns s a = dget_default (fs_subscriptions s) a []"

definition list_message_files :: "channel \<Rightarrow> fs_store \<Rightarrow> (string \<times> pydict) list" where
  "list_message_files ch s = sort_key fst (fd_messages (fs_dir_of ch s))"

definition get_delivered_set :: "channel \<Rightarrow> agent \<Rightarrow> fs_store \<Rightarrow> string set" where
  "get_delivered_set ch a s = set (dget_default (fd_delivered (fs_dir_of ch s)) a [])"

definition fs_mark_delivered :: "channel \<Rightarrow> agent \<Rightarrow> string list \<Rightarrow> fs_store \<Rightarrow> fs_store" where
  "fs_mark_delivered ch a filenames s =
     (let d = fs_dir_of ch s;
          updated = sort (remdups (dget_default (fd_delivered d) a [] @ filenames))
      in fs_put_dir ch (d\<lparr>fd_delivered := dset (fd_delivered d) a updated\<rparr>) s)"

definition fs_known_channels :: "fs_store \<Rightarrow> channel list" where
  "fs_known_channels s = map (decode_channel \<circ> fst) (fs_channels s)"

section \<open>send and recv\<close>

definition fs_payload ::
  "string \<Rightarrow> channel \<Rightarrow> agent \<Rightarrow> pydict \<Rightarrow> string option \<Rightarrow> time \<Rightarrow> int \<Rightarrow> string option \<Rightarrow> pydict"
where
  "fs_payload mid ch sender body corr sent_at seq reply_to =
     [(''message_id'', PStr mid), (''channel'', PStr ch), (''sender'', PStr sender),
      (''body'', PDict body), (''correlation_id'', opt_str corr), (''sent_at'', PFloat sent_at),
      (''seq'', PInt seq), (''reply_to'', opt_str reply_to)]"

definition fs_filename :: "time \<Rightarrow> string \<Rightarrow> string" where
  "fs_filename sent_at uuid = fixed6 sent_at @ ''_'' @ uuid @ ''.json''"

definition fs_message_id :: "channel \<Rightarrow> string \<Rightarrow> string" where
  "fs_message_id ch filename = encode_channel ch @ ''/'' @ filename"

definition fs_send ::
  "string \<Rightarrow> time \<Rightarrow> channel \<Rightarrow> agent \<Rightarrow> pydict \<Rightarrow> string option \<Rightarrow> string option \<Rightarrow> fs_store \<Rightarrow>
     send_result \<times> fs_store"
where
  "fs_send uuid now ch sender body corr reply_to s =
     (let filename = fs_filename now uuid;
          message_id = fs_message_id ch filename;
          d = fs_dir_of ch s;
          queue_depth = int (length (fd_messages d));
          seq = queue_depth + 1;
          payload = fs_payload message_id ch sender body corr now seq reply_to
      in ((message_id, now, seq, send_backpressure queue_depth),
          (fs_put_dir ch (d\<lparr>fd_messages := dset (fd_messages d) filename payload\<rparr>) s)
            \<lparr>fs_new_message_event := True\<rparr>))"

fun fs_scan_files ::
  "int \<Rightarrow> string set \<Rightarrow> (string \<times> pydict) list \<Rightarrow> pydict list \<Rightarrow> string list \<Rightarrow> pydict list \<times> string list"
where
  "fs_scan_files mx delivered [] msgs marked = (msgs, marked)"
| "fs_scan_files mx delivered ((fname, m) # files) msgs marked =
     (if int (length msgs) \<ge> mx then (msgs, marked)
      else if fname \<in> delivered then fs_scan_files mx delivered files msgs marked
      else fs_scan_files mx delivered files (msgs @ [m]) (marked @ [fname]))"

text \<open>\<open>to_mark\<close> is a dictionary from channels to the names of the files handed over.\<close>

fun fs_scan_channels ::
  "agent \<Rightarrow> int \<Rightarrow> fs_store \<Rightarrow> channel list \<Rightarrow> pydict list \<Rightarrow> (channel \<times> string list) list \<Rightarrow>
     pydict list \<times> (channel \<times> string list) list"
where
  "fs_scan_channels a mx s [] msgs to_mark = (msgs, to_mark)"
| "fs_scan_channels a mx s (ch # chs) msgs to_mark =
     (let (msgs', marked) = fs_scan_files mx (get_delivered_set ch a s) (list_message_files ch s) msgs []
      in fs_scan_channels a mx s chs msgs'
           (if marked = [] then to_mark else dset to_mark ch (dget_default to_mark ch [] @ marked)))"

definition str_field :: "string \<Rightarrow> pydict \<Rightarrow> string" where
  "str_field k m = (case dget m k of Some (PStr s) \<Rightarrow> s | _ \<Rightarrow> [])"

definition time_field :: "string \<Rightarrow> pydict \<Rightarrow> time" where
  "time_field k m = (case dget m k of Some (PFloat x) \<Rightarrow> x | _ \<Rightarrow> 0)"

definition int_field :: "string \<Rightarrow> pydict \<Rightarrow> int" where
  "int_field k m = (case dget m k of Some (PInt i) \<Rightarrow> i | _ \<Rightarrow> 0)"

definition fs_mark_all :: "agent \<Rightarrow> (channel \<times> string list) list \<Rightarrow> fs_store \<Rightarrow> fs_store" where
  "fs_mark_all a to_mark s = foldl (\<lambda>s (ch, filenames). fs_mark_delivered ch a filenames s) s to_mark"

definition fs_targets :: "agent \<Rightarrow> channel list option \<Rightarrow> fs_store \<Rightarrow> channel list" where
  "fs_targets a chans s =
     (case chans of None \<Rightarrow> filter (\<lambda>ch. matches_any ch (fs_patterns s a)) (fs_known_channels s)
      | Some cs \<Rightarrow> cs)"

definition fs_recv :: "agent \<Rightarrow> channel list option \<Rightarrow> int \<Rightarrow> fs_store \<Rightarrow> pydict list \<times> fs_store" where
  "fs_recv a chans max_messages s =
     (let (msgs, to_mark) = fs_scan_channels a max_messages s (fs_targets a chans s) [] []
      in (sort_key (\<lambda>m. (str_field ''channel'' m, time_field ''sent_at'' m)) msgs, fs_mark_all a to_mark s))"

section \<open>Subscriptions\<close>

definition fs_subscribe :: "agent \<Rightarrow> string \<Rightarrow> fs_store \<Rightarrow> channel list \<times> fs_store" where
  "fs_subscribe a p s =
     (let patterns = fs_patterns s a;
          s' = (if p \<in> set patterns then s
                else s\<lparr>fs_subscriptions := dset (fs_subscriptions s) a (patterns @ [p])\<rparr>)
      in (filter (\<lambda>ch. fnmatchcase ch p) (fs_known_channels s'), s'))"

definition fs_list_channels :: "time \<Rightarrow> time option \<Rightarrow> fs_store \<Rightarrow> (channel \<times> int) list" where
  "fs_list_channels now since s =
     (let cutoff = (case since of Some t \<Rightarrow> t | None \<Rightarrow> now - 86400);
          count = (\<lambda>ch. int (length (filter (matches_any ch) (map snd (fs_subscriptions s)))));
          recent = (\<lambda>ch. \<exists>f \<in> set (list_message_files ch s). time_field ''sent_at'' (snd f) \<ge> cutoff)
      in map (\<lambda>ch. (ch, count ch))
           (filter (\<lambda>ch. recent ch \<or> count ch \<noteq> 0) (sort (fs_known_channels s))))"

definition fs_clear_channel ::
  "agent \<Rightarrow> string list \<Rightarrow> channel \<Rightarrow> fs_store \<times> int \<Rightarrow> fs_store \<times> int"
where
  "fs_clear_channel a removed ch acc =
     (let (s, cleared) = acc;
          to_mark = filter (\<lambda>f. f \<notin> get_delivered_set ch a s) (map fst (list_message_files ch s))
      in if \<not> matches_any ch removed \<or> to_mark = [] then acc
         else (fs_mark_delivered ch a to_mark s, cleared + int (length to_mark)))"

definition fs_unsubscribe ::
  "agent \<Rightarrow> string list \<Rightarrow> fs_store \<Rightarrow> (string list \<times> int) \<times> fs_store"
where
  "fs_unsubscribe a patterns s =
     (let existing = fs_patterns s a;
          removed = filter (\<lambda>p. p \<in> set patterns) existing;
          kept = filter (\<lambda>p. p \<notin> set patterns) existing
      in if removed = [] then ((removed, 0), s)
         else (let s1 = s\<lparr>fs_subscriptions := dset (fs_subscriptions s) a kept\<rparr>;
                   (s2, cleared) = fold (fs_clear_channel a removed) (fs_known_channels s1) (s1, 0)
               in ((removed, cleared), s2)))"

section \<open>watch\<close>

text \<open>\<open>seen\<close> is the set of file names of the generator; one poll yields what is new.\<close>

definition fs_watch_start :: "agent \<Rightarrow> fs_store \<Rightarrow> string set" where
  "fs_watch_start a s = (\<Union>ch \<in> set (fs_targets a None s). get_delivered_set ch a s)"

definition fs_watch_file ::
  "string set \<Rightarrow> string \<times> pydict \<Rightarrow> pydict list \<times> string set \<Rightarrow> pydict list \<times> string set"
where
  "fs_watch_file delivered file acc =
     (let (out, seen) = acc; (fname, msg) = file
      in if fname \<in> seen then acc
         else if fname \<in> delivered then (out, insert fname seen)
         else (out @ [msg], insert fname seen))"

definition fs_watch_poll :: "agent \<Rightarrow> string set \<Rightarrow> fs_store \<Rightarrow> pydict list \<times> string set" where
  "fs_watch_poll a seen s =
     fold (\<lambda>ch. fold (fs_watch_file (get_delivered_set ch a s)) (list_message_files ch s))
       (fs_targets a None s) ([], seen)"

section \<open>Acknowledgement, liveness and replay\<close>

definition fs_ack ::
  "time \<Rightarrow> agent \<Rightarrow> string \<Rightarrow> string \<Rightarrow> string option \<Rightarrow> fs_store \<Rightarrow> (string \<times> string \<times> time) \<times> fs_store"
where
  "fs_ack now a message_id status reason s =
     ((message_id, status, now),
      s\<lparr>fs_ack_records := dset (fs_ack_records s) message_id
          \<lparr>ak_agent_id = a, ak_status = status, ak_reason = reason, ak_acked_at = now\<rparr>\<rparr>)"

definition fs_heartbeat ::
  "string \<Rightarrow> time \<Rightarrow> time \<Rightarrow> agent \<Rightarrow> string \<Rightarrow> int option \<Rightarrow> fs_store \<Rightarrow>
     (agent \<times> string \<times> time \<times> time) \<times> fs_store"
where
  "fs_heartbeat uuid now sent_at a status ttl s =
     (let expires_at = now + real_of_int (effective_ttl ttl);
          ns = (case dget (fs_liveness s) a of None \<Rightarrow> None | Some r \<Rightarrow> lv_namespace r);
          s1 = s\<lparr>fs_liveness := dset (fs_liveness s) a
                   \<lparr>lv_status = status, lv_recorded_at = now, lv_expires_at = expires_at,
                    lv_namespace = ns\<rparr>\<rparr>;
          (r, s2) = fs_send uuid sent_at ''sox/presence'' ''__server__''
                      [(''event'', PStr (''agent_'' @ status)), (''agent_id'', PStr a),
                       (''state'', PStr status), (''changed_at'', PFloat now)] None None s1
      in ((a, status, now, expires_at), s2))"

fun fs_list_agents_loop ::
  "time \<Rightarrow> string list option \<Rightarrow> string option \<Rightarrow> (agent \<times> liveness_record) list \<Rightarrow> agent_entry list"
where
  "fs_list_agents_loop now status_filter ns [] = []"
| "fs_list_agents_loop now status_filter ns ((aid, rec) # recs) =
     (if ns \<noteq> None \<and> lv_namespace rec \<noteq> ns then fs_list_agents_loop now status_filter ns recs
      else let presence = presence_of now (lv_status rec) (lv_expires_at rec)
           in if (case status_filter of None \<Rightarrow> False | Some f \<Rightarrow> presence \<notin> set f)
              then fs_list_agents_loop now status_filter ns recs
              else \<lparr>ae_agent_id = aid, ae_presence_state = presence,
                    ae_last_heartbeat_at = trunc_real (lv_recorded_at rec * 1000000000),
                    ae_namespace = lv_namespace rec\<rparr>
                   # fs_list_agents_loop now status_filter ns recs)"

definition fs_list_agents :: "time \<Rightarrow> string list option \<Rightarrow> string option \<Rightarrow> fs_store \<Rightarrow> agent_entry list" where
  "fs_list_agents now status_filter ns s = fs_list_agents_loop now status_filter ns (fs_liveness s)"

definition fs_replay :: "channel \<Rightarrow> int \<Rightarrow> int option \<Rightarrow> int \<Rightarrow> fs_store \<Rightarrow> pydict list \<times> bool" where
  "fs_replay ch since until_seq limit s =
     (let matches = sort_key (\<lambda>m. (int_field ''seq'' m, str_field ''message_id'' m))
            (filter (\<lambda>m. int_field ''seq'' m \<ge> since \<and>
               (case until_seq of None \<Rightarrow> True | Some u \<Rightarrow> int_field ''seq'' m \<le> u))
              (map snd (list_message_files ch s)))
      in (slice_to limit matches, int (length matches) > limit))"

section \<open>Groups\<close>

definition fs_group_create ::
  "time \<Rightarrow> agent \<Rightarrow> string option \<Rightarrow> fs_store \<Rightarrow> (string \<times> time) \<times> fs_store"
where
  "fs_group_create now creator group_id s =
     (let bare = (case group_id of Some g \<Rightarrow> if g \<noteq> [] then g else ''grp-'' @ str_int (trunc_real now)
                  | None \<Rightarrow> ''grp-'' @ str_int (trunc_real now));
          full_id = ''group/'' @ bare;
          s1 = s\<lparr>fs_groups := dset (fs_groups s) full_id
                   [\<lparr>gm_agent_id = creator, gm_status = ''active'', gm_joined_at = now\<rparr>]\<rparr>
      in ((full_id, now), snd (fs_subscribe creator full_id s1)))"

definition fs_group_invite ::
  "time \<Rightarrow> agent \<Rightarrow> string \<Rightarrow> agent \<Rightarrow> fs_store \<Rightarrow> (agent \<times> time) result \<times> fs_store"
where
  "fs_group_invite now inviter group_id invitee s =
     (let members = dget_default (fs_groups s) group_id []
      in if \<not> active_member inviter members
         then (Inl (ValueError ''inviter is not an active member''), s)
         else let members' = (if list_ex (\<lambda>m. gm_agent_id m = invitee) members then members
                else members @ [\<lparr>gm_agent_id = invitee, gm_status = ''invited'', gm_joined_at = now\<rparr>])
              in (Inr (invitee, now), s\<lparr>fs_groups := dset (fs_groups s) group_id members'\<rparr>))"

definition fs_group_join ::
  "time \<Rightarrow> agent \<Rightarrow> string \<Rightarrow> fs_store \<Rightarrow> (string \<times> int \<times> time) \<times> fs_store"
where
  "fs_group_join now a group_id s =
     (let members = activate_first a now (dget_default (fs_groups s) group_id []);
          s1 = (if has_key (fs_groups s) group_id
                then s\<lparr>fs_groups := dset (fs_groups s) group_id members\<rparr> else s)
      in ((group_id, active_count members, now), snd (fs_subscribe a group_id s1)))"

definition fs_group_leave ::
  "time \<Rightarrow> agent \<Rightarrow> string \<Rightarrow> fs_store \<Rightarrow> (string \<times> time) \<times> fs_store"
where
  "fs_group_leave now a group_id s =
     (let members = dget_default (fs_groups s) group_id []
      in ((group_id, now),
          s\<lparr>fs_groups := dset (fs_groups s) group_id (filter (\<lambda>m. gm_agent_id m \<noteq> a) members),
            fs_subscriptions := dset (fs_subscriptions s) a (filter (\<lambda>p. p \<noteq> group_id) (fs_patterns s a))\<rparr>))"

definition fs_group_list_members :: "agent \<Rightarrow> string \<Rightarrow> fs_store \<Rightarrow> string \<times> group_member list" where
  "fs_group_list_members a group_id s = (group_id, dget_default (fs_groups s) group_id [])"

end
