(* ===== verification/Filesystem_Proofs.thy ===== *)
theory Filesystem_Proofs
  imports Filesystem_Store
begin

text \<open>
  The filesystem adapter keeps the delivery and numbering contract of the port: channel names
  survive their encoding, files are found under their channel, and the lists of delivered
  files grow by what \<open>recv\<close> hands over.
\<close>

section \<open>Channel names\<close>

definition escape :: "char set \<Rightarrow> char \<Rightarrow> string" where
  "escape S c =
     (if c \<notin> S then [c]
      else if c = CHR ''%'' then ''%25''
      else if c = CHR ''/'' then ''%2F''
      else if c = CHR 0x5C then ''%5C''
      else if c = CHR '':'' then ''%3A''
      else [c])"

lemma str_replace_map:
  assumes "\<And>x rest. str_replace old new (f x @ rest) = g x @ str_replace old new rest"
  shows "str_replace old new (concat (map f xs)) = concat (map g xs)"
  by (induction xs) (simp_all add: assms)

lemma str_replace_skip:
  assumes "\<not> starts_with (c # cs) old"
  shows "str_replace old new (c # cs) = c # str_replace old new cs"
  using assms by (simp add: str_replace.simps)

lemma str_replace_hit:
  "old \<noteq> [] \<Longrightarrow> str_replace old new (old @ rest) = new @ str_replace old new rest"
  by (cases old) (simp_all add: str_replace.simps, simp add: starts_with_def)

lemma starts_with_simps [simp]:
  "starts_with s []" "starts_with [] (c # cs) = False"
  "starts_with (d # ds) (c # cs) = (c = d \<and> starts_with ds cs)"
  by (auto simp: starts_with_def)

lemmas replace_simps = str_replace_skip str_replace.simps(2) escape_def

lemma encode_escape:
  "encode_channel ch = concat (map (escape {CHR ''%'', CHR ''/'', CHR 0x5C, CHR '':''}) ch)"
proof -
  have 1: "str_replace ''%'' ''%25'' ch = concat (map (escape {CHR ''%''}) ch)"
    using str_replace_map [of "''%''" "''%25''" "\<lambda>c. [c]" "escape {CHR ''%''}" ch]
    by (simp add: replace_simps)
  have 2: "str_replace ''/'' ''%2F'' (concat (map (escape {CHR ''%''}) ch)) =
      concat (map (escape {CHR ''%'', CHR ''/''}) ch)"
    by (rule str_replace_map) (simp add: replace_simps)
  have 3: "str_replace [CHR 0x5C] ''%5C'' (concat (map (escape {CHR ''%'', CHR ''/''}) ch)) =
      concat (map (escape {CHR ''%'', CHR ''/'', CHR 0x5C}) ch)"
    by (rule str_replace_map) (simp add: replace_simps)
  have 4: "str_replace '':'' ''%3A'' (concat (map (escape {CHR ''%'', CHR ''/'', CHR 0x5C}) ch)) =
      concat (map (escape {CHR ''%'', CHR ''/'', CHR 0x5C, CHR '':''}) ch)"
    by (rule str_replace_map) (simp add: replace_simps)
  show ?thesis by (simp add: encode_channel_def 1 2 3 4)
qed

lemma decode_escape:
  "decode_channel (concat (map (escape {CHR ''%'', CHR ''/'', CHR 0x5C, CHR '':''}) ch)) = ch"
proof -
  have 1: "str_replace ''%3A'' '':'' (concat (map (escape {CHR ''%'', CHR ''/'', CHR 0x5C, CHR '':''}) ch)) =
      concat (map (escape {CHR ''%'', CHR ''/'', CHR 0x5C}) ch)"
    by (rule str_replace_map) (simp add: replace_simps)
  have 2: "str_replace ''%2F'' ''/'' (concat (map (escape {CHR ''%'', CHR ''/'', CHR 0x5C}) ch)) =
      concat (map (escape {CHR ''%'', CHR 0x5C}) ch)"
    by (rule str_replace_map) (simp add: replace_simps)
  have 3: "str_replace ''%5C'' [CHR 0x5C] (concat (map (escape {CHR ''%'', CHR 0x5C}) ch)) =
      concat (map (escape {CHR ''%''}) ch)"
    by (rule str_replace_map) (simp add: replace_simps)
  have 4: "str_replace ''%25'' ''%'' (concat (map (escape {CHR ''%''}) ch)) = concat (map (escape {}) ch)"
    by (rule str_replace_map) (simp add: replace_simps)
  have 5: "concat (map (escape {}) ch) = ch" by (induction ch) (simp_all add: escape_def)
  show ?thesis by (simp add: decode_channel_def 1 2 3 4 5)
qed

lemma decode_encode [simp]: "decode_channel (encode_channel ch) = ch"
  by (simp add: encode_escape decode_escape)

lemma encode_inject [simp]: "encode_channel ch = encode_channel ch' \<longleftrightarrow> ch = ch'"
  by (metis decode_encode)

lemma encode_no_slash: "CHR ''/'' \<notin> set (encode_channel ch)"
  by (auto simp: encode_escape escape_def split: if_splits)

lemma split_at_slash:
  assumes "xs @ c # ys = xs' @ c # ys'" and "c \<notin> set xs" and "c \<notin> set xs'"
  shows "xs = xs' \<and> ys = ys'"
  using assms
proof (induction xs arbitrary: xs')
  case Nil
  then show ?case by (cases xs') auto
next
  case (Cons x xs)
  then show ?case by (cases xs') auto
qed

lemma fs_message_id_inject [simp]:
  "fs_message_id ch f = fs_message_id ch' f' \<longleftrightarrow> ch = ch' \<and> f = f'"
  using split_at_slash [of "encode_channel ch" _ f "encode_channel ch'" f'] encode_no_slash
  by (auto simp: fs_message_id_def)

section \<open>Files and marks of a channel\<close>

definition fs_files :: "channel \<Rightarrow> fs_store \<Rightarrow> (string \<times> pydict) list" where
  "fs_files ch s = fd_messages (fs_dir_of ch s)"

lemma fs_dir_of_put [simp]:
  "fs_dir_of ch' (fs_put_dir ch d s) = (if ch' = ch then d else fs_dir_of ch' s)"
  by (simp add: fs_dir_of_def fs_put_dir_def dget_default_def update_conv')

lemma fs_put_dir_fields [simp]:
  "fs_subscriptions (fs_put_dir ch d s) = fs_subscriptions s"
  "fs_patterns (fs_put_dir ch d s) a = fs_patterns s a"
  by (simp_all add: fs_put_dir_def fs_patterns_def)

lemma fs_dir_cong: "fs_channels s' = fs_channels s \<Longrightarrow> fs_dir_of ch s' = fs_dir_of ch s"
  by (simp add: fs_dir_of_def)

lemma fs_mark_files [simp]: "fs_files ch' (fs_mark_delivered ch a fs s) = fs_files ch' s"
  by (simp add: fs_files_def fs_mark_delivered_def Let_def)

lemma fs_mark_patterns [simp]: "fs_patterns (fs_mark_delivered ch a fs s) b = fs_patterns s b"
  by (simp add: fs_mark_delivered_def Let_def)

lemma fs_mark_delivered_set:
  "get_delivered_set ch' b (fs_mark_delivered ch a fs s) =
     get_delivered_set ch' b s \<union> (if ch' = ch \<and> b = a then set fs else {})"
  by (auto simp: get_delivered_set_def fs_mark_delivered_def Let_def dget_default_def update_conv')

lemma list_message_files_set [simp]: "set (list_message_files ch s) = set (fs_files ch s)"
  by (simp add: list_message_files_def fs_files_def)

section \<open>What \<open>recv\<close> picks\<close>

text \<open>The files of a channel the agent has not been handed, in the order of their names.\<close>

definition fs_new :: "channel \<Rightarrow> agent \<Rightarrow> fs_store \<Rightarrow> (string \<times> pydict) list" where
  "fs_new ch a s = filter (\<lambda>f. fst f \<notin> get_delivered_set ch a s) (list_message_files ch s)"

fun fs_picks :: "agent \<Rightarrow> int \<Rightarrow> fs_store \<Rightarrow> channel list \<Rightarrow> nat \<Rightarrow> (channel \<times> (string \<times> pydict) list) list" where
  "fs_picks a mx s [] n = []"
| "fs_picks a mx s (ch # chs) n =
     (let t = take (nat (mx - int n)) (fs_new ch a s) in (ch, t) # fs_picks a mx s chs (n + length t))"

lemma scan_files:
  "fs_scan_files mx D files msgs marked =
     (let t = take (nat (mx - int (length msgs))) (filter (\<lambda>f. fst f \<notin> D) files)
      in (msgs @ map snd t, marked @ map fst t))"
proof (induction files arbitrary: msgs marked)
  case (Cons x files)
  obtain f m where x: "x = (f, m)" by (cases x)
  show ?case
  proof (cases "int (length msgs) \<ge> mx")
    case False
    then have "nat (mx - int (length msgs)) = Suc (nat (mx - int (length (msgs @ [m]))))"
      by (auto simp: nat_eq_iff)
    with False Cons.IH show ?thesis by (simp add: x Let_def)
  qed (simp add: x)
qed simp

lemma update_absent: "k \<notin> fst ` set al \<Longrightarrow> dset al k v = al @ [(k, v)]"
  by (induction al) auto

definition picked_names :: "(channel \<times> (string \<times> pydict) list) list \<Rightarrow> (channel \<times> string list) list" where
  "picked_names picks = map (\<lambda>(ch, t). (ch, map fst t)) (filter (\<lambda>p. snd p \<noteq> []) picks)"

lemma picked_names_Cons [simp]:
  "picked_names ((ch, t) # ps) = (if t = [] then [] else [(ch, map fst t)]) @ picked_names ps"
  by (simp add: picked_names_def)

lemma dget_default_absent: "k \<notin> fst ` set al \<Longrightarrow> dget_default al k d = d"
  by (auto simp: dget_default_def dest: map_of_SomeD split: option.split) (force dest: map_of_SomeD)

lemma scan_channels:
  assumes "distinct chs" and "set chs \<inter> fst ` set to_mark = {}"
  shows "fs_scan_channels a mx s chs msgs to_mark =
    (msgs @ map snd (concat (map snd (fs_picks a mx s chs (length msgs)))),
     to_mark @ picked_names (fs_picks a mx s chs (length msgs)))"
  using assms
proof (induction chs arbitrary: msgs to_mark)
  case (Cons ch chs)
  define t where "t = take (nat (mx - int (length msgs))) (fs_new ch a s)"
  let ?tm = "if t = [] then to_mark else to_mark @ [(ch, map fst t)]"
  have ch: "ch \<notin> fst ` set to_mark" using Cons.prems(2) by auto
  have "set chs \<inter> fst ` set ?tm = {}" using Cons.prems by auto
  then have "fs_scan_channels a mx s chs (msgs @ map snd t) ?tm =
      ((msgs @ map snd t) @ map snd (concat (map snd (fs_picks a mx s chs (length (msgs @ map snd t))))),
       ?tm @ picked_names (fs_picks a mx s chs (length (msgs @ map snd t))))"
    using Cons.IH Cons.prems(1) by simp
  moreover have "fs_scan_channels a mx s (ch # chs) msgs to_mark = fs_scan_channels a mx s chs (msgs @ map snd t) ?tm"
    by (simp add: scan_files Let_def update_absent [OF ch] dget_default_absent [OF ch] t_def fs_new_def)
  moreover have "fs_picks a mx s (ch # chs) (length msgs) = (ch, t) # fs_picks a mx s chs (length msgs + length t)"
    by (simp add: t_def Let_def)
  ultimately show ?case by (simp del: fs_picks.simps fs_scan_channels.simps)
qed (simp add: picked_names_def)

lemma mark_all_files [simp]: "fs_files ch (fs_mark_all a tm s) = fs_files ch s"
  unfolding fs_mark_all_def by (induction tm arbitrary: s) auto

lemma mark_all_patterns [simp]: "fs_patterns (fs_mark_all a tm s) b = fs_patterns s b"
  unfolding fs_mark_all_def by (induction tm arbitrary: s) auto

lemma mark_all_delivered:
  "get_delivered_set ch b (fs_mark_all a tm s) =
     get_delivered_set ch b s \<union> (if b = a then {f. \<exists>fs. (ch, fs) \<in> set tm \<and> f \<in> set fs} else {})"
  unfolding fs_mark_all_def
  by (induction tm arbitrary: s) (auto simp: fs_mark_delivered_set split: if_splits)

lemma picks_subset:
  assumes "(ch, t) \<in> set (fs_picks a mx s chs n)"
  shows "ch \<in> set chs" and "set t \<subseteq> set (fs_new ch a s)" and "\<exists>n. t = take n (fs_new ch a s)"
  using assms
  by (induction chs arbitrary: n) (auto simp: Let_def dest: in_set_takeD)

lemma picks_channels: "map fst (fs_picks a mx s chs n) = chs"
  by (induction chs arbitrary: n) (simp_all add: Let_def)

section \<open>Runs\<close>

text \<open>
  One call on the adapter. The second part of the state numbers the calls of \<open>uuid4\<close>.
\<close>

fun fs_step :: "store_op \<Rightarrow> fs_store \<times> nat \<Rightarrow> (agent \<times> string) list \<times> fs_store \<times> nat" where
  "fs_step (Send now ch sender body corr rt) (s, k) =
     ([], snd (fs_send (str_nat k) now ch sender body corr rt s), Suc k)"
| "fs_step (Recv a chans mx) (s, k) =
     (case fs_recv a chans mx s of (msgs, s') \<Rightarrow> (map (\<lambda>m. (a, wire_id m)) msgs, s', k))"
| "fs_step (Subscribe a p) (s, k) = ([], snd (fs_subscribe a p s), k)"
| "fs_step (Unsubscribe a ps) (s, k) = ([], snd (fs_unsubscribe a ps s), k)"
| "fs_step (Ack now a mid status reason) (s, k) = ([], snd (fs_ack now a mid status reason s), k)"
| "fs_step (Heartbeat now a status ttl) (s, k) =
     ([], snd (fs_heartbeat (str_nat k) now now a status ttl s), Suc k)"
| "fs_step (GroupCreate now a g) (s, k) = ([], snd (fs_group_create now a g s), k)"
| "fs_step (GroupInvite now a g b) (s, k) = ([], snd (fs_group_invite now a g b s), k)"
| "fs_step (GroupJoin now a g) (s, k) = ([], snd (fs_group_join now a g s), k)"
| "fs_step (GroupLeave now a g) (s, k) = ([], snd (fs_group_leave now a g s), k)"

text \<open>
  \<open>recv\<close> reads the list of delivered files once for each channel it is given, so the contract is
  about calls that name no channel twice; \<open>fs_once_step\<close> is the step with the repetitions left out.
\<close>

fun names_once :: "store_op \<Rightarrow> bool" where
  "names_once (Recv a (Some chs) n) \<longleftrightarrow> distinct chs"
| "names_once _ \<longleftrightarrow> True"

fun without_repeats :: "store_op \<Rightarrow> store_op" where
  "without_repeats (Recv a chans n) = Recv a (map_option remdups chans) n"
| "without_repeats op = op"

definition fs_once_step :: "store_op \<Rightarrow> fs_store \<times> nat \<Rightarrow> (agent \<times> string) list \<times> fs_store \<times> nat" where
  "fs_once_step op = fs_step (without_repeats op)"

lemma fs_once_step_simps [simp]:
  "fs_once_step (Recv a chans mx) (s, k) =
     (case fs_recv a (map_option remdups chans) mx s of (msgs, s') \<Rightarrow> (map (\<lambda>m. (a, wire_id m)) msgs, s', k))"
  "(\<forall>a chans n. op \<noteq> Recv a chans n) \<Longrightarrow> fs_once_step op st = fs_step op st"
  by (simp add: fs_once_step_def) (cases op; simp add: fs_once_step_def)

lemma fs_once_step_eq: "names_once op \<Longrightarrow> fs_once_step op = fs_step op"
proof (cases op)
  case (Recv a chans n)
  then show "names_once op \<Longrightarrow> fs_once_step op = fs_step op"
    by (cases chans) (simp_all add: fs_once_step_def distinct_remdups_id)
qed (simp_all add: fs_once_step_def)

lemma run_once_eq:
  "list_all names_once ops \<Longrightarrow> run_ops fs_once_step ops st = run_ops fs_step ops st"
  by (induction ops arbitrary: st) (simp_all add: fs_once_step_eq)

definition fs_named :: "nat \<Rightarrow> channel \<Rightarrow> string \<times> pydict \<Rightarrow> bool" where
  "fs_named k ch file \<longleftrightarrow> wire_id (snd file) = fs_message_id ch (fst file) \<and>
     (\<exists>t. \<exists>j < k. fst file = fs_filename t (str_nat j))"

fun fs_inv :: "fs_store \<times> nat \<Rightarrow> bool" where
  "fs_inv (s, k) \<longleftrightarrow>
     distinct (map fst (fs_channels s)) \<and> fst ` set (fs_channels s) \<subseteq> range encode_channel \<and>
     (\<forall>ch. distinct (map fst (fs_files ch s))) \<and> (\<forall>ch. \<forall>file \<in> set (fs_files ch s). fs_named k ch file)"

fun fs_delivered :: "fs_store \<times> nat \<Rightarrow> (agent \<times> string) set" where
  "fs_delivered (s, k) = {(a, fs_message_id ch f) | a ch f. f \<in> get_delivered_set ch a s}"

fun fs_pending :: "fs_store \<times> nat \<Rightarrow> (agent \<times> string) set" where
  "fs_pending (s, k) = {(a, fs_message_id ch f) | a ch f. f \<in> fst ` set (fs_files ch s) \<and>
     f \<notin> get_delivered_set ch a s \<and> matches_any ch (fs_patterns s a)}"

fun fs_seqs :: "fs_store \<times> nat \<Rightarrow> channel \<Rightarrow> int list" where
  "fs_seqs (s, k) ch = map (int_field ''seq'' \<circ> snd) (fs_files ch s)"

lemma fs_inv_init: "fs_inv (fs_init, 0)"
  by (simp add: fs_init_def fs_files_def fs_dir_of_def dget_default_def empty_dir_def)

lemma known_channels_distinct:
  assumes "fs_inv (s, k)"
  shows "distinct (fs_known_channels s)"
proof -
  have "inj_on decode_channel (range encode_channel)" by (auto simp: inj_on_def)
  then have "inj_on decode_channel (fst ` set (fs_channels s))"
    using assms by (auto intro: inj_on_subset)
  then show ?thesis
    using assms by (simp add: fs_known_channels_def distinct_map comp_inj_on)
qed

lemma known_channel:
  assumes "fs_files ch s \<noteq> []" shows "ch \<in> set (fs_known_channels s)"
proof -
  have "has_key (fs_channels s) (encode_channel ch)"
    using assms by (auto simp: fs_files_def fs_dir_of_def dget_default_def empty_dir_def
        map_of_Some_has_key split: option.splits)
  then have "encode_channel ch \<in> fst ` set (fs_channels s)"
    by (simp add: has_key_def)
  then show ?thesis by (force simp: fs_known_channels_def)
qed

section \<open>\<open>recv\<close> against the marks\<close>

lemma fs_update_dir [simp]:
  "fs_dir_of ch (s\<lparr>fs_subscriptions := x1\<rparr>) = fs_dir_of ch s"
  "fs_dir_of ch (s\<lparr>fs_new_message_event := x2\<rparr>) = fs_dir_of ch s"
  "fs_dir_of ch (s\<lparr>fs_ack_records := x3\<rparr>) = fs_dir_of ch s"
  "fs_dir_of ch (s\<lparr>fs_liveness := x4\<rparr>) = fs_dir_of ch s"
  "fs_dir_of ch (s\<lparr>fs_groups := x5\<rparr>) = fs_dir_of ch s"
  by (simp_all add: fs_dir_of_def)

lemma fs_update_patterns [simp]:
  "fs_patterns (s\<lparr>fs_new_message_event := x2\<rparr>) a = fs_patterns s a"
  "fs_patterns (s\<lparr>fs_ack_records := x3\<rparr>) a = fs_patterns s a"
  "fs_patterns (s\<lparr>fs_liveness := x4\<rparr>) a = fs_patterns s a"
  "fs_patterns (s\<lparr>fs_groups := x5\<rparr>) a = fs_patterns s a"
  "fs_patterns (s\<lparr>fs_subscriptions := dset (fs_subscriptions s) b ps\<rparr>) a = (if a = b then ps else fs_patterns s a)"
  by (simp_all add: fs_patterns_def dget_default_def update_conv')

definition fs_recv_picks :: "agent \<Rightarrow> channel list option \<Rightarrow> int \<Rightarrow> fs_store \<Rightarrow> (channel \<times> (string \<times> pydict) list) list" where
  "fs_recv_picks a chans mx s = fs_picks a mx s (fs_targets a (map_option remdups chans) s) 0"

lemma targets_distinct:
  assumes "fs_inv (s, k)" shows "distinct (fs_targets a (map_option remdups chans) s)"
  using known_channels_distinct [OF assms] by (cases chans) (simp_all add: fs_targets_def)

lemma fs_recv_eq:
  assumes "fs_inv (s, k)"
  shows "fs_recv a (map_option remdups chans) mx s =
    (sort_key (\<lambda>m. (str_field ''channel'' m, time_field ''sent_at'' m))
       (map snd (concat (map snd (fs_recv_picks a chans mx s)))),
     fs_mark_all a (picked_names (fs_recv_picks a chans mx s)) s)"
  using scan_channels [OF targets_distinct [OF assms, where a = a and chans = chans], where a = a and mx = mx and s = s and msgs = "[]" and to_mark = "[]"]
  by (simp add: fs_recv_def fs_recv_picks_def Let_def)

definition pick_ids :: "(channel \<times> (string \<times> pydict) list) list \<Rightarrow> string list" where
  "pick_ids picks = concat (map (\<lambda>p. map (\<lambda>x. fs_message_id (fst p) (fst x)) (snd p)) picks)"

lemma pick_ids_simps [simp]:
  "pick_ids [] = []"
  "pick_ids ((ch, t) # ps) = map (\<lambda>x. fs_message_id ch (fst x)) t @ pick_ids ps"
  by (simp_all add: pick_ids_def)

lemma pick_ids_iff:
  "i \<in> set (pick_ids picks) \<longleftrightarrow> (\<exists>p \<in> set picks. \<exists>x \<in> set (snd p). i = fs_message_id (fst p) (fst x))"
  by (auto simp: pick_ids_def)

lemma pick_ids_distinct:
  "distinct (map fst picks) \<Longrightarrow> (\<And>ch t. (ch, t) \<in> set picks \<Longrightarrow> distinct (map fst t)) \<Longrightarrow> distinct (pick_ids picks)"
proof (induction picks)
  case (Cons p ps)
  obtain ch t where p: "p = (ch, t)" by (cases p)
  have "distinct (map fst t)" using Cons.prems(2) [of ch t] p by simp
  then have "distinct (map (\<lambda>x. fs_message_id ch (fst x)) t)" by (auto simp: distinct_map inj_on_def)
  moreover have "fs_message_id ch f \<notin> set (pick_ids ps)" for f
    using Cons.prems(1) p by (auto simp: pick_ids_iff image_iff)
  moreover have "distinct (pick_ids ps)" using Cons by auto
  ultimately show ?case by (auto simp: p)
qed simp

lemma distinct_map_filter_sort:
  "distinct (map f xs) \<Longrightarrow> distinct (map f (take n (filter P (sort_key g xs))))"
proof -
  assume "distinct (map f xs)"
  moreover have "mset (map f (sort_key g xs)) = mset (map f xs)" by simp
  ultimately have "distinct (map f (sort_key g xs))" by (metis mset_eq_imp_distinct_iff)
  then show ?thesis by (simp add: distinct_map_filter distinct_take take_map [symmetric] del: take_map)
qed

lemma recv_picks_facts:
  assumes "fs_inv (s, k)" and "(ch, t) \<in> set (fs_recv_picks a chans mx s)"
  shows "distinct (map fst t)" and "set t \<subseteq> set (fs_files ch s)"
    and "\<forall>x \<in> set t. fst x \<notin> get_delivered_set ch a s"
    and "\<forall>x \<in> set t. wire_id (snd x) = fs_message_id ch (fst x)"
proof -
  note pick = assms(2) [unfolded fs_recv_picks_def]
  have sub: "set t \<subseteq> set (fs_new ch a s)" using pick by (rule picks_subset)
  have "\<exists>n. t = take n (fs_new ch a s)" using pick by (rule picks_subset)
  then show "distinct (map fst t)"
    using assms(1) distinct_map_filter_sort [of fst "fs_files ch s"]
    by (auto simp: fs_new_def list_message_files_def fs_files_def)
  show files: "set t \<subseteq> set (fs_files ch s)" and "\<forall>x \<in> set t. fst x \<notin> get_delivered_set ch a s"
    using sub by (auto simp: fs_new_def)
  show "\<forall>x \<in> set t. wire_id (snd x) = fs_message_id ch (fst x)"
  proof
    fix x assume "x \<in> set t"
    then have "x \<in> set (fs_files ch s)" using files by blast
    then show "wire_id (snd x) = fs_message_id ch (fst x)" using assms(1) by (simp add: fs_named_def)
  qed
qed

lemma picks_wire:
  "(\<And>ch t. (ch, t) \<in> set picks \<Longrightarrow> \<forall>x \<in> set t. wire_id (snd x) = fs_message_id ch (fst x)) \<Longrightarrow>
     map (\<lambda>x. wire_id (snd x)) (concat (map snd picks)) = pick_ids picks"
proof (induction picks)
  case (Cons p ps)
  obtain ch t where p: "p = (ch, t)" by (cases p)
  have "map (\<lambda>x. wire_id (snd x)) t = map (\<lambda>x. fs_message_id ch (fst x)) t"
    using Cons.prems [of ch t] p by simp
  moreover have "map (\<lambda>x. wire_id (snd x)) (concat (map snd ps)) = pick_ids ps"
    using Cons.IH Cons.prems p by (meson list.set_intros(2))
  ultimately show ?case by (simp add: p)
qed simp

lemma picked_names_ids:
  "{f. \<exists>fs. (ch, fs) \<in> set (picked_names picks) \<and> f \<in> set fs} = {f. fs_message_id ch f \<in> set (pick_ids picks)}"
proof (induction picks)
  case (Cons p ps)
  obtain ch' t where p: "p = (ch', t)" by (cases p)
  have "{f. \<exists>fs. (ch, fs) \<in> set (picked_names (p # ps)) \<and> f \<in> set fs} =
      (if ch = ch' then fst ` set t else {}) \<union> {f. \<exists>fs. (ch, fs) \<in> set (picked_names ps) \<and> f \<in> set fs}"
    unfolding p by (cases "t = []") (auto simp: ex_disj_distrib conj_disj_distribR)
  also have "\<dots> = {f. fs_message_id ch f \<in> set (pick_ids (p # ps))}"
    unfolding Cons.IH p by (auto simp: image_iff)
  finally show ?case .
qed (simp add: picked_names_def)

text \<open>What one \<open>recv\<close> hands over and how it changes the marks.\<close>

lemma fs_recv_step:
  assumes "fs_inv (s, k)"
  obtains ids s' where "snd (fs_once_step (Recv a chans mx) (s, k)) = (s', k)"
    and "mset (fst (fs_once_step (Recv a chans mx) (s, k))) = mset (map (Pair a) ids)" and "distinct ids"
    and "set ids \<subseteq> {fs_message_id ch f | ch f. f \<notin> get_delivered_set ch a s}"
    and "\<And>ch. fs_files ch s' = fs_files ch s" and "\<And>b. fs_patterns s' b = fs_patterns s b"
    and "\<And>ch b. get_delivered_set ch b s' =
      get_delivered_set ch b s \<union> (if b = a then {f. fs_message_id ch f \<in> set ids} else {})"
proof
  let ?picks = "fs_recv_picks a chans mx s" and ?key = "\<lambda>m. (str_field ''channel'' m, time_field ''sent_at'' m)"
  let ?s' = "fs_mark_all a (picked_names ?picks) s"
  note facts = recv_picks_facts [OF assms]
  have run: "fs_once_step (Recv a chans mx) (s, k) =
      (map (\<lambda>m. (a, wire_id m)) (sort_key ?key (map snd (concat (map snd ?picks)))), ?s', k)"
    by (simp add: fs_recv_eq [OF assms])
  show "snd (fs_once_step (Recv a chans mx) (s, k)) = (?s', k)" by (simp add: run del: fs_once_step_simps)
  have wire: "map (\<lambda>x. wire_id (snd x)) (concat (map snd ?picks)) = pick_ids ?picks"
    by (rule picks_wire) (rule facts)
  have "mset (fst (fs_once_step (Recv a chans mx) (s, k))) =
      mset (map (\<lambda>m. (a, wire_id m)) (map snd (concat (map snd ?picks))))"
    by (simp add: run multiset.map_comp comp_def del: fs_once_step_simps)
  also have "map (\<lambda>m. (a, wire_id m)) (map snd (concat (map snd ?picks))) = map (Pair a) (pick_ids ?picks)"
    unfolding wire [symmetric] by simp
  finally show "mset (fst (fs_once_step (Recv a chans mx) (s, k))) = mset (map (Pair a) (pick_ids ?picks))" .
  have "map fst ?picks = fs_targets a (map_option remdups chans) s"
    by (simp add: fs_recv_picks_def picks_channels)
  then show "distinct (pick_ids ?picks)"
    using targets_distinct [OF assms] facts(1) by (intro pick_ids_distinct) metis+
  show "set (pick_ids ?picks) \<subseteq> {fs_message_id ch f | ch f. f \<notin> get_delivered_set ch a s}"
  proof
    fix i assume "i \<in> set (pick_ids ?picks)"
    then obtain ch t x where x: "(ch, t) \<in> set ?picks" "x \<in> set t" "i = fs_message_id ch (fst x)"
      unfolding pick_ids_iff by (metis prod.collapse)
    with facts(3) [OF x(1)] show "i \<in> {fs_message_id ch f | ch f. f \<notin> get_delivered_set ch a s}" by blast
  qed
  have names: "{f. \<exists>fs. (ch, fs) \<in> set (picked_names ?picks) \<and> f \<in> set fs} =
      {f. fs_message_id ch f \<in> set (pick_ids ?picks)}" for ch
    by (rule picked_names_ids)
  show "get_delivered_set ch b ?s' = get_delivered_set ch b s \<union>
      (if b = a then {f. fs_message_id ch f \<in> set (pick_ids ?picks)} else {})" for ch b
    unfolding mark_all_delivered names ..
qed simp_all

section \<open>The other operations\<close>

text \<open>Files stay, marks and subscriptions only grow for the agents outside \<open>B\<close>.\<close>

definition fs_keeps :: "agent set \<Rightarrow> fs_store \<Rightarrow> fs_store \<Rightarrow> bool" where
  "fs_keeps B s s' \<longleftrightarrow> (\<forall>ch. fst ` set (fs_files ch s) \<subseteq> fst ` set (fs_files ch s')) \<and>
     (\<forall>ch b. get_delivered_set ch b s \<subseteq> get_delivered_set ch b s') \<and>
     (\<forall>ch b. b \<notin> B \<longrightarrow> get_delivered_set ch b s' = get_delivered_set ch b s) \<and>
     (\<forall>b. b \<notin> B \<longrightarrow> set (fs_patterns s b) \<subseteq> set (fs_patterns s' b))"

lemma fs_keeps_trans:
  assumes "fs_keeps B s s'" and "fs_keeps B s' s''" shows "fs_keeps B s s''"
  unfolding fs_keeps_def
proof (intro conjI allI impI)
  show "fst ` set (fs_files ch s) \<subseteq> fst ` set (fs_files ch s'')" for ch
    using assms unfolding fs_keeps_def by (meson subset_trans)
  show "get_delivered_set ch b s \<subseteq> get_delivered_set ch b s''" for ch b
    using assms unfolding fs_keeps_def by (meson subset_trans)
  show "get_delivered_set ch b s'' = get_delivered_set ch b s" if "b \<notin> B" for ch b
    using assms that unfolding fs_keeps_def by metis
  show "set (fs_patterns s b) \<subseteq> set (fs_patterns s'' b)" if "b \<notin> B" for b
    using assms that unfolding fs_keeps_def by (meson subset_trans)
qed

lemma fs_keeps_same:
  assumes "\<And>ch. fs_dir_of ch s' = fs_dir_of ch s" and "\<And>b. b \<notin> B \<Longrightarrow> set (fs_patterns s b) \<subseteq> set (fs_patterns s' b)"
  shows "fs_keeps B s s'"
  using assms by (simp add: fs_keeps_def fs_files_def get_delivered_set_def)

lemma fs_send_keeps: "fs_keeps B s (snd (fs_send u now ch sender body corr rt s))"
  by (auto simp: fs_keeps_def fs_send_def Let_def fs_files_def get_delivered_set_def keys_dset)

lemma fs_mark_keeps: "a \<in> B \<Longrightarrow> fs_keeps B s (fs_mark_delivered ch a fs s)"
  by (auto simp: fs_keeps_def fs_mark_delivered_set)

lemma fs_clear_keeps:
  "a \<in> B \<Longrightarrow> fs_keeps B s (fst (fold (fs_clear_channel a removed) chs (s, n)))"
proof (induction chs arbitrary: s n)
  case Nil
  then show ?case by (simp add: fs_keeps_def)
next
  case (Cons ch chs)
  obtain s' n' where c: "fs_clear_channel a removed ch (s, n) = (s', n')" by fastforce
  have "s' = s \<or> (\<exists>fs. s' = fs_mark_delivered ch a fs s)"
    using c by (auto simp: fs_clear_channel_def Let_def split: if_splits)
  then have "fs_keeps B s s'"
    using fs_mark_keeps [OF Cons.prems] fs_keeps_same [of s s] by auto
  then show ?case using fs_keeps_trans Cons.IH [OF Cons.prems] c by auto
qed

lemma fs_subscribe_keeps: "fs_keeps B s (snd (fs_subscribe a p s))"
  by (rule fs_keeps_same) (auto simp: fs_subscribe_def Let_def)

lemma fs_unsubscribe_keeps: "fs_keeps {a} s (snd (fs_unsubscribe a ps s))"
proof -
  let ?s1 = "s\<lparr>fs_subscriptions := dset (fs_subscriptions s) a (filter (\<lambda>p. p \<notin> set ps) (fs_patterns s a))\<rparr>"
  let ?removed = "filter (\<lambda>p. p \<in> set ps) (fs_patterns s a)"
  have 1: "fs_keeps {a} s ?s1" by (rule fs_keeps_same) auto
  have 2: "fs_keeps {a} ?s1 (fst (fold (fs_clear_channel a ?removed) (fs_known_channels ?s1) (?s1, 0)))"
    by (rule fs_clear_keeps) simp
  have "fs_keeps {a} s s" by (rule fs_keeps_same) auto
  then show ?thesis
    using fs_keeps_trans [OF 1 2] by (simp add: fs_unsubscribe_def Let_def split_beta)
qed

lemma fs_step_keeps:
  assumes "\<not> (\<exists>a chans n. op = Recv a chans n)"
  shows "fs_keeps (drops_for op) s (fst (snd (fs_once_step op (s, k))))"
proof -
  have same: "fs_keeps B s (s\<lparr>fs_ack_records := x3\<rparr>)" "fs_keeps B s (s\<lparr>fs_liveness := x4\<rparr>)"
    "fs_keeps B s (s\<lparr>fs_groups := x5\<rparr>)" for B s x3 x4 x5
    by (rule fs_keeps_same; simp)+
  show ?thesis
  proof (cases op)
    case (Unsubscribe a ps)
    then show ?thesis by (simp add: fs_unsubscribe_keeps)
  next
    case (GroupLeave now a g)
    then show ?thesis by (auto intro!: fs_keeps_same simp: fs_group_leave_def Let_def fs_patterns_def)
  qed (use assms same fs_send_keeps fs_subscribe_keeps fs_keeps_trans [OF same(2) fs_send_keeps]
      fs_keeps_trans [OF same(3) fs_subscribe_keeps] fs_keeps_same [of s s] in
    \<open>auto simp: fs_ack_def fs_heartbeat_def fs_group_create_def fs_group_invite_def fs_group_join_def
      Let_def split_beta\<close>)
qed

end
