(* ===== verification/Filesystem_Properties.thy ===== *)
theory Filesystem_Properties
  imports Filesystem_Proofs
begin

text \<open>
  The filesystem adapter as an instance of the contracts \<open>mailbox\<close> and \<open>sequenced\<close> of the
  port, and its properties.
\<close>

section \<open>The invariant\<close>

lemma fs_inv_cong:
  assumes "fs_inv (s, k)" and "fs_channels s' = fs_channels s"
  shows "fs_inv (s', k)"
  using assms by (simp add: fs_files_def fs_dir_of_def)

lemma fs_inv_mark:
  assumes "fs_inv (s, k)" shows "fs_inv (fs_mark_delivered ch a fs s, k)"
  using assms by (auto simp: fs_mark_delivered_def fs_put_dir_def Let_def distinct_update keys_dset
      fs_files_def fs_dir_of_def)

lemma fs_named_mono: "fs_named k ch f \<Longrightarrow> fs_named (Suc k) ch f"
  unfolding fs_named_def by (meson less_SucI)

lemma set_dset: "set (dset d k v) \<subseteq> insert (k, v) (set d)"
  by (induction d) auto

lemma wire_id_payload [simp]:
  "wire_id (fs_payload mid ch sender body corr sent seq rt) = mid"
  by (simp add: wire_id_def fs_payload_def)

lemma fs_send_files:
  "fs_files ch' (snd (fs_send u now ch sender body corr rt s)) =
     (if ch' = ch
      then dset (fs_files ch s) (fs_filename now u) (fs_payload (fs_message_id ch (fs_filename now u)) ch
        sender body corr now (int (length (fs_files ch s)) + 1) rt)
      else fs_files ch' s)"
  by (simp add: fs_send_def Let_def fs_files_def)

lemma fs_inv_send:
  assumes "fs_inv (s, k)"
  shows "fs_inv (snd (fs_send (str_nat k) now ch sender body corr rt s), Suc k)"
proof -
  let ?s' = "snd (fs_send (str_nat k) now ch sender body corr rt s)"
  have "distinct (map fst (fs_channels ?s')) \<and> fst ` set (fs_channels ?s') \<subseteq> range encode_channel"
    using assms by (simp add: fs_send_def Let_def fs_put_dir_def distinct_update keys_dset)
  moreover have "distinct (map fst (fs_files ch' ?s'))" for ch'
    using assms by (simp add: fs_send_files distinct_update)
  moreover have "fs_named (Suc k) ch' x" if "x \<in> set (fs_files ch' ?s')" for ch' x
  proof (cases "x \<in> set (fs_files ch' s)")
    case True
    then show ?thesis using assms fs_named_mono by simp
  next
    case False
    then show ?thesis using that set_dset
      by (fastforce simp: fs_send_files fs_named_def split: if_splits)
  qed
  ultimately show ?thesis by simp
qed

lemma fs_clear_inv:
  "fs_inv (s, k) \<Longrightarrow> fs_inv (fst (fold (fs_clear_channel a removed) chs (s, n)), k)"
proof (induction chs arbitrary: s n)
  case (Cons ch chs)
  obtain s' n' where c: "fs_clear_channel a removed ch (s, n) = (s', n')" by fastforce
  have "s' = s \<or> (\<exists>fs. s' = fs_mark_delivered ch a fs s)"
    using c by (auto simp: fs_clear_channel_def Let_def split: if_splits)
  then have "fs_inv (s', k)" using fs_inv_mark Cons.prems by blast
  then show ?case using Cons.IH c by simp
qed simp

lemma fs_mark_all_inv: "fs_inv (s, k) \<Longrightarrow> fs_inv (fs_mark_all a tm s, k)"
  unfolding fs_mark_all_def
  by (induction tm arbitrary: s) (auto simp del: fs_inv.simps intro: fs_inv_mark)

lemma fs_subscribe_channels [simp]: "fs_channels (snd (fs_subscribe a p s)) = fs_channels s"
  by (simp add: fs_subscribe_def Let_def)

lemma fs_inv_unsubscribe:
  assumes "fs_inv (s, k)" shows "fs_inv (snd (fs_unsubscribe a ps s), k)"
proof -
  have "fs_inv (s\<lparr>fs_subscriptions := x\<rparr>, k)" for x by (rule fs_inv_cong [OF assms]) simp
  then show ?thesis
    using assms fs_clear_inv by (simp add: fs_unsubscribe_def Let_def split_beta del: fs_inv.simps)
qed

lemma fs_step_inv:
  assumes "fs_inv (s, k)" shows "fs_inv (snd (fs_once_step op (s, k)))"
proof (cases op)
  case (Recv a chans n)
  then show ?thesis
    using fs_mark_all_inv [OF assms] by (simp add: fs_recv_eq [OF assms] del: fs_inv.simps)
next
  case (Unsubscribe a ps)
  then show ?thesis using fs_inv_unsubscribe [OF assms] by (simp del: fs_inv.simps)
next
  case (Heartbeat now a status ttl)
  have "fs_inv (s\<lparr>fs_liveness := x\<rparr>, k)" for x by (rule fs_inv_cong [OF assms]) simp
  from fs_inv_send [OF this] show ?thesis
    by (simp add: Heartbeat fs_heartbeat_def Let_def split_beta del: fs_inv.simps)
qed (use fs_inv_send [OF assms] fs_inv_cong [OF assms] in
  \<open>simp_all add: fs_ack_def fs_group_create_def fs_group_invite_def fs_group_join_def fs_group_leave_def
    Let_def del: fs_inv.simps\<close>)

section \<open>The contracts\<close>

lemma fs_pendingI:
  "f \<in> fst ` set (fs_files ch s) \<Longrightarrow> f \<notin> get_delivered_set ch a s \<Longrightarrow> matches_any ch (fs_patterns s a) \<Longrightarrow>
     (a, fs_message_id ch f) \<in> fs_pending (s, k)"
  by auto

lemma fs_deliveredI: "f \<in> get_delivered_set ch a s \<Longrightarrow> (a, fs_message_id ch f) \<in> fs_delivered (s, k)"
  by auto

lemma fs_quiet: "\<not> (\<exists>a chans n. op = Recv a chans n) \<Longrightarrow> fst (fs_once_step op (s, k)) = []"
  by (cases op) simp_all

lemma fs_not_recv_pending:
  assumes "\<not> (\<exists>a chans n. op = Recv a chans n)" and "d \<in> fs_pending (s, k)" and "fst d \<notin> drops_for op"
  shows "d \<in> fs_pending (snd (fs_once_step op (s, k)))"
proof -
  obtain a ch f where d: "d = (a, fs_message_id ch f)" "f \<in> fst ` set (fs_files ch s)"
    "f \<notin> get_delivered_set ch a s" "matches_any ch (fs_patterns s a)"
    using assms(2) by auto
  obtain s' k' where s': "snd (fs_once_step op (s, k)) = (s', k')" by fastforce
  have "fs_keeps (drops_for op) s s'" using fs_step_keeps [OF assms(1), of s k] s' by simp
  then have keeps: "fst ` set (fs_files ch s) \<subseteq> fst ` set (fs_files ch s')"
    "get_delivered_set ch a s' = get_delivered_set ch a s" "set (fs_patterns s a) \<subseteq> set (fs_patterns s' a)"
    using assms(3) d(1) unfolding fs_keeps_def by simp_all
  have "f \<in> fst ` set (fs_files ch s')" using keeps(1) d(2) by blast
  moreover have "f \<notin> get_delivered_set ch a s'" using keeps(2) d(3) by simp
  moreover have "matches_any ch (fs_patterns s' a)" using keeps(3) d(4) unfolding matches_any_iff by blast
  ultimately show ?thesis unfolding s' d(1) by (rule fs_pendingI)
qed

lemma fs_recv_pending:
  assumes "fs_inv (s, k)" and "d \<in> fs_pending (s, k)"
  shows "d \<in> set (fst (fs_once_step (Recv a chans n) (s, k))) \<or> d \<in> fs_pending (snd (fs_once_step (Recv a chans n) (s, k)))"
proof -
  obtain b ch f where d: "d = (b, fs_message_id ch f)" "f \<in> fst ` set (fs_files ch s)"
    "f \<notin> get_delivered_set ch b s" "matches_any ch (fs_patterns s b)"
    using assms(2) by auto
  obtain ids s' where r: "snd (fs_once_step (Recv a chans n) (s, k)) = (s', k)"
    "mset (fst (fs_once_step (Recv a chans n) (s, k))) = mset (map (Pair a) ids)" "distinct ids"
    "set ids \<subseteq> {fs_message_id ch f | ch f. f \<notin> get_delivered_set ch a s}"
    "\<And>ch. fs_files ch s' = fs_files ch s" "\<And>b. fs_patterns s' b = fs_patterns s b"
    "\<And>ch b. get_delivered_set ch b s' =
       get_delivered_set ch b s \<union> (if b = a then {f. fs_message_id ch f \<in> set ids} else {})"
    by (rule fs_recv_step [OF assms(1), where a = a and chans = chans and mx = n]) (rule that)
  have out: "set (fst (fs_once_step (Recv a chans n) (s, k))) = Pair a ` set ids"
    using mset_eq_setD [OF r(2)] by simp
  show ?thesis
  proof (cases "b = a \<and> fs_message_id ch f \<in> set ids")
    case True
    then show ?thesis unfolding out d(1) by blast
  next
    case False
    then have "f \<notin> get_delivered_set ch b s'" using d(3) unfolding r(7) by auto
    then have "(b, fs_message_id ch f) \<in> fs_pending (s', k)" using d(2,4) by (intro fs_pendingI) (simp_all add: r(5,6))
    then show ?thesis unfolding r(1) d(1) ..
  qed
qed

lemma fs_delivered_mono:
  assumes "\<And>ch b. get_delivered_set ch b s \<subseteq> get_delivered_set ch b s'"
  shows "fs_delivered (s, k) \<subseteq> fs_delivered (s', k')"
proof
  fix d assume "d \<in> fs_delivered (s, k)"
  then obtain a ch f where "d = (a, fs_message_id ch f)" "f \<in> get_delivered_set ch a s" by auto
  then show "d \<in> fs_delivered (s', k')" using assms fs_deliveredI by blast
qed

lemma fs_recv_law:
  assumes "fs_inv (s, k)"
  shows "set (fst (fs_once_step (Recv a chans n) (s, k))) \<inter> fs_delivered (s, k) = {}"
    and "set (fst (fs_once_step (Recv a chans n) (s, k))) \<union> fs_delivered (s, k) \<subseteq>
      fs_delivered (snd (fs_once_step (Recv a chans n) (s, k)))"
    and "distinct (fst (fs_once_step (Recv a chans n) (s, k)))"
proof -
  obtain ids s' where r: "snd (fs_once_step (Recv a chans n) (s, k)) = (s', k)"
    "mset (fst (fs_once_step (Recv a chans n) (s, k))) = mset (map (Pair a) ids)" "distinct ids"
    "set ids \<subseteq> {fs_message_id ch f | ch f. f \<notin> get_delivered_set ch a s}"
    "\<And>ch. fs_files ch s' = fs_files ch s" "\<And>b. fs_patterns s' b = fs_patterns s b"
    "\<And>ch b. get_delivered_set ch b s' =
       get_delivered_set ch b s \<union> (if b = a then {f. fs_message_id ch f \<in> set ids} else {})"
    by (rule fs_recv_step [OF assms(1), where a = a and chans = chans and mx = n]) (rule that)
  have out: "set (fst (fs_once_step (Recv a chans n) (s, k))) = Pair a ` set ids"
    using mset_eq_setD [OF r(2)] by simp
  show "set (fst (fs_once_step (Recv a chans n) (s, k))) \<inter> fs_delivered (s, k) = {}"
    unfolding out using r(4) by auto
  have "Pair a ` set ids \<subseteq> fs_delivered (s', k)"
    using r(4) by (auto simp: r(7))
  moreover have "fs_delivered (s, k) \<subseteq> fs_delivered (s', k)"
    by (rule fs_delivered_mono) (simp add: r(7))
  ultimately show "set (fst (fs_once_step (Recv a chans n) (s, k))) \<union> fs_delivered (s, k) \<subseteq>
      fs_delivered (snd (fs_once_step (Recv a chans n) (s, k)))"
    unfolding out r(1) by blast
  have "distinct (map (Pair a) ids)" using r(3) by (simp add: distinct_map inj_on_def)
  then show "distinct (fst (fs_once_step (Recv a chans n) (s, k)))"
    using r(2) by (metis mset_eq_imp_distinct_iff)
qed

lemma fs_delivered_step:
  assumes "fs_inv (s, k)"
  shows "fs_delivered (s, k) \<subseteq> fs_delivered (snd (fs_once_step op (s, k)))"
proof (cases "\<exists>a chans n. op = Recv a chans n")
  case True
  then show ?thesis using fs_recv_law(2) [OF assms] by blast
next
  case False
  obtain s' k' where s': "snd (fs_once_step op (s, k)) = (s', k')" by fastforce
  have "fs_keeps (drops_for op) s s'" using fs_step_keeps [OF False, of s k] s' by simp
  then have "\<And>ch b. get_delivered_set ch b s \<subseteq> get_delivered_set ch b s'" by (simp add: fs_keeps_def)
  then show ?thesis unfolding s' by (rule fs_delivered_mono)
qed

interpretation fs: mailbox fs_once_step fs_inv fs_delivered fs_pending
proof
  fix st :: "fs_store \<times> nat" and op d
  obtain s k where st: "st = (s, k)" by (cases st)
  assume inv: "fs_inv st"
  then have i: "fs_inv (s, k)" by (simp only: st)
  show "fs_inv (snd (fs_once_step op st))" unfolding st by (rule fs_step_inv [OF i])
  have out: "\<exists>a chans n. op = Recv a chans n" if "fst (fs_once_step op (s, k)) \<noteq> []"
    using that fs_quiet [of op s k] by blast
  show "d \<notin> fs_delivered st" if d: "d \<in> set (fst (fs_once_step op st))"
  proof -
    have "fst (fs_once_step op (s, k)) \<noteq> []" using d unfolding st by auto
    then show ?thesis using out fs_recv_law(1) [OF i] d unfolding st by blast
  qed
  show "set (fst (fs_once_step op st)) \<subseteq> fs_delivered (snd (fs_once_step op st))"
    using fs_recv_law(2) [OF i] out unfolding st by (cases "fst (fs_once_step op (s, k)) = []") (simp, blast)
  show "distinct (fst (fs_once_step op st))"
    using fs_recv_law(3) [OF i] out unfolding st by (cases "fst (fs_once_step op (s, k)) = []") (simp, blast)
  show "fs_delivered st \<subseteq> fs_delivered (snd (fs_once_step op st))"
    unfolding st by (rule fs_delivered_step [OF i])
  show "d \<in> set (fst (fs_once_step op st)) \<or> d \<in> fs_pending (snd (fs_once_step op st))"
    if d: "d \<in> fs_pending st" "fst d \<notin> drops_for op"
  proof (cases "\<exists>a chans n. op = Recv a chans n")
    case True
    then show ?thesis using fs_recv_pending [OF i] d(1) unfolding st by blast
  next
    case False
    then show ?thesis using fs_not_recv_pending [OF False] d unfolding st by blast
  qed
qed

section \<open>Numbers\<close>

lemma fixed6_chars: "c \<in> set (fixed6 x) \<Longrightarrow> is_digit c \<or> c = CHR ''-'' \<or> c = CHR ''.''"
  using str_nat_digits by (auto simp: fixed6_def pad_left_def Let_def is_digit_def split: if_splits)

lemma fixed6_no_underscore: "CHR ''_'' \<notin> set (fixed6 x)"
  using fixed6_chars [of "CHR ''_''" x] by (auto simp: is_digit_def)

lemma fs_filename_inject:
  assumes "fs_filename t (str_nat j) = fs_filename t' (str_nat k)" shows "j = k"
proof -
  have "fixed6 t @ CHR ''_'' # (str_nat j @ ''.json'') = fixed6 t' @ CHR ''_'' # (str_nat k @ ''.json'')"
    using assms by (simp add: fs_filename_def)
  from split_at_slash [OF this fixed6_no_underscore fixed6_no_underscore] show ?thesis by simp
qed

lemma fs_send_numbers:
  assumes "fs_inv (s, k)"
  shows "fs_seqs (snd (fs_send (str_nat k) now ch sender body corr rt s), Suc k) c =
    fs_seqs (s, k) c @ (if c = ch then [int (length (fs_seqs (s, k) c)) + 1] else [])"
proof -
  have "fs_filename now (str_nat k) \<notin> fst ` set (fs_files ch s)"
  proof
    assume "fs_filename now (str_nat k) \<in> fst ` set (fs_files ch s)"
    then obtain x where x: "x \<in> set (fs_files ch s)" "fs_filename now (str_nat k) = fst x" by blast
    then have "fs_named k ch x" using assms by simp
    then obtain t j where "j < k" "fst x = fs_filename t (str_nat j)" unfolding fs_named_def by blast
    with x(2) fs_filename_inject show False by (metis less_irrefl)
  qed
  then show ?thesis by (simp add: fs_send_files update_absent int_field_def fs_payload_def)
qed

lemma fs_files_cong: "fs_channels s' = fs_channels s \<Longrightarrow> fs_files c s' = fs_files c s"
  by (simp add: fs_files_def fs_dir_of_def)

lemma fs_clear_files [simp]: "fs_files c (fst (fold (fs_clear_channel a removed) chs (s, n))) = fs_files c s"
proof (induction chs arbitrary: s n)
  case (Cons ch chs)
  obtain s' n' where "fs_clear_channel a removed ch (s, n) = (s', n')" by fastforce
  then show ?case using Cons.IH by (auto simp: fs_clear_channel_def Let_def split: if_splits)
qed simp

lemma fs_unsubscribe_files: "fs_files c (snd (fs_unsubscribe a ps s)) = fs_files c s"
proof -
  have "fs_files c (s\<lparr>fs_subscriptions := x\<rparr>) = fs_files c s" for x by (rule fs_files_cong) simp
  then show ?thesis by (simp add: fs_unsubscribe_def Let_def split_beta)
qed

lemma fs_step_numbers:
  assumes "fs_inv (s, k)"
  shows "fs_seqs (snd (fs_once_step op (s, k))) c = fs_seqs (s, k) c \<or>
    fs_seqs (snd (fs_once_step op (s, k))) c = fs_seqs (s, k) c @ [int (length (fs_seqs (s, k) c)) + 1]"
proof -
  have other: "fs_seqs (snd (fs_once_step op (s, k))) c = fs_seqs (s, k) c"
    if "fs_channels (fst (snd (fs_once_step op (s, k)))) = fs_channels s"
    using fs_files_cong [OF that] by (cases "snd (fs_once_step op (s, k))") simp
  show ?thesis
  proof (cases op)
    case (Send now ch sender body corr rt)
    then show ?thesis using fs_send_numbers [OF assms] by (simp del: fs_seqs.simps)
  next
    case (Heartbeat now a status ttl)
    have "fs_inv (s\<lparr>fs_liveness := x\<rparr>, k)" for x by (rule fs_inv_cong [OF assms]) simp
    moreover have "fs_seqs (s\<lparr>fs_liveness := x\<rparr>, k) c' = fs_seqs (s, k) c'" for x c'
      using fs_files_cong [of "s\<lparr>fs_liveness := x\<rparr>" s c'] by simp
    ultimately show ?thesis
      using fs_send_numbers by (simp add: Heartbeat fs_heartbeat_def Let_def split_beta del: fs_seqs.simps fs_inv.simps)
  next
    case (Recv a chans n)
    then show ?thesis by (simp add: fs_recv_eq [OF assms])
  next
    case (Unsubscribe a ps)
    then show ?thesis by (simp add: fs_unsubscribe_files)
  qed (rule disjI1, rule other, simp add: fs_ack_def fs_group_create_def fs_group_invite_def
      fs_group_join_def fs_group_leave_def Let_def)+
qed

interpretation fs_numbered: sequenced fs_once_step fs_inv fs_seqs
proof
  fix st :: "fs_store \<times> nat" and op c
  assume "fs_inv st"
  then show "fs_inv (snd (fs_once_step op st))" by (rule fs.step_inv)
  show "fs_seqs (snd (fs_once_step op st)) c = fs_seqs st c \<or>
      fs_seqs (snd (fs_once_step op st)) c = fs_seqs st c @ [int (length (fs_seqs st c)) + 1]"
    using \<open>fs_inv st\<close> fs_step_numbers by (cases st) blast
qed

section \<open>Properties\<close>

text \<open>
  C24. Channel names survive the file system: decoding the name of a channel's directory gives
  the channel back, different channels have different directories, and a directory name never
  contains a path separator.
\<close>

theorem channel_name_roundtrip:
  "decode_channel (encode_channel ch) = ch \<and> (encode_channel ch = encode_channel ch') = (ch = ch') \<and>
   CHR ''/'' \<notin> set (encode_channel ch) \<and> CHR 0x5C \<notin> set (encode_channel ch)"
proof -
  have "CHR 0x5C \<notin> set (encode_channel ch)" by (auto simp: encode_escape escape_def split: if_splits)
  then show ?thesis using encode_no_slash by simp
qed

text \<open>
  C23. The delivery contract of the filesystem adapter: over every sequence of calls on an
  empty directory in which no \<open>recv\<close> names a channel twice, no message is handed to an agent
  twice, a message an agent is subscribed to stays available until it is handed over unless
  the agent itself unsubscribes or leaves a group, and the messages of a channel are numbered
  1, 2, 3 and so on.
\<close>

theorem fs_delivery_and_numbers:
  assumes "list_all names_once (before @ later)"
  shows "distinct (fst (run_ops fs_step (before @ later) (fs_init, 0))) \<and>
   {d \<in> fs_pending (snd (run_ops fs_step before (fs_init, 0))). fst d \<notin> \<Union> (drops_for ` set later)} \<subseteq>
     set (fst (run_ops fs_step later (snd (run_ops fs_step before (fs_init, 0))))) \<union>
     fs_pending (snd (run_ops fs_step later (snd (run_ops fs_step before (fs_init, 0))))) \<and>
   fs_seqs (snd (run_ops fs_step before (fs_init, 0))) ch =
     map int [1..<Suc (length (fs_seqs (snd (run_ops fs_step before (fs_init, 0))) ch))]"
proof (intro conjI)
  have once: "run_ops fs_once_step before st = run_ops fs_step before st"
    "run_ops fs_once_step later st = run_ops fs_step later st"
    "run_ops fs_once_step (before @ later) st = run_ops fs_step (before @ later) st" for st
    using assms by (simp_all add: run_once_eq)
  let ?st = "snd (run_ops fs_step before (fs_init, 0))"
  show "distinct (fst (run_ops fs_step (before @ later) (fs_init, 0)))"
    using fs.at_most_once [OF fs_inv_init, of "before @ later"] unfolding once .
  have "fs_inv ?st" using fs.run_inv [OF fs_inv_init, of before] unfolding once .
  then have "d \<in> set (fst (run_ops fs_step later ?st)) \<or> d \<in> fs_pending (snd (run_ops fs_step later ?st))"
    if "d \<in> fs_pending ?st" "fst d \<notin> \<Union> (drops_for ` set later)" for d
    using fs.never_lost [of ?st d later] that unfolding once by blast
  then show "{d \<in> fs_pending ?st. fst d \<notin> \<Union> (drops_for ` set later)} \<subseteq>
      set (fst (run_ops fs_step later ?st)) \<union> fs_pending (snd (run_ops fs_step later ?st))"
    by blast
  have "fs_seqs (fs_init, 0) ch = []"
    by (simp add: fs_init_def fs_files_def fs_dir_of_def dget_default_def empty_dir_def)
  then show "fs_seqs ?st ch = map int [1..<Suc (length (fs_seqs ?st ch))]"
    using fs_numbered.gapless [OF fs_inv_init, of ch before] unfolding once by simp
qed

definition fs_example :: "store_op list" where
  "fs_example = [Subscribe ''bob'' ''*'', Send 1 ''c'' ''ann'' [] None None,
     Recv ''bob'' (Some [''c'', ''d'']) 5, Send 2 ''c'' ''ann'' [] None None, Recv ''bob'' None 5]"

theorem fs_delivery_and_numbers_witness:
  "distinct (fst (run_ops fs_step fs_example (fs_init, 0))) \<and>
   fs_seqs (snd (run_ops fs_step fs_example (fs_init, 0))) ''c'' =
     map int [1..<Suc (length (fs_seqs (snd (run_ops fs_step fs_example (fs_init, 0))) ''c''))]"
proof -
  have "list_all names_once (fs_example @ [])" by (simp add: fs_example_def)
  from fs_delivery_and_numbers [OF this, of "''c''"] show ?thesis by simp
qed

text \<open>
  A \<open>recv\<close> that names one channel twice returns every message of it twice: the list of
  delivered files is read for the second time before it is written.
\<close>

theorem fs_recv_repeated_channel:
  assumes "2 * int (length (fs_new ch a s)) \<le> mx"
  shows "mset (fst (fs_recv a (Some [ch, ch]) mx s)) =
    mset (map snd (fs_new ch a s)) + mset (map snd (fs_new ch a s))"
proof -
  have "fs_scan_files mx (get_delivered_set ch a s) (list_message_files ch s) msgs [] =
      (msgs @ map snd (fs_new ch a s), map fst (fs_new ch a s))"
    if "int (length msgs) + int (length (fs_new ch a s)) \<le> mx" for msgs
    using that by (simp add: scan_files Let_def flip: fs_new_def)
  then show ?thesis
    using assms by (simp add: fs_recv_def fs_targets_def Let_def split_beta)
qed

theorem fs_recv_repeated_channel_witness:
  "let s = snd (fs_send ''u'' 1 ''team'' ''ann'' [] None None fs_init)
   in length (fst (fs_recv ''bob'' (Some [''team'', ''team'']) 50 s)) = 2"
proof -
  let ?s = "snd (fs_send ''u'' 1 ''team'' ''ann'' [] None None fs_init)"
  have new: "length (fs_new ''team'' ''bob'' ?s) = 1"
    by (simp add: fs_new_def list_message_files_def fs_send_def get_delivered_set_def fs_init_def
        fs_dir_of_def fs_put_dir_def empty_dir_def dget_default_def Let_def)
  from fs_recv_repeated_channel [of "''team''" "''bob''" ?s 50]
  have "mset (fst (fs_recv ''bob'' (Some [''team'', ''team'']) 50 ?s)) =
      mset (map snd (fs_new ''team'' ''bob'' ?s)) + mset (map snd (fs_new ''team'' ''bob'' ?s))"
    using new by simp
  from arg_cong [OF this, of size] show ?thesis using new by (simp add: Let_def)
qed

end
