(* ===== verification/Mcp_Server.thy ===== *)
theory Mcp_Server
  imports Chain_Registry
begin

text \<open>
  The MCP server (core/mcp_server/): the per-call credential, the background listener and its
  buffer, the fifteen tools, and the start-up of the process. The tools share a server value:
  the agent, its private key, the pipeline, the world of the pipeline and the buffer. Signing
  and hashing are the parameters of the record \<open>signer\<close>; the UUIDs a call draws and the
  connection id are in \<open>call_ids\<close>; the clock is the \<open>wd_now\<close> of the world.
\<close>

section \<open>The credential of a call (_credential.py)\<close>

record signer =
  sg_sign :: "bytes \<Rightarrow> bytes \<Rightarrow> bytes"
  sg_body_hash :: "pydict \<Rightarrow> string"

definition resolve_signed_request ::
  "signer \<Rightarrow> string \<Rightarrow> time \<Rightarrow> agent \<Rightarrow> bytes \<Rightarrow> string \<Rightarrow> pydict option \<Rightarrow> signed_request"
where
  "resolve_signed_request sg nonce now a private_key operation body =
     (let placeholder = \<lparr>sr_agent_id = a, sr_nonce = nonce, sr_timestamp = now, sr_method = operation,
            sr_body_hash = sg_body_hash sg (case body of Some b \<Rightarrow> b | None \<Rightarrow> []), sr_signature = []\<rparr>
      in placeholder\<lparr>sr_signature := sg_sign sg private_key (canonical_payload placeholder)\<rparr>)"

section \<open>The listener (listener.py)\<close>

text \<open>
  The buffer is unbounded, as the server makes it. The task drives a \<open>watch\<close> generator of the
  store, whose position is the cursor; \<open>None\<close> is a generator not started yet, or one that
  raised and is started again after the pause. \<open>start\<close> and \<open>poll\<close> are those of the store.
\<close>

record 'c listener =
  ls_queue :: "pydict list"
  ls_cursor :: "'c option"

definition listener_init :: "'c listener" where
  "listener_init = \<lparr>ls_queue = [], ls_cursor = None\<rparr>"

definition listener_run ::
  "(agent \<Rightarrow> 'st \<Rightarrow> 'c result) \<Rightarrow> (agent \<Rightarrow> 'c \<Rightarrow> 'st \<Rightarrow> (pydict list \<times> 'c) result) \<Rightarrow> agent \<Rightarrow> 'st \<Rightarrow>
     'c listener \<Rightarrow> 'c listener"
where
  "listener_run start poll a s l =
     (case ls_cursor l of
        None \<Rightarrow> l\<lparr>ls_cursor := (case start a s of Inl e \<Rightarrow> None | Inr c \<Rightarrow> Some c)\<rparr>
      | Some c \<Rightarrow>
          (case poll a c s of
             Inl e \<Rightarrow> l\<lparr>ls_cursor := None\<rparr>
           | Inr (messages, c') \<Rightarrow> l\<lparr>ls_queue := ls_queue l @ messages, ls_cursor := Some c'\<rparr>))"

text \<open>\<open>drain\<close>: what is popped and what stays.\<close>

fun drain_loop :: "int \<Rightarrow> pydict list \<Rightarrow> pydict list \<Rightarrow> pydict list \<times> pydict list" where
  "drain_loop max_messages messages [] = (messages, [])"
| "drain_loop max_messages messages (m # queue) =
     (if int (length messages) < max_messages then drain_loop max_messages (messages @ [m]) queue
      else (messages, m # queue))"

definition drain :: "int \<Rightarrow> 'c listener \<Rightarrow> pydict list \<times> 'c listener" where
  "drain max_messages l =
     (let (messages, queue) = drain_loop max_messages [] (ls_queue l) in (messages, l\<lparr>ls_queue := queue\<rparr>))"

section \<open>The server value and a dispatched call (tools.py)\<close>

record ('st, 'c) mcp_server =
  mc_agent_id :: agent
  mc_private_key :: bytes
  mc_pipeline :: "'st world pipeline"
  mc_world :: "'st world"
  mc_listener :: "'c listener"

record call_ids =
  ci_nonce :: string
  ci_fresh :: string
  ci_connection_id :: string

text \<open>\<open>_get_pipeline_and_credential\<close>, then \<open>pipeline.dispatch\<close>.\<close>

definition dispatch_signed ::
  "signer \<Rightarrow> call_ids \<Rightarrow> string \<Rightarrow> pydict \<Rightarrow> pydict option \<Rightarrow> ('st, 'c) mcp_server \<Rightarrow>
     pydict \<times> ('st, 'c) mcp_server"
where
  "dispatch_signed sg ids operation inp body m =
     (let credential = resolve_signed_request sg (ci_nonce ids) (wd_now (mc_world m)) (mc_agent_id m)
            (mc_private_key m) operation body;
          (result, trace, w) = dispatch (mc_pipeline m) (ci_fresh ids) operation inp
            (ci_connection_id ids) (Some [(''_connection_credential'', PSigned credential)]) (mc_world m)
      in (result, m\<lparr>mc_world := w\<rparr>))"

definition channels_send ::
  "signer \<Rightarrow> call_ids \<Rightarrow> channel \<Rightarrow> pydict \<Rightarrow> string option \<Rightarrow> ('st, 'c) mcp_server \<Rightarrow>
     pydict \<times> ('st, 'c) mcp_server"
where
  "channels_send sg ids ch body corr m =
     (let input_dict = [(''channel'', PStr ch), (''body'', PDict body), (''correlation_id'', opt_str corr)];
          (result, m') = dispatch_signed sg ids ''send'' input_dict (Some input_dict) m
      in (dpop result ''channel'', m'))"

text \<open>
  \<open>channels__recv\<close>: the buffer is drained, unwanted messages go back in reverse order at its
  end, and the operation is dispatched for its checks; what the dispatch returns is dropped.
\<close>

definition opt_strs :: "string list option \<Rightarrow> pyval" where
  "opt_strs o_ss = (case o_ss of None \<Rightarrow> PNone | Some ss \<Rightarrow> PList (map PStr ss))"

definition in_channels :: "channel list \<Rightarrow> pydict \<Rightarrow> bool" where
  "in_channels chs msg = (case dget msg ''channel'' of Some (PStr c) \<Rightarrow> c \<in> set chs | _ \<Rightarrow> False)"

definition take_buffered ::
  "channel list option \<Rightarrow> int \<Rightarrow> 'c listener \<Rightarrow> pydict list \<times> 'c listener"
where
  "take_buffered channels max_messages l =
     (let (buffered, l') = drain max_messages l
      in case channels of
           None \<Rightarrow> (buffered, l')
         | Some chs \<Rightarrow>
             (let kept = filter (in_channels chs) buffered;
                  requeue = filter (\<lambda>msg. \<not> in_channels chs msg) buffered
              in (kept, l'\<lparr>ls_queue := ls_queue l' @ rev requeue\<rparr>)))"

definition channels_recv ::
  "signer \<Rightarrow> call_ids \<Rightarrow> channel list option \<Rightarrow> int \<Rightarrow> bool \<Rightarrow> ('st, 'c) mcp_server \<Rightarrow>
     (time \<times> pydict list) \<times> ('st, 'c) mcp_server"
where
  "channels_recv sg ids channels max_messages include_meta m =
     (let (taken, l) = take_buffered channels max_messages (mc_listener m);
          buffered = (if include_meta then taken else map (\<lambda>msg. dpop msg ''_meta'') taken);
          (dropped, m') = dispatch_signed sg ids ''recv''
            [(''agent_id'', PStr (mc_agent_id m)), (''channels'', opt_strs channels),
             (''max_messages'', PInt max_messages)] None (m\<lparr>mc_listener := l\<rparr>)
      in ((wd_now (mc_world m'), buffered), m'))"

text \<open>\<open>^(dm|group)/.*\\*\<close>, where the dot does not match a newline.\<close>

definition reserved_wildcard :: "string \<Rightarrow> bool" where
  "reserved_wildcard pattern \<longleftrightarrow>
     (starts_with pattern ''dm/'' \<and> CHR ''*'' \<in> set (takeWhile (\<lambda>c. c \<noteq> newline) (drop 3 pattern))) \<or>
     (starts_with pattern ''group/'' \<and> CHR ''*'' \<in> set (takeWhile (\<lambda>c. c \<noteq> newline) (drop 6 pattern)))"

definition channels_subscribe ::
  "signer \<Rightarrow> call_ids \<Rightarrow> string \<Rightarrow> ('st, 'c) mcp_server \<Rightarrow> pydict result \<times> ('st, 'c) mcp_server"
where
  "channels_subscribe sg ids pattern m =
     (if reserved_wildcard pattern
      then (Inl (ValueError ''Wildcard subscriptions on reserved prefixes''), m)
      else let (result, m') = dispatch_signed sg ids ''subscribe''
                 [(''agent_id'', PStr (mc_agent_id m)), (''pattern'', PStr pattern)] None m
           in (Inr (case dget result ''matched_channels'' of
                 Some (PList chs) \<Rightarrow> [(''subscribed'', PList chs)] | _ \<Rightarrow> result), m'))"

definition channels_unsubscribe ::
  "signer \<Rightarrow> call_ids \<Rightarrow> string list \<Rightarrow> ('st, 'c) mcp_server \<Rightarrow> pydict \<times> ('st, 'c) mcp_server"
where
  "channels_unsubscribe sg ids patterns m =
     (let (result, m') = dispatch_signed sg ids ''unsubscribe''
            [(''agent_id'', PStr (mc_agent_id m)), (''patterns'', PList (map PStr patterns))] None m
      in (case dget result ''removed'' of
            Some removed \<Rightarrow>
              if has_key result ''unsubscribed'' then result
              else [(''unsubscribed'', removed),
                    (''pending_cleared'', dget_default result ''pending_cleared'' (PInt 0))]
          | None \<Rightarrow> result, m'))"

definition channels_ack ::
  "signer \<Rightarrow> call_ids \<Rightarrow> string \<Rightarrow> string \<Rightarrow> string option \<Rightarrow> ('st, 'c) mcp_server \<Rightarrow>
     pydict \<times> ('st, 'c) mcp_server"
where
  "channels_ack sg ids message_id status reason m =
     dispatch_signed sg ids ''channels_ack''
       [(''agent_id'', PStr (mc_agent_id m)), (''message_id'', PStr message_id),
        (''status'', PStr status), (''reason'', opt_str reason)] None m"

text \<open>\<open>_resolve_heartbeat_ttl\<close>; \<open>environ\<close> is the process environment.\<close>

definition resolve_heartbeat_ttl :: "(string \<times> string) list \<Rightarrow> int option \<Rightarrow> int option" where
  "resolve_heartbeat_ttl environ per_call_ttl =
     (case per_call_ttl of
        Some ttl \<Rightarrow> Some ttl
      | None \<Rightarrow>
          (let raw = strip (dget_default environ ''SOX_HEARTBEAT_TTL_DEFAULT'' [])
           in if raw = [] then None
              else case parse_int raw of
                     Inl e \<Rightarrow> None
                   | Inr parsed \<Rightarrow> if parsed \<le> 0 then None else Some parsed))"

definition opt_int :: "int option \<Rightarrow> pyval" where
  "opt_int o_i = (case o_i of None \<Rightarrow> PNone | Some i \<Rightarrow> PInt i)"

definition channels_heartbeat ::
  "signer \<Rightarrow> (string \<times> string) list \<Rightarrow> call_ids \<Rightarrow> string \<Rightarrow> int option \<Rightarrow> ('st, 'c) mcp_server \<Rightarrow>
     pydict \<times> ('st, 'c) mcp_server"
where
  "channels_heartbeat sg environ ids status ttl m =
     dispatch_signed sg ids ''channels_heartbeat''
       [(''agent_id'', PStr (mc_agent_id m)), (''status'', PStr status),
        (''ttl'', opt_int (resolve_heartbeat_ttl environ ttl))] None m"

definition channels_list_agents ::
  "signer \<Rightarrow> call_ids \<Rightarrow> string list option \<Rightarrow> string option \<Rightarrow> ('st, 'c) mcp_server \<Rightarrow>
     pydict \<times> ('st, 'c) mcp_server"
where
  "channels_list_agents sg ids status_filter namespace m =
     dispatch_signed sg ids ''list_agents''
       [(''agent_id'', PStr (mc_agent_id m)), (''status_filter'', opt_strs status_filter),
        (''namespace'', opt_str namespace)] None m"

definition channels_replay ::
  "signer \<Rightarrow> call_ids \<Rightarrow> channel \<Rightarrow> int \<Rightarrow> int option \<Rightarrow> int \<Rightarrow> ('st, 'c) mcp_server \<Rightarrow>
     pydict \<times> ('st, 'c) mcp_server"
where
  "channels_replay sg ids ch since til limit m =
     dispatch_signed sg ids ''replay''
       [(''channel'', PStr ch), (''since'', PInt since), (''until'', opt_int til), (''limit'', PInt limit)]
       None m"

definition channels_collect ::
  "signer \<Rightarrow> call_ids \<Rightarrow> channel \<Rightarrow> int \<Rightarrow> ('st, 'c) mcp_server \<Rightarrow> pydict \<times> ('st, 'c) mcp_server"
where
  "channels_collect sg ids reply_to n m =
     (let (result, m') = dispatch_signed sg ids ''channels_collect''
            [(''agent_id'', PStr (mc_agent_id m)), (''channels'', PList [PStr reply_to]),
             (''max_messages'', PInt n)] None m
      in (if has_key result ''messages'' \<and> \<not> has_key result ''timed_out''
          then let received = as_list (dget_default result ''messages'' (PList []))
               in [(''received'', PList received), (''missing'', PList []),
                   (''timed_out'', PBool (int (length received) < n))]
          else result, m'))"

definition group_create_tool ::
  "signer \<Rightarrow> call_ids \<Rightarrow> string option \<Rightarrow> ('st, 'c) mcp_server \<Rightarrow> pydict \<times> ('st, 'c) mcp_server"
where
  "group_create_tool sg ids group_id m =
     dispatch_signed sg ids ''group_create''
       [(''creator_id'', PStr (mc_agent_id m)), (''group_id'', opt_str group_id)] None m"

definition group_invite_tool ::
  "signer \<Rightarrow> call_ids \<Rightarrow> string \<Rightarrow> agent \<Rightarrow> ('st, 'c) mcp_server \<Rightarrow> pydict \<times> ('st, 'c) mcp_server"
where
  "group_invite_tool sg ids group_id invitee m =
     dispatch_signed sg ids ''group_invite''
       [(''inviter_id'', PStr (mc_agent_id m)), (''group_id'', PStr group_id),
        (''invitee_id'', PStr invitee)] None m"

definition group_join_tool ::
  "signer \<Rightarrow> call_ids \<Rightarrow> string \<Rightarrow> ('st, 'c) mcp_server \<Rightarrow> pydict \<times> ('st, 'c) mcp_server"
where
  "group_join_tool sg ids group_id m =
     dispatch_signed sg ids ''group_join''
       [(''agent_id'', PStr (mc_agent_id m)), (''group_id'', PStr group_id)] None m"

definition group_leave_tool ::
  "signer \<Rightarrow> call_ids \<Rightarrow> string \<Rightarrow> ('st, 'c) mcp_server \<Rightarrow> pydict \<times> ('st, 'c) mcp_server"
where
  "group_leave_tool sg ids group_id m =
     dispatch_signed sg ids ''group_leave''
       [(''agent_id'', PStr (mc_agent_id m)), (''group_id'', PStr group_id)] None m"

definition group_list_members_tool ::
  "signer \<Rightarrow> call_ids \<Rightarrow> string \<Rightarrow> ('st, 'c) mcp_server \<Rightarrow> pydict \<times> ('st, 'c) mcp_server"
where
  "group_list_members_tool sg ids group_id m =
     dispatch_signed sg ids ''group_list_members''
       [(''agent_id'', PStr (mc_agent_id m)), (''group_id'', PStr group_id)] None m"

definition sox_protocol_block :: pyval where
  "sox_protocol_block = PDict [(''server_version'', PStr ''1.0''),
     (''supported_versions'', PList [PStr ''1.0'']), (''min_client_version'', PStr ''1.0'')]"

definition channels_list_channels ::
  "signer \<Rightarrow> call_ids \<Rightarrow> ('st, 'c) mcp_server \<Rightarrow> pydict \<times> ('st, 'c) mcp_server"
where
  "channels_list_channels sg ids m =
     (let (result, m') = dispatch_signed sg ids ''list_channels'' [] None m
      in (if has_key result ''_sox_protocol'' then result
          else dset result ''_sox_protocol'' sox_protocol_block, m'))"

section \<open>Start-up (server.py)\<close>

text \<open>
  \<open>_load_and_validate_schemas\<close>: \<open>schema_of\<close> is the parsed schema file, if there is one, and
  \<open>valid\<close> the answer of \<open>jsonschema.validate\<close>.
\<close>

definition schema_smoke_samples :: "(string \<times> pydict) list" where
  "schema_smoke_samples =
     [(''send.output.schema.json'',
        [(''sent_at'', PFloat 1714300000), (''message_id'', PStr ''1''), (''seq'', PInt 1),
         (''backpressure'', PDict [(''queue_depth'', PInt 0), (''threshold'', PInt 1000),
            (''state'', PStr ''ok'')])]),
      (''recv.output.schema.json'', [(''drained_at'', PFloat 1714300000), (''messages'', PList [])]),
      (''subscribe.output.schema.json'', [(''subscribed'', PList [])]),
      (''list-channels.output.schema.json'',
        [(''channels'', PList []), (''_sox_protocol'', sox_protocol_block)])]"

fun validate_samples ::
  "(string \<Rightarrow> 'j option) \<Rightarrow> (pydict \<Rightarrow> 'j \<Rightarrow> bool) \<Rightarrow> (string \<times> pydict) list \<Rightarrow> unit result"
where
  "validate_samples schema_of valid [] = Inr ()"
| "validate_samples schema_of valid ((name, sample) # rest) =
     (case schema_of name of
        None \<Rightarrow> Inl (SystemExit 1)
      | Some schema \<Rightarrow>
          if valid sample schema then validate_samples schema_of valid rest else Inl (SystemExit 1))"

definition load_and_validate_schemas ::
  "bool \<Rightarrow> (string \<Rightarrow> 'j option) \<Rightarrow> (pydict \<Rightarrow> 'j \<Rightarrow> bool) \<Rightarrow> unit result"
where
  "load_and_validate_schemas dir_exists schema_of valid =
     (if \<not> dir_exists then Inl (SystemExit 1) else validate_samples schema_of valid schema_smoke_samples)"

datatype store_choice = MemoryBacked | SqliteBacked string | FilesystemBacked string

definition build_store :: "string \<Rightarrow> store_choice result" where
  "build_store uri =
     (if starts_with uri ''memory://'' then Inr MemoryBacked
      else if starts_with uri ''sqlite://'' then Inr (SqliteBacked (drop 9 uri))
      else if starts_with uri ''file://'' then Inr (FilesystemBacked (drop 7 uri))
      else Inl (ValueError ''Unrecognised SOX_BACKING_STORE URI''))"

text \<open>\<open>(env.get(k) or "").strip()\<close>, and the first non-empty of several, else \<open>default\<close>.\<close>

definition env_var :: "(string \<times> string) list \<Rightarrow> string \<Rightarrow> string" where
  "env_var environ k = strip (dget_default environ k [])"

definition first_nonempty :: "string list \<Rightarrow> string" where
  "first_nonempty ss = (case filter (\<lambda>s. s \<noteq> []) ss of s # _ \<Rightarrow> s | [] \<Rightarrow> ''default'')"

text \<open>The agent id and whether a warning is logged.\<close>

definition resolve_agent_id_from_env :: "(string \<times> string) list \<Rightarrow> agent \<times> bool" where
  "resolve_agent_id_from_env environ =
     (let source = env_var environ ''SOX_AGENT_ID_SOURCE''
      in if source = ''claude_code_agent_name''
         then (let resolved = first_nonempty [env_var environ ''CLAUDE_AGENT_NAME'', env_var environ ''SOX_AGENT_ID'']
               in (resolved, resolved = ''default''))
         else if starts_with source ''env:''
         then (let custom_var = strip (drop 4 source);
                   resolved = first_nonempty [if custom_var \<noteq> [] then env_var environ custom_var else [],
                     env_var environ ''SOX_AGENT_ID'', env_var environ ''CLAUDE_AGENT_NAME'']
               in (resolved, resolved = ''default''))
         else (let resolved = first_nonempty [env_var environ ''SOX_AGENT_ID'', env_var environ ''CLAUDE_AGENT_NAME'']
               in (resolved, resolved = ''default'' \<and> source \<noteq> [])))"

text \<open>
  The lifespan up to its \<open>yield\<close>, with a started listener. \<open>init_store\<close> is the \<open>initialize\<close> of
  the store, \<open>keys\<close> the generated key pair, \<open>discovered\<close> the entry points of the installation.
\<close>

definition plugin_allowlist :: "(string \<times> string) list \<Rightarrow> string list option" where
  "plugin_allowlist environ =
     (let raw = dget_default environ ''SOX_ALLOWED_PLUGINS'' []
      in if raw = [] then None else Some (filter (\<lambda>p. p \<noteq> []) (split_on (CHR '','') raw)))"

fun plugin_startup_error :: "exc \<Rightarrow> bool" where
  "plugin_startup_error (PluginNotAllowed p) = True"
| "plugin_startup_error (PluginNotFound p) = True"
| "plugin_startup_error (PluginManifestInvalid p r) = True"
| "plugin_startup_error (PluginProtocolVersionMismatch p) = True"
| "plugin_startup_error (PluginCapabilityConflict p) = True"
| "plugin_startup_error (PluginOrderingCycle c) = True"
| "plugin_startup_error (PluginRequirementUnmet p c) = True"
| "plugin_startup_error e = False"

text \<open>
  The default chain is assembled in a registry of its own; plugins are loaded into the registry \<open>g\<close>
  of the process.
\<close>

definition mcp_lifespan ::
  "py_env \<Rightarrow> (bytes \<Rightarrow> bytes \<Rightarrow> bytes \<Rightarrow> bool) \<Rightarrow> 'r loader_env \<Rightarrow> 'st store_port \<Rightarrow> ('st \<Rightarrow> unit result \<times> 'st) \<Rightarrow>
     unit result \<Rightarrow> 'st world plugin list \<Rightarrow> (string \<times> string) list \<Rightarrow> agent \<Rightarrow> bytes \<times> bytes \<Rightarrow> time \<Rightarrow> 'st \<Rightarrow>
     'st world registry_state \<Rightarrow> ('st, 'c) mcp_server result \<times> 'st world registry_state"
where
  "mcp_lifespan env vs lenv port init_store schemas discovered environ a keys now s g =
     (case schemas of Inl e \<Rightarrow> (Inl e, g) | Inr _ \<Rightarrow>
      (case init_store s of (Inl e, s1) \<Rightarrow> (Inl e, g) | (Inr _, s1) \<Rightarrow>
       (let (private_seed, public_key) = keys; v = verifier_init 300
        in case cred_register now a public_key (vf_registry v) of (Inl e, regs) \<Rightarrow> (Inl e, g)
         | (Inr _, regs) \<Rightarrow>
          (case fst (build_default_pipeline env vs port registry_init) of Inl e \<Rightarrow> (Inl e, g)
           | Inr base \<Rightarrow>
            (case load_plugins lenv discovered (plugin_allowlist environ)
                    (dget_default environ ''SOX_ENV'' ''dev'') ''1.0.0''
                    (dget_default environ ''SOX_NO_DISCOVERY'' [] = ''1'') g of
               (Inl e, g2) \<Rightarrow> (Inl (if plugin_startup_error e then SystemExit 1 else e), g2)
             | (Inr _, g2) \<Rightarrow>
                (bind_res (if resolved_order g2 = [] then Inr base
                           else extend_pipeline_with_registry base g2 (store_dispatch_call env port))
                   (\<lambda>p. Inr \<lparr>mc_agent_id = a, mc_private_key = private_seed, mc_pipeline = p,
                      mc_world = \<lparr>wd_now = now, wd_verifier = v\<lparr>vf_registry := regs\<rparr>, wd_store = s1,
                        wd_log = []\<rparr>, mc_listener = listener_init\<rparr>), g2))))))"

datatype mcp_transport = StdioTransport | StreamableHttp string int

definition mcp_main :: "(string \<times> string) list \<Rightarrow> (agent \<times> store_choice \<times> mcp_transport) result" where
  "mcp_main environ =
     (let a = fst (resolve_agent_id_from_env environ)
      in case build_store (dget_default environ ''SOX_BACKING_STORE'' ''memory://'') of
           Inl e \<Rightarrow> Inl (SystemExit 1)
         | Inr store \<Rightarrow>
             if lower (dget_default environ ''SOX_MCP_TRANSPORT'' ''stdio'') = ''http''
             then bind_res (parse_int (dget_default environ ''SOX_HTTP_PORT'' ''8000'')) (\<lambda>port.
                    Inr (a, store, StreamableHttp (dget_default environ ''SOX_HTTP_HOST'' ''127.0.0.1'') port))
             else Inr (a, store, StdioTransport))"

end
