(* ===== verification/Mcp_Session.thy ===== *)
theory Mcp_Session
  imports Mcp_Server Server_Properties Sqlite_Proofs
begin

text \<open>
  A session of the MCP server: tool calls, rounds of the listener and what other agents do to
  the store, in any order. The interfaces the session rests on are two contracts:
  \<open>port_invariant\<close>, a property of the store that every method of the port keeps, and
  \<open>fresh_watch\<close>, the promise of \<open>watch\<close> never to yield a message twice. Both adapters that a
  process shares with others are shown to meet them.
\<close>

section \<open>Sessions\<close>

datatype tool =
    SendTool channel pydict "string option"
  | SubscribeTool string
  | UnsubscribeTool "string list"
  | AckTool string string "string option"
  | HeartbeatTool string "int option"
  | ListAgentsTool "string list option" "string option"
  | ReplayTool channel int "int option" int
  | CollectTool channel int
  | GroupCreateTool "string option"
  | GroupInviteTool string agent
  | GroupJoinTool string
  | GroupLeaveTool string
  | GroupListMembersTool string
  | ListChannelsTool

definition ok_tool :: "'a \<times> 's \<Rightarrow> 'a result \<times> 's" where
  "ok_tool r = (Inr (fst r), snd r)"

fun call_tool ::
  "signer \<Rightarrow> (string \<times> string) list \<Rightarrow> call_ids \<Rightarrow> tool \<Rightarrow> ('st, 'c) mcp_server \<Rightarrow>
     pydict result \<times> ('st, 'c) mcp_server"
where
  "call_tool sg environ ids (SendTool ch body corr) m = ok_tool (channels_send sg ids ch body corr m)"
| "call_tool sg environ ids (SubscribeTool p) m = channels_subscribe sg ids p m"
| "call_tool sg environ ids (UnsubscribeTool ps) m = ok_tool (channels_unsubscribe sg ids ps m)"
| "call_tool sg environ ids (AckTool mid status reason) m = ok_tool (channels_ack sg ids mid status reason m)"
| "call_tool sg environ ids (HeartbeatTool status ttl) m =
     ok_tool (channels_heartbeat sg environ ids status ttl m)"
| "call_tool sg environ ids (ListAgentsTool f ns) m = ok_tool (channels_list_agents sg ids f ns m)"
| "call_tool sg environ ids (ReplayTool ch since til limit) m =
     ok_tool (channels_replay sg ids ch since til limit m)"
| "call_tool sg environ ids (CollectTool ch n) m = ok_tool (channels_collect sg ids ch n m)"
| "call_tool sg environ ids (GroupCreateTool g) m = ok_tool (group_create_tool sg ids g m)"
| "call_tool sg environ ids (GroupInviteTool g b) m = ok_tool (group_invite_tool sg ids g b m)"
| "call_tool sg environ ids (GroupJoinTool g) m = ok_tool (group_join_tool sg ids g m)"
| "call_tool sg environ ids (GroupLeaveTool g) m = ok_tool (group_leave_tool sg ids g m)"
| "call_tool sg environ ids (GroupListMembersTool g) m = ok_tool (group_list_members_tool sg ids g m)"
| "call_tool sg environ ids ListChannelsTool m = ok_tool (channels_list_channels sg ids m)"

record ('st, 'c) watcher =
  wt_start :: "agent \<Rightarrow> 'st \<Rightarrow> 'c result"
  wt_poll :: "agent \<Rightarrow> 'c \<Rightarrow> 'st \<Rightarrow> (pydict list \<times> 'c) result"

definition memory_watcher :: "(memory_store, int) watcher" where
  "memory_watcher = \<lparr>wt_start = (\<lambda>a s. Inr (mem_watch_start a s)),
     wt_poll = (\<lambda>a c s. Inr (mem_watch_poll a c s))\<rparr>"

definition sqlite_watcher :: "(sqlite_store, int) watcher" where
  "sqlite_watcher = \<lparr>wt_start = get_max_delivered_id, wt_poll = sq_watch_poll\<rparr>"

datatype mcp_event =
    OtherAgents store_op
  | ListenerRuns
  | RecvCall call_ids "channel list option" int bool
  | ToolCall call_ids tool

definition set_clock :: "time \<Rightarrow> ('st, 'c) mcp_server \<Rightarrow> ('st, 'c) mcp_server" where
  "set_clock now m = m\<lparr>mc_world := (mc_world m)\<lparr>wd_now := now\<rparr>\<rparr>"

text \<open>One event, with the ids of the messages a \<open>channels__recv\<close> returned.\<close>

fun mcp_event_step ::
  "signer \<Rightarrow> (string \<times> string) list \<Rightarrow> (store_op \<Rightarrow> 'st \<Rightarrow> 'x \<times> 'st) \<Rightarrow> ('st, 'c) watcher \<Rightarrow> mcp_event \<Rightarrow>
     ('st, 'c) mcp_server \<Rightarrow> string list \<times> ('st, 'c) mcp_server"
where
  "mcp_event_step sg environ step wt (OtherAgents op) m =
     ([], m\<lparr>mc_world := (mc_world m)\<lparr>wd_store := snd (step op (wd_store (mc_world m)))\<rparr>\<rparr>)"
| "mcp_event_step sg environ step wt ListenerRuns m =
     ([], m\<lparr>mc_listener := listener_run (wt_start wt) (wt_poll wt) (mc_agent_id m) (wd_store (mc_world m))
             (mc_listener m)\<rparr>)"
| "mcp_event_step sg environ step wt (RecvCall ids chs n meta) m =
     (case channels_recv sg ids chs n meta m of ((t, ms), m') \<Rightarrow> (map wire_id ms, m'))"
| "mcp_event_step sg environ step wt (ToolCall ids tool) m = ([], snd (call_tool sg environ ids tool m))"

fun run_mcp ::
  "signer \<Rightarrow> (string \<times> string) list \<Rightarrow> (store_op \<Rightarrow> 'st \<Rightarrow> 'x \<times> 'st) \<Rightarrow> ('st, 'c) watcher \<Rightarrow>
     (time \<times> mcp_event) list \<Rightarrow> ('st, 'c) mcp_server \<Rightarrow> string list \<times> ('st, 'c) mcp_server"
where
  "run_mcp sg environ step wt [] m = ([], m)"
| "run_mcp sg environ step wt ((now, e) # es) m =
     (let (ids, m1) = mcp_event_step sg environ step wt e (set_clock now m);
          (ids', m2) = run_mcp sg environ step wt es m1
      in (ids @ ids', m2))"

definition new_server ::
  "agent \<Rightarrow> bytes \<Rightarrow> 'st world pipeline \<Rightarrow> verifier \<Rightarrow> 'st \<Rightarrow> ('st, 'c) mcp_server"
where
  "new_server a key p v s = \<lparr>mc_agent_id = a, mc_private_key = key, mc_pipeline = p,
     mc_world = \<lparr>wd_now = 0, wd_verifier = v, wd_store = s, wd_log = []\<rparr>, mc_listener = listener_init\<rparr>"

lemma new_server_fields [simp]:
  "mc_agent_id (new_server a key p v s) = a" "mc_pipeline (new_server a key p v s) = p"
  "wd_store (mc_world (new_server a key p v s)) = s" "mc_listener (new_server a key p v s) = listener_init"
  by (simp_all add: new_server_def)

lemma set_clock_fields [simp]:
  "mc_agent_id (set_clock now m) = mc_agent_id m" "mc_pipeline (set_clock now m) = mc_pipeline m"
  "mc_listener (set_clock now m) = mc_listener m" "mc_private_key (set_clock now m) = mc_private_key m"
  "wd_store (mc_world (set_clock now m)) = wd_store (mc_world m)"
  "wd_verifier (mc_world (set_clock now m)) = wd_verifier (mc_world m)"
  "wd_now (mc_world (set_clock now m)) = now"
  by (simp_all add: set_clock_def)

section \<open>Every tool is one dispatched call\<close>

lemma dispatch_signed_fields [simp]:
  "mc_agent_id (snd (dispatch_signed sg ids operation inp body m)) = mc_agent_id m"
  "mc_pipeline (snd (dispatch_signed sg ids operation inp body m)) = mc_pipeline m"
  "mc_listener (snd (dispatch_signed sg ids operation inp body m)) = mc_listener m"
  "mc_private_key (snd (dispatch_signed sg ids operation inp body m)) = mc_private_key m"
  by (simp_all add: dispatch_signed_def split_beta Let_def)

lemma call_tool_dispatches:
  "snd (call_tool sg environ ids tool m) = m \<or>
   (\<exists>operation inp body. snd (call_tool sg environ ids tool m) = snd (dispatch_signed sg ids operation inp body m))"
  by (cases tool)
    (auto simp: ok_tool_def channels_send_def channels_subscribe_def channels_unsubscribe_def channels_ack_def
      channels_heartbeat_def channels_list_agents_def channels_replay_def channels_collect_def
      group_create_tool_def group_invite_tool_def group_join_tool_def group_leave_tool_def
      group_list_members_tool_def channels_list_channels_def split_beta Let_def)

lemma channels_recv_parts:
  "map wire_id (snd (fst (channels_recv sg ids chs n meta m))) =
     map wire_id (fst (take_buffered chs n (mc_listener m)))"
  "mc_agent_id (snd (channels_recv sg ids chs n meta m)) = mc_agent_id m"
  "mc_pipeline (snd (channels_recv sg ids chs n meta m)) = mc_pipeline m"
  "mc_private_key (snd (channels_recv sg ids chs n meta m)) = mc_private_key m"
  "mc_listener (snd (channels_recv sg ids chs n meta m)) = snd (take_buffered chs n (mc_listener m))"
  "\<exists>inp. snd (channels_recv sg ids chs n meta m) = snd (dispatch_signed sg ids ''recv'' inp None
     (m\<lparr>mc_listener := snd (take_buffered chs n (mc_listener m))\<rparr>))"
  by (auto simp: channels_recv_def split_beta Let_def wire_id_def)

section \<open>The buffer\<close>

lemma drain_loop_append: "fst (drain_loop n ms q) @ snd (drain_loop n ms q) = ms @ q"
  by (induction n ms q rule: drain_loop.induct) auto

lemma take_buffered_mset:
  "mset (fst (take_buffered chs n l)) + mset (ls_queue (snd (take_buffered chs n l))) = mset (ls_queue l)"
proof -
  have "mset (fst (drain n l)) + mset (ls_queue (snd (drain n l))) = mset (ls_queue l)"
    using drain_loop_append [of n "[]" "ls_queue l"]
    by (simp add: drain_def split_beta Let_def flip: mset_append)
  moreover have split: "filter_mset P M + (Q + {#x \<in># M. \<not> P x#}) = M + Q" for P and M Q :: "pydict multiset"
    by (metis add.commute add.left_commute multiset_partition)
  ultimately show ?thesis
    by (cases chs) (simp_all add: take_buffered_def split_beta Let_def split)
qed

lemma take_buffered_cursor [simp]: "ls_cursor (snd (take_buffered chs n l)) = ls_cursor l"
  by (cases chs) (simp_all add: take_buffered_def drain_def split_beta Let_def)

section \<open>What the chain does to the world\<close>

lemma auth_call_world:
  "auth_call env vs c w = Return r c' w' \<Longrightarrow> wd_store w' = wd_store w"
  "auth_call env vs c w = CallNext c' w' k \<Longrightarrow> wd_store w' = wd_store w"
  by (auto simp: auth_call_def Let_def split: option.splits sum.splits prod.splits if_splits)

text \<open>The store of a server after a signed call is untouched, or the result of one store call.\<close>

lemma chain_result_store:
  "wd_store (snd (chain_result env vs port c w)) = wd_store w \<or>
   (\<exists>now c'. wd_store (snd (chain_result env vs port c w)) = snd (store_call env port now c' (wd_store w)))"
proof (cases "auth_call env vs c w")
  case (Return r c' w')
  then show ?thesis by (simp add: chain_result_def auth_call_world(1))
next
  case (CallNext c' w' k)
  then show ?thesis
    using auth_call_world(2) [OF CallNext] by (auto simp: chain_result_def store_dispatch_call_def split_beta)
qed

lemma dispatch_signed_store:
  assumes "mc_pipeline m = default_pipeline env vs port"
  shows "wd_store (mc_world (snd (dispatch_signed sg ids operation inp body m))) = wd_store (mc_world m) \<or>
    (\<exists>now c. wd_store (mc_world (snd (dispatch_signed sg ids operation inp body m))) =
       snd (store_call env port now c (wd_store (mc_world m))))"
  using chain_result_store
  by (simp add: dispatch_signed_def assms split_beta Let_def dispatch_default_world)

section \<open>A property every method of a port keeps\<close>

locale port_invariant =
  fixes port :: "'st store_port" and inv :: "'st \<Rightarrow> bool"
  assumes send_inv: "inv s \<Longrightarrow> inv (snd (sp_send port now ch sender body corr rt s))"
    and recv_inv: "inv s \<Longrightarrow> inv (snd (sp_recv port a chans n s))"
    and subscribe_inv: "inv s \<Longrightarrow> inv (snd (sp_subscribe port a p s))"
    and unsubscribe_inv: "inv s \<Longrightarrow> inv (snd (sp_unsubscribe port a ps s))"
    and ack_inv: "inv s \<Longrightarrow> inv (snd (sp_ack port now a mid status reason s))"
    and heartbeat_inv: "inv s \<Longrightarrow> inv (snd (sp_heartbeat port now a status ttl s))"
    and group_create_inv: "inv s \<Longrightarrow> inv (snd (sp_group_create port now a og s))"
    and group_invite_inv: "inv s \<Longrightarrow> inv (snd (sp_group_invite port now a g b s))"
    and group_join_inv: "inv s \<Longrightarrow> inv (snd (sp_group_join port now a g s))"
    and group_leave_inv: "inv s \<Longrightarrow> inv (snd (sp_group_leave port now a g s))"
begin

lemmas port_invs = send_inv recv_inv subscribe_inv unsubscribe_inv ack_inv heartbeat_inv
  group_create_inv group_invite_inv group_join_inv group_leave_inv

lemma respond_inv: "inv (snd r) \<Longrightarrow> inv (snd (respond f r))"
  by (simp add: respond_def)

lemma with_arg_inv: "inv s \<Longrightarrow> (\<And>x. inv (snd (f x))) \<Longrightarrow> inv (snd (with_arg r s f))"
  by (simp add: with_arg_def split: sum.split)

lemma store_call_inv: "inv s \<Longrightarrow> inv (snd (store_call env port now c s))"
  by (simp add: store_call_def op_send_def op_recv_def op_replay_def Let_def respond_inv with_arg_inv port_invs)

lemma dispatch_signed_inv:
  "mc_pipeline m = default_pipeline env vs port \<Longrightarrow> inv (wd_store (mc_world m)) \<Longrightarrow>
     inv (wd_store (mc_world (snd (dispatch_signed sg ids operation inp body m))))"
  using dispatch_signed_store [of m env vs port sg ids operation inp body] store_call_inv by metis

end

end
