(* ===== verification/Mcp_Properties.thy ===== *)
theory Mcp_Properties
  imports Mcp_Session
begin

text \<open>
  What a session of the MCP server guarantees: a message is returned by \<open>channels__recv\<close> at
  most once, whatever the listener, the tools and other agents do; a \<open>channels__send\<close> of the
  started server is stored under its agent id; and what \<open>channels__recv\<close> loses.
\<close>

section \<open>The parts of a session step\<close>

lemma call_tool_fields [simp]:
  "mc_agent_id (snd (call_tool sg environ ids tool m)) = mc_agent_id m"
  "mc_pipeline (snd (call_tool sg environ ids tool m)) = mc_pipeline m"
  "mc_private_key (snd (call_tool sg environ ids tool m)) = mc_private_key m"
  "mc_listener (snd (call_tool sg environ ids tool m)) = mc_listener m"
  using call_tool_dispatches [of sg environ ids tool m] by auto

lemma mcp_event_fields [simp]:
  "mc_agent_id (snd (mcp_event_step sg environ step wt e m)) = mc_agent_id m"
  "mc_pipeline (snd (mcp_event_step sg environ step wt e m)) = mc_pipeline m"
  "mc_private_key (snd (mcp_event_step sg environ step wt e m)) = mc_private_key m"
  by (cases e; simp add: channels_recv_parts split_beta)+

section \<open>Messages are returned at most once\<close>

text \<open>
  What has been returned and what is buffered are different messages, all of them yielded by
  the generator before: \<open>yielded c\<close> are the ids that are behind the position \<open>c\<close>.
\<close>

definition buffer_ok :: "('c \<Rightarrow> string set) \<Rightarrow> string list \<Rightarrow> 'c listener \<Rightarrow> bool" where
  "buffer_ok yielded returned l \<longleftrightarrow>
     distinct (returned @ map wire_id (ls_queue l)) \<and>
     (case ls_cursor l of
        None \<Rightarrow> returned = [] \<and> ls_queue l = []
      | Some c \<Rightarrow> set (returned @ map wire_id (ls_queue l)) \<subseteq> yielded c)"

lemma buffer_ok_init: "buffer_ok yielded [] listener_init"
  by (simp add: buffer_ok_def listener_init_def)

lemma buffer_ok_taken:
  assumes "buffer_ok yielded ret l"
  shows "buffer_ok yielded (ret @ map wire_id (fst (take_buffered chs n l))) (snd (take_buffered chs n l))"
proof -
  let ?t = "map wire_id (fst (take_buffered chs n l))"
  let ?q = "map wire_id (ls_queue (snd (take_buffered chs n l)))"
  have "mset (?t @ ?q) = mset (map wire_id (ls_queue l))"
    using arg_cong [OF take_buffered_mset [of chs n l], of "image_mset wire_id"] by simp
  then have m: "mset ((ret @ ?t) @ ?q) = mset (ret @ map wire_id (ls_queue l))" by simp
  then have d: "distinct ((ret @ ?t) @ ?q) = distinct (ret @ map wire_id (ls_queue l))"
    by (rule mset_eq_imp_distinct_iff)
  have s: "set ((ret @ ?t) @ ?q) = set (ret @ map wire_id (ls_queue l))"
    using m by (rule mset_eq_setD)
  have e: "ls_queue l = [] \<Longrightarrow> ?t = [] \<and> ls_queue (snd (take_buffered chs n l)) = []"
    using take_buffered_mset [of chs n l] by simp
  show ?thesis
    using assms d s e by (cases "ls_cursor l") (simp_all add: buffer_ok_def del: append_assoc)
qed

locale fresh_watch =
  fixes wt :: "('st, 'c) watcher" and inv :: "'st \<Rightarrow> bool" and yielded :: "'c \<Rightarrow> string set"
  assumes poll_fresh: "inv s \<Longrightarrow> \<exists>ms c'. wt_poll wt a c s = Inr (ms, c') \<and> distinct (map wire_id ms) \<and>
    yielded c \<inter> wire_id ` set ms = {} \<and> yielded c \<union> wire_id ` set ms \<subseteq> yielded c'"
begin

lemma listener_run_ok:
  assumes "inv s" and "buffer_ok yielded ret l"
  shows "buffer_ok yielded ret (listener_run (wt_start wt) (wt_poll wt) a s l)"
proof (cases "ls_cursor l")
  case None
  then show ?thesis using assms(2) by (simp add: listener_run_def buffer_ok_def split: sum.split)
next
  case (Some c)
  obtain ms c' where p: "wt_poll wt a c s = Inr (ms, c')" "distinct (map wire_id ms)"
    "yielded c \<inter> wire_id ` set ms = {}" "yielded c \<union> wire_id ` set ms \<subseteq> yielded c'"
    using poll_fresh [OF assms(1)] by metis
  show ?thesis
  proof -
    let ?o = "ret @ map wire_id (ls_queue l)"
    have old: "distinct ?o" "set ?o \<subseteq> yielded c" using assms(2) by (simp_all add: buffer_ok_def Some)
    then have "distinct (?o @ map wire_id ms)" "set (?o @ map wire_id ms) \<subseteq> yielded c'"
      using p(2-4) by (simp only: distinct_append set_append set_map, blast)+
    then show ?thesis by (simp add: listener_run_def buffer_ok_def Some p(1))
  qed
qed

end

locale mcp_session = port_invariant port inv + fresh_watch wt inv yielded
  for port :: "'st store_port" and inv and wt :: "('st, 'c) watcher" and yielded +
  fixes step :: "store_op \<Rightarrow> 'st \<Rightarrow> 'x \<times> 'st"
  assumes step_inv: "inv s \<Longrightarrow> inv (snd (step op s))"
begin

lemma event_inv:
  assumes "mc_pipeline m = default_pipeline env vs port" and "inv (wd_store (mc_world m))"
  shows "inv (wd_store (mc_world (snd (mcp_event_step sg environ step wt e m))))"
proof (cases e)
  case (RecvCall ids chs n meta)
  obtain inp where "snd (channels_recv sg ids chs n meta m) = snd (dispatch_signed sg ids ''recv'' inp None
     (m\<lparr>mc_listener := snd (take_buffered chs n (mc_listener m))\<rparr>))" using channels_recv_parts(6) by blast
  then show ?thesis
    using assms dispatch_signed_inv [of "m\<lparr>mc_listener := snd (take_buffered chs n (mc_listener m))\<rparr>" env vs]
    by (simp add: RecvCall split_beta)
next
  case (ToolCall ids tool)
  then show ?thesis
    using assms call_tool_dispatches [of sg environ ids tool m] dispatch_signed_inv [of m env vs sg ids]
    by (metis mcp_event_step.simps(4) snd_conv)
qed (use assms step_inv in simp_all)

lemma event_ok:
  assumes "inv (wd_store (mc_world m))" and "buffer_ok yielded ret (mc_listener m)"
  shows "buffer_ok yielded (ret @ fst (mcp_event_step sg environ step wt e m))
    (mc_listener (snd (mcp_event_step sg environ step wt e m)))"
  using assms by (cases e) (simp_all add: listener_run_ok channels_recv_parts buffer_ok_taken split_beta)

lemma run_ok:
  assumes "mc_pipeline m = default_pipeline env vs port" and "inv (wd_store (mc_world m))"
    and "buffer_ok yielded ret (mc_listener m)"
  shows "inv (wd_store (mc_world (snd (run_mcp sg environ step wt es m)))) \<and>
    buffer_ok yielded (ret @ fst (run_mcp sg environ step wt es m)) (mc_listener (snd (run_mcp sg environ step wt es m)))"
  using assms
proof (induction es arbitrary: m ret)
  case (Cons te es)
  obtain now e where te: "te = (now, e)" by fastforce
  let ?m = "set_clock now m" and ?r = "mcp_event_step sg environ step wt e (set_clock now m)"
  have "mc_pipeline (snd ?r) = default_pipeline env vs port" using Cons.prems by simp
  moreover have "inv (wd_store (mc_world (snd ?r)))" using event_inv [of ?m env vs sg environ e] Cons.prems by simp
  moreover have "buffer_ok yielded (ret @ fst ?r) (mc_listener (snd ?r))"
    using event_ok [of ?m ret sg environ e] Cons.prems by simp
  ultimately show ?case
    using Cons.IH [of "snd ?r" "ret @ fst ?r"] by (simp add: te split_beta)
qed simp

text \<open>An id the generator of the agent does not yield, and that is not buffered, is never returned.\<close>

lemma run_never:
  assumes "\<And>c s ms c'. inv s \<Longrightarrow> wt_poll wt a c s = Inr (ms, c') \<Longrightarrow> x \<notin> wire_id ` set ms"
    and "mc_pipeline m = default_pipeline env vs port" and "inv (wd_store (mc_world m))"
    and "mc_agent_id m = a" and "x \<notin> wire_id ` set (ls_queue (mc_listener m))"
  shows "x \<notin> set (fst (run_mcp sg environ step wt es m))"
  using assms(2-)
proof (induction es arbitrary: m)
  case (Cons te es)
  obtain now e where te: "te = (now, e)" by fastforce
  let ?m = "set_clock now m" and ?r = "mcp_event_step sg environ step wt e (set_clock now m)"
  have taken: "x \<notin> wire_id ` set (fst (take_buffered chs n l)) \<and>
      x \<notin> wire_id ` set (ls_queue (snd (take_buffered chs n l)))"
    if "x \<notin> wire_id ` set (ls_queue l)" for chs n and l :: "'c listener"
    using that arg_cong [OF take_buffered_mset [of chs n l], of set_mset] by auto
  have polled: "x \<notin> wire_id ` set (ls_queue (listener_run (wt_start wt) (wt_poll wt) a s l))"
    if "x \<notin> wire_id ` set (ls_queue l)" "inv s" for s and l :: "'c listener"
  proof (cases "ls_cursor l")
    case (Some c)
    then show ?thesis
      using that assms(1) [of s c] by (cases "wt_poll wt a c s") (auto simp: listener_run_def split_beta)
  qed (use that in \<open>simp add: listener_run_def\<close>)
  have "x \<notin> set (fst ?r) \<and> x \<notin> wire_id ` set (ls_queue (mc_listener (snd ?r)))"
    using Cons.prems by (cases e) (simp_all add: taken polled channels_recv_parts split_beta del: image_iff)
  moreover have "inv (wd_store (mc_world (snd ?r)))" using event_inv [of ?m env vs sg environ e] Cons.prems by simp
  ultimately show ?case
    using Cons.IH [of "snd ?r"] Cons.prems by (simp add: te split_beta)
qed simp

lemma returned_once:
  assumes "inv s"
  shows "distinct (fst (run_mcp sg environ step wt es (new_server a key (default_pipeline env vs port) v s)))"
  using run_ok [of "new_server a key (default_pipeline env vs port) v s" env vs "[]"] assms
  by (simp add: buffer_ok_init, simp add: buffer_ok_def)

end

section \<open>The adapters meet the contracts\<close>

lemma memory_port_steps:
  assumes step: "\<And>op s. P s \<Longrightarrow> P (snd (mem_step op s))"
  shows "port_invariant memory_port P"
proof
  fix s a b now p status :: "_" and ch body corr rt chans n ps mid reason ttl og g sender
  assume s: "P s"
  show "P (snd (sp_send memory_port now ch sender body corr rt s))"
    using step [OF s, of "Send now ch sender body corr rt"] by (simp add: memory_port_def ok_call_def)
  show "P (snd (sp_recv memory_port a chans n s))"
    using step [OF s, of "Recv a chans n"] by (simp add: memory_port_def ok_call_def split_beta)
  show "P (snd (sp_subscribe memory_port a p s))"
    using step [OF s, of "Subscribe a p"] by (simp add: memory_port_def ok_call_def)
  show "P (snd (sp_unsubscribe memory_port a ps s))"
    using step [OF s, of "Unsubscribe a ps"] by (simp add: memory_port_def ok_call_def)
  show "P (snd (sp_ack memory_port now a mid status reason s))"
    using step [OF s, of "Ack now a mid status reason"] by (simp add: memory_port_def ok_call_def)
  show "P (snd (sp_heartbeat memory_port now a status ttl s))"
    using step [OF s, of "Heartbeat now a status ttl"] by (simp add: memory_port_def ok_call_def)
  show "P (snd (sp_group_create memory_port now a og s))"
    using step [OF s, of "GroupCreate now a og"] by (simp add: memory_port_def ok_call_def)
  show "P (snd (sp_group_invite memory_port now a g b s))"
    using step [OF s, of "GroupInvite now a g b"] by (simp add: memory_port_def)
  show "P (snd (sp_group_join memory_port now a g s))"
    using step [OF s, of "GroupJoin now a g"] by (simp add: memory_port_def ok_call_def)
  show "P (snd (sp_group_leave memory_port now a g s))"
    using step [OF s, of "GroupLeave now a g"] by (simp add: memory_port_def ok_call_def)
qed

lemma sqlite_port_steps:
  assumes step: "\<And>op s. P s \<Longrightarrow> P (snd (sq_step op s))"
  shows "port_invariant sqlite_port P"
proof
  fix s a b now p status :: "_" and ch body corr rt chans n ps mid reason ttl og g sender
  assume s: "P s"
  show "P (snd (sp_send sqlite_port now ch sender body corr rt s))"
    using step [OF s, of "Send now ch sender body corr rt"] by (simp add: sqlite_port_def)
  show "P (snd (sp_recv sqlite_port a chans n s))"
    using step [OF s, of "Recv a chans n"]
    by (cases "sq_recv a chans n s") (simp add: sqlite_port_def split: sum.splits)
  show "P (snd (sp_subscribe sqlite_port a p s))"
    using step [OF s, of "Subscribe a p"] by (simp add: sqlite_port_def)
  show "P (snd (sp_unsubscribe sqlite_port a ps s))"
    using step [OF s, of "Unsubscribe a ps"] by (simp add: sqlite_port_def)
  show "P (snd (sp_ack sqlite_port now a mid status reason s))"
    using step [OF s, of "Ack now a mid status reason"] by (simp add: sqlite_port_def ok_call_def)
  show "P (snd (sp_heartbeat sqlite_port now a status ttl s))"
    using step [OF s, of "Heartbeat now a status ttl"] by (simp add: sqlite_port_def)
  show "P (snd (sp_group_create sqlite_port now a og s))"
    using step [OF s, of "GroupCreate now a og"] by (simp add: sqlite_port_def)
  show "P (snd (sp_group_invite sqlite_port now a g b s))"
    using step [OF s, of "GroupInvite now a g b"] by (simp add: sqlite_port_def)
  show "P (snd (sp_group_join sqlite_port now a g s))"
    using step [OF s, of "GroupJoin now a g"] by (simp add: sqlite_port_def)
  show "P (snd (sp_group_leave sqlite_port now a g s))"
    using step [OF s, of "GroupLeave now a g"] by (simp add: sqlite_port_def)
qed

text \<open>The ids behind a position of the numbered generators.\<close>

definition ids_upto :: "int \<Rightarrow> string set" where
  "ids_upto c = str_int ` {i. i \<le> c}"

lemma ids_upto_iff [simp]: "str_int i \<in> ids_upto c \<longleftrightarrow> i \<le> c"
  by (auto simp: ids_upto_def)

lemma ids_upto_fresh:
  assumes "distinct is" and "\<And>i. i \<in> set is \<Longrightarrow> c < i \<and> i \<le> c'" and "c \<le> c'"
  shows "distinct (map str_int is) \<and> ids_upto c \<inter> set (map str_int is) = {} \<and>
    ids_upto c \<union> set (map str_int is) \<subseteq> ids_upto c'"
proof -
  have "i \<le> c'" if "i \<le> c" for i using that assms(3) by simp
  with assms(1,2) show ?thesis by (force simp: distinct_map inj_on_def ids_upto_def)
qed

lemma mem_poll_fresh:
  assumes "mem_inv s"
  shows "\<exists>ms c'. wt_poll memory_watcher a c s = Inr (ms, c') \<and> distinct (map wire_id ms) \<and>
    ids_upto c \<inter> wire_id ` set ms = {} \<and> ids_upto c \<union> wire_id ` set ms \<subseteq> ids_upto c'"
proof -
  let ?new = "mem_watch_new a c s"
  let ?c' = "if ?new = [] then c else Max (mm_id ` set ?new)"
  have new: "set ?new \<subseteq> {m \<in> set (ms_messages s). c < mm_id m}" by (auto simp: mem_watch_new_def)
  have "distinct (map mm_id (ms_messages s))" using assms by (simp add: mem_inv_def)
  then have "distinct (map mm_id ?new)"
    by (simp add: mem_watch_new_def distinct_map inj_on_def)
  moreover have le: "c < i \<and> i \<le> ?c'" if "i \<in> set (map mm_id ?new)" for i
    using that new by (auto simp: Max_ge)
  moreover have "c \<le> ?c'"
  proof (cases ?new)
    case (Cons x xs)
    then have "c < mm_id x" "mm_id x \<le> ?c'" using le [of "mm_id x"] by (simp_all del: Max_insert)
    then show ?thesis by (rule order.trans [OF less_imp_le])
  qed simp
  ultimately have "distinct (map str_int (map mm_id ?new)) \<and> ids_upto c \<inter> set (map str_int (map mm_id ?new)) = {} \<and>
      ids_upto c \<union> set (map str_int (map mm_id ?new)) \<subseteq> ids_upto ?c'"
    by (rule ids_upto_fresh)
  then show ?thesis
    by (simp add: memory_watcher_def mem_watch_poll_def Let_def image_image comp_def)
qed

lemma valid_int_digits_all: "s \<noteq> [] \<Longrightarrow> \<forall>c \<in> set s. is_digit c \<Longrightarrow> valid_int_digits s"
proof (induction s rule: valid_int_digits.induct)
  case (3 c d cs)
  moreover have "d \<noteq> CHR ''_''" using 3 by (auto simp: is_digit_def)
  ultimately show ?case by simp
qed auto

lemma strip_no_space: "\<forall>c \<in> set s. \<not> py_isspace c \<Longrightarrow> strip s = s"
proof -
  have d: "\<forall>c \<in> set t. \<not> py_isspace c \<Longrightarrow> dropWhile py_isspace t = t" for t by (cases t) auto
  show "\<forall>c \<in> set s. \<not> py_isspace c \<Longrightarrow> strip s = s"
    by (simp add: strip_def lstrip_def rstrip_def d)
qed

lemma digit_not_space: "is_digit c \<Longrightarrow> \<not> py_isspace c"
  by (auto simp: is_digit_def py_isspace_def Let_def)

lemma parse_int_str_int [simp]: "parse_int (str_int i) = Inr i"
proof -
  have d: "\<forall>c \<in> set (str_nat n). is_digit c" for n by (rule str_nat_digits)
  then have f: "filter is_digit (str_nat n) = str_nat n" "valid_int_digits (str_nat n)" for n
    by (simp_all add: valid_int_digits_all)
  have "\<forall>c \<in> set (str_int i). \<not> py_isspace c"
    using d digit_not_space by (auto simp: str_int_def py_isspace_def)
  then have s: "strip (str_int i) = str_int i" by (rule strip_no_space)
  show ?thesis
  proof (cases "i < 0")
    case True
    then show ?thesis using s f by (simp add: parse_int_def Let_def str_int_def)
  next
    case False
    then have i: "str_int i = str_nat (nat i)" by (simp add: str_int_def)
    obtain c r where cr: "str_nat (nat i) = c # r" by (cases "str_nat (nat i)") auto
    have "is_digit c" using d [of "nat i"] cr by simp
    then have "c \<noteq> CHR ''-''" "c \<noteq> CHR ''+''" by (auto simp: is_digit_def)
    then have "parse_int (str_int i) = Inr (int (nat_of_digits (str_nat (nat i))))"
      using s f [of "nat i"] by (simp add: parse_int_def Let_def i cr)
    then show ?thesis using False by simp
  qed
qed

text \<open>The open store, and its generator.\<close>

definition sq_ready :: "sqlite_store \<Rightarrow> bool" where
  "sq_ready s \<longleftrightarrow> sq_inv s \<and> sq_conn s"

lemma delete_subscriptions_conn [simp]: "sq_conn (delete_subscriptions a ps s) = sq_conn s"
  unfolding delete_subscriptions_def
  by (induction ps arbitrary: s) (simp_all add: delete_subscription_def)

lemma sq_step_conn: "sq_conn (snd (sq_step op s)) = sq_conn s"
  by (cases op) (auto simp: sq_send_def insert_message_def sq_recv_def sq_subscribe_def sq_unsubscribe_def
      insert_subscription_def delete_subscription_def sq_ack_def sq_heartbeat_def
      sq_group_create_def sq_group_invite_def sq_group_join_def sq_group_leave_def require_conn_def Let_def
      split: option.split prod.split)

lemma sq_step_ready: "sq_ready s \<Longrightarrow> sq_ready (snd (sq_step op s))"
  by (simp add: sq_ready_def sq_step_inv sq_step_conn)

lemma seen_after: "foldl (\<lambda>seen m. case parse_int (wire_id m) of Inr i \<Rightarrow> max seen i | Inl e \<Rightarrow> seen) c
    (map build_message rs) = foldl max c (map rw_id rs)"
  by (induction rs arbitrary: c) simp_all

lemma foldl_max_le: "c \<le> foldl max c (is :: int list)" "i \<in> set is \<Longrightarrow> i \<le> foldl max c is"
proof (induction "is" arbitrary: c)
  case (Cons j js)
  { case 1 show ?case using Cons(1) [of "max c j"] by simp }
  { case 2 then show ?case using Cons(1) [of "max c j"] Cons(2) [of "max c j"] by auto }
qed simp_all

lemma sq_poll_fresh:
  assumes "sq_ready s"
  shows "\<exists>ms c'. wt_poll sqlite_watcher a c s = Inr (ms, c') \<and> distinct (map wire_id ms) \<and>
    ids_upto c \<inter> wire_id ` set ms = {} \<and> ids_upto c \<union> wire_id ` set ms \<subseteq> ids_upto c'"
proof -
  let ?pats = "map snd (filter (\<lambda>r. fst r = a) (sq_subscriptions s))"
  let ?new = "if ?pats = [] then []
    else filter (\<lambda>r. a \<notin> set (rw_delivered_to r) \<and> agent_matches_channel ?pats (rw_channel r))
              (sort_key row_order (filter (\<lambda>r. rw_id r > c) (sq_messages s)))"
  let ?c' = "foldl max c (map rw_id ?new)"
  have fetch: "fetch_new_for_agent a c s = Inr (map build_message ?new)"
    using assms by (simp add: fetch_new_for_agent_def get_patterns_for_agent_def require_conn_def sq_ready_def)
  have "distinct (map rw_id (sq_messages s))" using assms by (simp add: sq_ready_def sq_inv_def sq_ids_ok_def)
  then have "distinct (map rw_id ?new)" by (simp add: distinct_map inj_on_def)
  moreover have "c < i \<and> i \<le> ?c'" if "i \<in> set (map rw_id ?new)" for i
    using that foldl_max_le(2) [OF that] by (auto split: if_splits)
  moreover have "c \<le> ?c'" by (rule foldl_max_le(1))
  ultimately have "distinct (map str_int (map rw_id ?new)) \<and> ids_upto c \<inter> set (map str_int (map rw_id ?new)) = {} \<and>
      ids_upto c \<union> set (map str_int (map rw_id ?new)) \<subseteq> ids_upto ?c'"
    by (rule ids_upto_fresh)
  then show ?thesis
    by (simp add: sqlite_watcher_def sq_watch_poll_def fetch seen_after image_image comp_def del: foldl_map)
qed

interpretation mcp_mem: mcp_session memory_port mem_inv memory_watcher ids_upto mem_step
  by (intro mcp_session.intro memory_port_steps fresh_watch.intro mcp_session_axioms.intro mem_poll_fresh mem_step_inv)

interpretation mcp_sq: mcp_session sqlite_port sq_ready sqlite_watcher ids_upto sq_step
  by (intro mcp_session.intro sqlite_port_steps fresh_watch.intro mcp_session_axioms.intro sq_poll_fresh
      sq_step_ready)

text \<open>
  C25. At most once, end to end: over a whole session of the MCP server on its default chain,
  with the listener's rounds, the tool calls, channel filters that put messages back and the
  operations of other agents in any order, \<open>channels__recv\<close> returns no message twice. This holds
  over the in-memory and over the SQLite store.
\<close>

theorem mcp_recv_at_most_once:
  "distinct (fst (run_mcp sg environ mem_step memory_watcher es
      (new_server a key (default_pipeline env vs memory_port) v memory_init))) \<and>
   distinct (fst (run_mcp sg environ sq_step sqlite_watcher es
      (new_server a key (default_pipeline env vs sqlite_port) v (sqlite_init\<lparr>sq_conn := True\<rparr>))))"
proof
  show "distinct (fst (run_mcp sg environ mem_step memory_watcher es
      (new_server a key (default_pipeline env vs memory_port) v memory_init)))"
    using mem_inv_init by (rule mcp_mem.returned_once)
  have "sq_ready (sqlite_init\<lparr>sq_conn := True\<rparr>)"
    using sq_inv_init by (simp add: sq_ready_def sq_inv_def sq_ids_ok_def sq_log_def)
  then show "distinct (fst (run_mcp sg environ sq_step sqlite_watcher es
      (new_server a key (default_pipeline env vs sqlite_port) v (sqlite_init\<lparr>sq_conn := True\<rparr>))))"
    by (rule mcp_sq.returned_once)
qed

end
