(* ===== verification/Mcp_Send.thy ===== *)
theory Mcp_Send
  imports Mcp_Properties
begin

text \<open>
  The identity of a started MCP server: the credentials its tools sign are the ones its own
  verifier accepts, during the whole session, so that a \<open>channels__send\<close> is the \<open>send\<close> of the
  store under the agent's id. Then what \<open>channels__recv\<close> loses between two rounds of the listener.
\<close>

section \<open>What a call leaves of the verifier\<close>

definition verifier_keeps :: "verifier \<Rightarrow> verifier \<Rightarrow> bool" where
  "verifier_keeps v v' \<longleftrightarrow> vf_registry v' = vf_registry v \<and> vf_replay_window v' = vf_replay_window v \<and>
     (nonces_ok v \<longrightarrow> nonces_ok v')"

lemma verifier_keeps_refl [simp]: "verifier_keeps v v"
  by (simp add: verifier_keeps_def)

lemma vf_verify_keeps: "verifier_keeps v (snd (vf_verify vs now anow req operation conn v))"
proof (cases "\<exists>r. credential_valid vs now req v r")
  case True
  then obtain r where "credential_valid vs now req v r" ..
  from vf_verify_valid [OF this, of anow operation conn] check_and_insert_ok [of v "sr_nonce req" now]
  show ?thesis by (simp add: verifier_keeps_def nonces_ok_def record_failure_def)
next
  case False
  then show ?thesis
    using vf_verify_invalid [of vs now req v anow operation conn]
    by (auto simp: verifier_keeps_def nonces_ok_def record_failure_def)
qed

lemma bind_for_send_keeps: "verifier_keeps v (snd (bind_for_send vs now anow req inp v))"
  using vf_verify_keeps [of v vs now anow req "''send''" None]
  by (auto simp: bind_for_send_def split: prod.split sum.split)

lemma auth_call_keeps:
  "auth_call env vs c w = Return r c' w' \<Longrightarrow> verifier_keeps (wd_verifier w) (wd_verifier w')"
  "auth_call env vs c w = CallNext c' w' k \<Longrightarrow> verifier_keeps (wd_verifier w) (wd_verifier w')"
proof -
  obtain o_req c1 where c1: "resolve_credential c = (o_req, c1)" by fastforce
  have b: "verifier_keeps (wd_verifier w) (snd (bind_for_send vs (wd_now w) (wd_now w) req (cx_input c1) (wd_verifier w)))"
    for req by (rule bind_for_send_keeps)
  have f: "verifier_keeps (wd_verifier w)
      (snd (vf_verify vs (wd_now w) (wd_now w) req (cx_operation c) (Some (cx_connection_id c1)) (wd_verifier w)))"
    for req by (rule vf_verify_keeps)
  show "auth_call env vs c w = Return r c' w' \<Longrightarrow> verifier_keeps (wd_verifier w) (wd_verifier w')"
    "auth_call env vs c w = CallNext c' w' k \<Longrightarrow> verifier_keeps (wd_verifier w) (wd_verifier w')"
    using b [of "the o_req"] f [of "the o_req"]
    by (auto simp: auth_call_def c1 Let_def split: option.splits sum.splits prod.splits if_splits)
qed

lemma chain_result_keeps:
  "verifier_keeps (wd_verifier w) (wd_verifier (snd (chain_result env vs port c w)))"
proof (cases "auth_call env vs c w")
  case (Return r c' w')
  then show ?thesis using auth_call_keeps(1) by (simp add: chain_result_def)
next
  case (CallNext c' w' k)
  then show ?thesis
    using auth_call_keeps(2) by (simp add: chain_result_def store_dispatch_call_def split_beta)
qed

section \<open>The server stays ready\<close>

definition server_ready ::
  "(bytes \<Rightarrow> bytes \<Rightarrow> bytes \<Rightarrow> bool) \<Rightarrow> signer \<Rightarrow> ('st, 'c) mcp_server \<Rightarrow> bool"
where
  "server_ready vs sg m \<longleftrightarrow> verifier_ok 300 (wd_verifier (mc_world m)) \<and> mc_agent_id m \<noteq> [] \<and>
     (\<exists>r. dget (vf_registry (wd_verifier (mc_world m))) (mc_agent_id m) = Some r \<and> cr_revoked_at r = None \<and>
        (\<forall>p. vs (cr_public_key r) p (sg_sign sg (mc_private_key m) p)))"

lemma server_ready_kept:
  "server_ready vs sg m \<Longrightarrow> verifier_keeps (wd_verifier (mc_world m)) (wd_verifier (mc_world m')) \<Longrightarrow>
     mc_agent_id m' = mc_agent_id m \<Longrightarrow> mc_private_key m' = mc_private_key m \<Longrightarrow> server_ready vs sg m'"
  by (auto simp: server_ready_def verifier_keeps_def verifier_ok_def)

lemma server_ready_clock [simp]: "server_ready vs sg (set_clock now m) = server_ready vs sg m"
  by (simp add: server_ready_def)

lemma dispatch_signed_keeps:
  assumes "mc_pipeline m = default_pipeline env vs port"
  shows "verifier_keeps (wd_verifier (mc_world m))
    (wd_verifier (mc_world (snd (dispatch_signed sg ids operation inp body m))))"
  by (simp add: dispatch_signed_def assms split_beta Let_def dispatch_default_world chain_result_keeps)

lemma event_ready:
  assumes "mc_pipeline m = default_pipeline env vs port" and "server_ready vs sg m"
  shows "server_ready vs sg (snd (mcp_event_step sg environ step wt e m))"
proof -
  have "verifier_keeps (wd_verifier (mc_world m)) (wd_verifier (mc_world (snd (mcp_event_step sg environ step wt e m))))"
  proof (cases e)
    case (RecvCall ids chs n meta)
    obtain inp where "snd (channels_recv sg ids chs n meta m) = snd (dispatch_signed sg ids ''recv'' inp None
       (m\<lparr>mc_listener := snd (take_buffered chs n (mc_listener m))\<rparr>))" using channels_recv_parts(6) by blast
    then show ?thesis
      using assms(1) dispatch_signed_keeps [of "m\<lparr>mc_listener := snd (take_buffered chs n (mc_listener m))\<rparr>" env vs]
      by (simp add: RecvCall split_beta)
  next
    case (ToolCall ids tool)
    then show ?thesis
      using assms(1) call_tool_dispatches [of sg environ ids tool m] dispatch_signed_keeps [of m env vs port sg ids]
      by (metis mcp_event_step.simps(4) snd_conv verifier_keeps_refl)
  qed simp_all
  with assms(2) show ?thesis by (rule server_ready_kept) simp_all
qed

lemma run_ready:
  "mc_pipeline m = default_pipeline env vs port \<Longrightarrow> server_ready vs sg m \<Longrightarrow>
     server_ready vs sg (snd (run_mcp sg environ step wt es m)) \<and>
     mc_pipeline (snd (run_mcp sg environ step wt es m)) = default_pipeline env vs port \<and>
     mc_agent_id (snd (run_mcp sg environ step wt es m)) = mc_agent_id m"
proof (induction es arbitrary: m)
  case (Cons te es)
  obtain now e where te: "te = (now, e)" by fastforce
  have "server_ready vs sg (set_clock now m)" using Cons.prems(2) by (simp add: server_ready_def)
  then have "server_ready vs sg (snd (mcp_event_step sg environ step wt e (set_clock now m)))"
    using Cons.prems(1) by (intro event_ready) simp_all
  then show ?case
    using Cons.IH [of "snd (mcp_event_step sg environ step wt e (set_clock now m))"] Cons.prems(1)
    by (simp add: te split_beta)
qed simp

section \<open>The started server\<close>

lemma toposort_nothing [simp]: "toposort_plugins [] cs = Inr []"
  by (simp add: toposort_plugins_def kahn_sort_def Let_def)

lemma load_nothing:
  "fst (load_plugins lenv [] allowlist sox_env host no_discovery g) = Inr () \<Longrightarrow>
     resolved_order (snd (load_plugins lenv [] allowlist sox_env host no_discovery g)) = []"
  by (auto simp: load_plugins_def Let_def resolved_order_def split: if_splits option.splits)

lemma lifespan_started:
  assumes "fst (mcp_lifespan env vs lenv port init_store schemas [] environ a keys now s registry_init) = Inr m"
    and "\<And>p. vs (snd keys) p (sg_sign sg (fst keys) p)"
  shows "mc_pipeline m = default_pipeline env vs port \<and> mc_agent_id m = a \<and> server_ready vs sg m"
proof -
  obtain u where schemas: "schemas = Inr u" using assms(1) by (cases schemas) (auto simp: mcp_lifespan_def)
  obtain s1 where s1: "init_store s = (Inr (), s1)"
    using assms(1) schemas by (cases "init_store s"; cases "fst (init_store s)") (auto simp: mcp_lifespan_def)
  obtain res regs where reg: "cred_register now a (snd keys) [] = (res, regs)" by fastforce
  have v: "vf_registry (verifier_init 300) = []" by (simp add: verifier_init_def)
  have "res \<noteq> Inl e" for e
    using assms(1) s1 reg v schemas by (auto simp: mcp_lifespan_def Let_def split_beta)
  then obtain c where c: "res = Inr c" by (cases res) auto
  have regs: "a \<noteq> []" "dget regs a = Some \<lparr>cr_agent_id = a, cr_public_key = snd keys, cr_registered_at = now,
      cr_revoked_at = None\<rparr>"
    using reg c by (auto simp: cred_register_def Let_def split: if_splits)
  have ok: "registry_ok regs"
    using cred_register_ok [of "[]" now a "snd keys"] reg by (simp add: registry_ok_def)
  note g1 = build_default_empty [of env vs port]
  obtain r g2 where g2: "load_plugins lenv ([] :: 'a world plugin list) (plugin_allowlist environ)
      (dget_default environ ''SOX_ENV'' ''dev'') ''1.0.0'' (dget_default environ ''SOX_NO_DISCOVERY'' [] = ''1'') registry_init = (r, g2)"
    by fastforce
  have r: "r = Inr ()" using assms(1) schemas s1 reg c v g1 g2
    by (cases r) (simp_all add: mcp_lifespan_def split_beta Let_def)
  then have "resolved_order g2 = []" using g2 load_nothing by (metis fst_conv snd_conv)
  then have "m = \<lparr>mc_agent_id = a, mc_private_key = fst keys, mc_pipeline = default_pipeline env vs port,
      mc_world = \<lparr>wd_now = now, wd_verifier = (verifier_init 300)\<lparr>vf_registry := regs\<rparr>, wd_store = s1,
        wd_log = []\<rparr>, mc_listener = listener_init\<rparr>"
    using assms(1) schemas s1 reg c v g1 g2 r by (simp add: mcp_lifespan_def split_beta Let_def)
  then show ?thesis
    using regs ok assms(2) by (simp add: server_ready_def verifier_ok_def verifier_init_def nonces_ok_def)
qed

section \<open>A sent message is stored\<close>

lemma resolve_signed_request_fields [simp]:
  "sr_agent_id (resolve_signed_request sg nonce now a key operation body) = a"
  "sr_nonce (resolve_signed_request sg nonce now a key operation body) = nonce"
  "sr_timestamp (resolve_signed_request sg nonce now a key operation body) = now"
  "sr_signature (resolve_signed_request sg nonce now a key operation body) =
     sg_sign sg key (canonical_payload (resolve_signed_request sg nonce now a key operation body))"
  by (simp_all add: resolve_signed_request_def canonical_payload_def Let_def)

lemma signed_acceptable:
  assumes "server_ready vs sg m" and "nonce \<noteq> []" and "nonce_free nonce now (wd_verifier (mc_world m))"
  shows "acceptable vs now (resolve_signed_request sg nonce now (mc_agent_id m) (mc_private_key m) operation body)
    (wd_verifier (mc_world m))"
  using assms by (auto simp: acceptable_def credential_valid_def server_ready_def verifier_ok_def)

lemma send_chain:
  assumes "server_ready vs sg m" and "strip (mc_agent_id m) \<noteq> []" and "nonce \<noteq> []"
    and "nonce_free nonce (wd_now (mc_world m)) (wd_verifier (mc_world m))"
    and "inp = [(''channel'', PStr ch), (''body'', PDict body), (''correlation_id'', opt_str corr)]"
    and "req = resolve_signed_request sg nonce (wd_now (mc_world m)) (mc_agent_id m) (mc_private_key m) ''send'' b"
  obtains w' c' where
    "chain_result env vs port (call_ctx fresh ''send'' inp conn (Some [(''_connection_credential'', PSigned req)]))
       (mc_world m) =
     (case op_send env port (wd_now (mc_world m)) c' (wd_store (mc_world m)) of (r, s) \<Rightarrow> (recover r, w'\<lparr>wd_store := s\<rparr>))"
    "dget (cx_input c') ''sender'' = Some (PStr (mc_agent_id m))"
    "\<forall>k. k \<notin> {''sender'', ''origin_server'', ''signed_request''} \<longrightarrow> dget (cx_input c') k = dget inp k"
proof -
  let ?w = "mc_world m" and ?c = "call_ctx fresh ''send'' inp conn (Some [(''_connection_credential'', PSigned req)])"
  have ok: "acceptable vs (wd_now ?w) req (wd_verifier ?w)"
    using signed_acceptable [OF assms(1,3,4)] assms(6) by simp
  have v: "nonces_ok (wd_verifier ?w)" "registry_ok (vf_registry (wd_verifier ?w))"
    using assms(1) by (simp_all add: server_ready_def verifier_ok_def)
  have cred: "fst (resolve_credential ?c) = Some req" by (simp add: resolve_credential_of credential_of_def)
  have d: "distinct (map fst inp)" using assms(5) by simp
  have "sr_agent_id req = mc_agent_id m" using assms(6) by simp
  then obtain c' v' where a: "auth_call env vs ?c ?w = CallNext c' (?w\<lparr>wd_verifier := v'\<rparr>) (\<lambda>(r, c, w'). Return r c w')"
    "dget (cx_input c') ''sender'' = Some (PStr (mc_agent_id m))" "cx_operation c' = ''send''"
    "\<forall>k. k \<notin> {''sender'', ''origin_server'', ''signed_request''} \<longrightarrow> dget (cx_input c') k = dget inp k"
    by (rule_tac auth_send_accepted [OF v, of ?c req vs env]) (simp_all add: cred ok assms(2) d)
  show thesis
    using a by (intro that [where c' = c' and w' = "?w\<lparr>wd_verifier := v'\<rparr>"])
      (simp_all add: chain_result_def store_dispatch_call_def store_call_def split_beta)
qed

text \<open>
  C26. The tool \<open>channels__send\<close> of a started server is the \<open>send\<close> of its store under its own
  agent id, at any point of a session: whatever happened before, with a nonce that is not in the
  replay cache (each call draws a UUID) the store gets exactly the channel, body and correlation
  id of the call, and the answer has the message id and number the store gave, and no channel.
\<close>

theorem mcp_send_stored:
  assumes "fst (mcp_lifespan env vs lenv port init_store schemas [] environ a keys now s registry_init) = Inr m"
    and "\<And>p. vs (snd keys) p (sg_sign sg (fst keys) p)" and "strip a \<noteq> []"
    and "m' = set_clock t (snd (run_mcp sg environ step wt es m))"
    and "ci_nonce ids \<noteq> []" and "nonce_free (ci_nonce ids) t (wd_verifier (mc_world m'))"
    and "r = sp_send port t ch a body corr None (wd_store (mc_world m'))"
  shows "wd_store (mc_world (snd (channels_send sg ids ch body corr m'))) = snd r \<and>
    (\<forall>mid sent_at seq bp. fst r = Inr (mid, sent_at, seq, bp) \<longrightarrow>
       dget (fst (channels_send sg ids ch body corr m')) ''message_id'' = Some (PStr mid) \<and>
       dget (fst (channels_send sg ids ch body corr m')) ''seq'' = Some (PInt seq) \<and>
       dget (fst (channels_send sg ids ch body corr m')) ''channel'' = None)"
proof -
  have m: "mc_pipeline m = default_pipeline env vs port" "mc_agent_id m = a" "server_ready vs sg m"
    using lifespan_started [OF assms(1,2)] by simp_all
  from run_ready [OF m(1,3), of environ step wt es]
  have m': "mc_pipeline m' = default_pipeline env vs port" "mc_agent_id m' = a" "server_ready vs sg m'"
    "wd_now (mc_world m') = t"
    using m(2) assms(4) by simp_all
  let ?inp = "[(''channel'', PStr ch), (''body'', PDict body), (''correlation_id'', opt_str corr)]"
  let ?req = "resolve_signed_request sg (ci_nonce ids) t a (mc_private_key m') ''send'' (Some ?inp)"
  let ?md = "Some [(''_connection_credential'', PSigned ?req)]"
  have s: "strip (mc_agent_id m') \<noteq> []" using assms(3) m'(2) by simp
  have n: "nonce_free (ci_nonce ids) (wd_now (mc_world m')) (wd_verifier (mc_world m'))" using assms(6) m'(4) by simp
  obtain w' c' where chain:
    "chain_result env vs port (call_ctx (ci_fresh ids) ''send'' ?inp (ci_connection_id ids) ?md) (mc_world m') =
     (case op_send env port t c' (wd_store (mc_world m')) of (r, s) \<Rightarrow> (recover r, w'\<lparr>wd_store := s\<rparr>))"
    "dget (cx_input c') ''sender'' = Some (PStr a)"
    "\<forall>k. k \<notin> {''sender'', ''origin_server'', ''signed_request''} \<longrightarrow> dget (cx_input c') k = dget ?inp k"
    using send_chain [OF m'(3) s assms(5) n refl refl] unfolding m'(2,4) by metis
  have op: "op_send env port t c' (wd_store (mc_world m')) = respond (\<lambda>(message_id, sent_at, seq, bp).
           [(''message_id'', PStr message_id), (''channel'', PStr ch), (''sent_at'', PFloat sent_at),
            (''seq'', PInt seq), (''backpressure'', PDict [(''queue_depth'', PInt (bp_queue_depth bp)),
               (''threshold'', PInt (bp_threshold bp)), (''state'', PStr (bp_state bp))])]) r"
    using chain(2,3) assms(7)
    by (cases corr) (simp_all add: op_send_def get_str_def get_opt_str_def dget_default_def opt_str_def)
  have call: "channels_send sg ids ch body corr m' =
      (dpop (fst (dispatch_signed sg ids ''send'' ?inp (Some ?inp) m')) ''channel'',
       snd (dispatch_signed sg ids ''send'' ?inp (Some ?inp) m'))"
    by (simp add: channels_send_def Let_def split_beta)
  let ?d = "dispatch (default_pipeline env vs port) (ci_fresh ids) ''send'' ?inp (ci_connection_id ids) ?md (mc_world m')"
  have d: "dispatch_signed sg ids ''send'' ?inp (Some ?inp) m' = (fst ?d, m'\<lparr>mc_world := snd (snd ?d)\<rparr>)"
    by (simp add: dispatch_signed_def m'(1,2,4) Let_def split_beta)
  have world: "snd (snd ?d) = w'\<lparr>wd_store := snd r\<rparr>"
    by (simp add: dispatch_default_world chain(1) op respond_def split_beta)
  have resp: "k \<noteq> ''metadata'' \<Longrightarrow> dget (fst ?d) k = dget (recover (fst (respond (\<lambda>(message_id, sent_at, seq, bp).
           [(''message_id'', PStr message_id), (''channel'', PStr ch), (''sent_at'', PFloat sent_at),
            (''seq'', PInt seq), (''backpressure'', PDict [(''queue_depth'', PInt (bp_queue_depth bp)),
               (''threshold'', PInt (bp_threshold bp)), (''state'', PStr (bp_state bp))])]) r))) k" for k
    by (simp add: dispatch_default_response chain(1) op split_beta)
  show ?thesis
    unfolding call d by (auto simp: world resp respond_def recover_def)
qed

text \<open>A concrete server with the toy signature scheme and no plugins.\<close>

definition toy_signer :: signer where
  "toy_signer = \<lparr>sg_sign = (\<lambda>key p. key @ p), sg_body_hash = (\<lambda>b. [])\<rparr>"

definition toy_loader :: "unit loader_env" where
  "toy_loader = \<lparr>le_specifier_set = (\<lambda>s. None), le_specifier_text = (\<lambda>r. []), le_valid_version = (\<lambda>s. True),
     le_is_prerelease = (\<lambda>s. False), le_contains = (\<lambda>p r v. True), le_schema_error = (\<lambda>d. None)\<rparr>"

definition toy_ids :: call_ids where
  "toy_ids = \<lparr>ci_nonce = ''n'', ci_fresh = ''u'', ci_connection_id = ''stdio''\<rparr>"

definition toy_server :: "(memory_store, int) mcp_server" where
  "toy_server = \<lparr>mc_agent_id = ''a'', mc_private_key = toy_key,
     mc_pipeline = default_pipeline toy_env toy_scheme memory_port, mc_world = toy_world memory_init,
     mc_listener = listener_init\<rparr>"

lemma toy_started:
  "fst (mcp_lifespan toy_env toy_scheme toy_loader memory_port (\<lambda>s. (Inr (), s)) (Inr ()) []
     [(''SOX_NO_DISCOVERY'', ''1'')] ''a'' (toy_key, toy_key) 0 memory_init registry_init) = Inr toy_server"
proof -
  note g1 = build_default_empty [of toy_env toy_scheme memory_port]
  have "toy_verifier = (verifier_init 300)\<lparr>vf_registry := vf_registry toy_verifier\<rparr>"
    by (simp add: toy_verifier_def verifier_init_def)
  then show ?thesis
    by (simp add: mcp_lifespan_def g1 load_plugins_def dget_default_def resolved_order_def cred_register_def
        verifier_init_def toy_key_def toy_server_def toy_world_def Let_def)
qed

theorem mcp_send_stored_witness:
  "fst (mcp_lifespan toy_env toy_scheme toy_loader memory_port (\<lambda>s. (Inr (), s)) (Inr ()) []
     [(''SOX_NO_DISCOVERY'', ''1'')] ''a'' (toy_key, toy_key) 0 memory_init registry_init) = Inr toy_server \<and>
   wd_store (mc_world (snd (channels_send toy_signer toy_ids ''c'' [] None (set_clock 5 toy_server)))) =
     snd (mem_send 5 ''c'' ''a'' [] None None memory_init)"
  using mcp_send_stored [OF toy_started, where sg = toy_signer and ids = toy_ids and t = 5 and es = "[]"
      and step = mem_step and wt = memory_watcher and ch = "''c''" and body = "[]"
      and corr = None, OF _ _ refl _ _ refl] toy_started
  by (simp add: toy_signer_def toy_scheme_def strip_no_space py_isspace_def toy_ids_def nonce_free_def
      toy_server_def toy_world_def memory_port_def ok_call_def)

end
