(* ===== verification/Mcp_Recv.thy ===== *)
theory Mcp_Recv
  imports Mcp_Send
begin

text \<open>
  What \<open>channels__recv\<close> does to the store. The tool answers from the listener's buffer and then
  dispatches \<open>recv\<close> for its checks, which drains the store as well; the messages that call
  returns are dropped. A message the listener has not picked up by then is lost.
\<close>

section \<open>Messages an agent has been handed\<close>

definition handed_over :: "agent \<Rightarrow> int \<Rightarrow> memory_store \<Rightarrow> bool" where
  "handed_over a i s \<longleftrightarrow> mem_inv s \<and> (\<exists>m \<in> set (ms_messages s). mm_id m = i \<and> a \<in> mm_delivered_to m)"

lemma handed_over_kept:
  assumes "handed_over a i s" shows "handed_over a i (snd (mem_step op s))"
proof -
  obtain m where m: "m \<in> set (ms_messages s)" "mm_id m = i" "a \<in> mm_delivered_to m"
    using assms by (auto simp: handed_over_def)
  have "\<exists>m \<in> set (mark_delivered b ids (ms_messages s)). mm_id m = i \<and> a \<in> mm_delivered_to m" for b ids
  proof -
    let ?m = "if mm_id m \<in> ids then m\<lparr>mm_delivered_to := insert b (mm_delivered_to m)\<rparr> else m"
    have "?m \<in> set (mark_delivered b ids (ms_messages s))"
      using m(1) unfolding mark_delivered_def set_map by (rule imageI)
    then show ?thesis using m(2,3) by (intro bexI [of _ ?m]) auto
  qed
  then have "\<exists>m \<in> set (ms_messages (snd (mem_step op s))). mm_id m = i \<and> a \<in> mm_delivered_to m"
    using m by (cases rule: mem_step_cases [of op s]) (auto simp: mem_appended_def mem_keeps_def)
  then show ?thesis using assms mem_step_inv by (simp add: handed_over_def)
qed

lemma handed_over_not_polled:
  assumes "handed_over a i s" and "wt_poll memory_watcher a c s = Inr (ms, c')"
  shows "str_int i \<notin> wire_id ` set ms"
proof -
  obtain m where m: "m \<in> set (ms_messages s)" "mm_id m = i" "a \<in> mm_delivered_to m" "mem_inv s"
    using assms(1) by (auto simp: handed_over_def)
  have "m' = m" if "m' \<in> set (ms_messages s)" "mm_id m' = i" for m'
    using that m mem_id_unique by blast
  then have "i \<notin> mm_id ` set (mem_watch_new a c s)"
    using m(3) by (auto simp: mem_watch_new_def)
  moreover have "wire_id ` set ms = str_int ` mm_id ` set (mem_watch_new a c s)"
    using assms(2) by (auto simp: memory_watcher_def mem_watch_poll_def Let_def image_image)
  ultimately show ?thesis by auto
qed

lemma handed_over_session: "mcp_session memory_port (handed_over a i) memory_watcher ids_upto mem_step"
  by (intro mcp_session.intro memory_port_steps fresh_watch.intro mcp_session_axioms.intro mem_poll_fresh
      handed_over_kept) (simp_all add: handed_over_def)

lemma recv_hands_over:
  assumes "mem_inv s" and "m \<in> set (mem_eligible a chans n s)"
  shows "handed_over a (mm_id m) (snd (mem_recv a chans n s))"
proof -
  have "m \<in> set (ms_messages s)" using assms(2) set_mem_eligible by blast
  then have "m\<lparr>mm_delivered_to := insert a (mm_delivered_to m)\<rparr> \<in> set (ms_messages (snd (mem_recv a chans n s)))"
    using assms(2) by (auto simp: mem_recv_messages mark_delivered_def intro!: image_eqI [of _ _ m])
  then have "\<exists>m' \<in> set (ms_messages (snd (mem_recv a chans n s))). mm_id m' = mm_id m \<and> a \<in> mm_delivered_to m'"
    by (rule bexI [rotated]) simp
  moreover have "mem_inv (snd (mem_recv a chans n s))"
    using mem_step_inv [OF assms(1), of "Recv a chans n"] by (simp add: split_beta)
  ultimately show ?thesis by (simp add: handed_over_def)
qed

section \<open>The store call of \<open>channels__recv\<close>\<close>

lemma recv_chain:
  assumes "server_ready vs sg m" and "strip (mc_agent_id m) \<noteq> []" and "nonce \<noteq> []"
    and "nonce_free nonce (wd_now (mc_world m)) (wd_verifier (mc_world m))"
    and "req = resolve_signed_request sg nonce (wd_now (mc_world m)) (mc_agent_id m) (mc_private_key m) ''recv'' b"
  shows "wd_store (snd (chain_result env vs port (call_ctx fresh ''recv''
      [(''agent_id'', PStr (mc_agent_id m)), (''channels'', opt_strs chs), (''max_messages'', PInt n)] conn
      (Some [(''_connection_credential'', PSigned req)])) (mc_world m))) =
    snd (sp_recv port (mc_agent_id m) chs n (wd_store (mc_world m)))"
proof -
  let ?w = "mc_world m"
  let ?inp = "[(''agent_id'', PStr (mc_agent_id m)), (''channels'', opt_strs chs), (''max_messages'', PInt n)]"
  let ?c = "call_ctx fresh ''recv'' ?inp conn (Some [(''_connection_credential'', PSigned req)])"
  have ok: "acceptable vs (wd_now ?w) req (wd_verifier ?w)"
    using signed_acceptable [OF assms(1,3,4)] assms(5) by simp
  have v: "nonces_ok (wd_verifier ?w)" "registry_ok (vf_registry (wd_verifier ?w))"
    using assms(1) by (simp_all add: server_ready_def verifier_ok_def)
  have cred: "fst (resolve_credential ?c) = Some req" by (simp add: resolve_credential_of credential_of_def)
  have "sr_agent_id req = mc_agent_id m" using assms(5) by simp
  then obtain c' v' where a: "auth_call env vs ?c ?w = CallNext c' (?w\<lparr>wd_verifier := v'\<rparr>) (\<lambda>(r, c, w'). Return r c w')"
    "cx_input c' = ?inp \<or> cx_input c' = dpop ?inp ''signed_request''" "cx_operation c' = ''recv''"
    by (rule_tac auth_other_accepted [OF v, of ?c req vs env])
      (simp_all add: cred ok assms(2) identity_enforced_operations_def)
  then have inp: "cx_input c' = ?inp" by auto
  have "get_str_list env (opt_strs chs) = chs"
    by (cases chs) (simp_all add: opt_strs_def get_str_list_def comp_def)
  then show ?thesis
    by (simp add: chain_result_def a store_dispatch_call_def store_call_def op_recv_def inp a(3) resolve_agent_id_def
        dget_default_def int_or_def with_arg_def respond_def split_beta Let_def)
qed

lemma channels_recv_store:
  assumes "server_ready vs sg m" and "mc_pipeline m = default_pipeline env vs port"
    and "strip (mc_agent_id m) \<noteq> []" and "ci_nonce ids \<noteq> []"
    and "nonce_free (ci_nonce ids) (wd_now (mc_world m)) (wd_verifier (mc_world m))"
  shows "wd_store (mc_world (snd (channels_recv sg ids chs n meta m))) =
    snd (sp_recv port (mc_agent_id m) chs n (wd_store (mc_world m)))"
proof -
  let ?m = "m\<lparr>mc_listener := snd (take_buffered chs n (mc_listener m))\<rparr>"
  have "server_ready vs sg ?m" using assms(1) by (simp add: server_ready_def)
  from recv_chain [OF this _ assms(4) _ refl, of env port "ci_fresh ids" chs n "ci_connection_id ids" None] assms
  show ?thesis
    by (simp add: channels_recv_def dispatch_signed_def dispatch_default_world split_beta Let_def)
qed

lemma lifespan_store:
  assumes "fst (mcp_lifespan env vs lenv memory_port (\<lambda>s. (Inr (), s)) schemas discovered environ a keys now memory_init g) = Inr m"
  shows "mem_inv (wd_store (mc_world m)) \<and> mc_listener m = listener_init"
  using assms mem_inv_init
  by (auto simp: mcp_lifespan_def Let_def bind_res_eq_Inr split: sum.splits prod.splits)

text \<open>
  C27. A message can be lost in \<open>channels__recv\<close>: on a started server, a message that waits in the
  store for the agent and that the listener has not buffered yet when the tool is called is not
  returned by this call nor by any later one, whatever happens afterwards: the tool's own \<open>recv\<close> took it
  and dropped it. This is about the in-memory store and a message eligible for the channels and
  the bound of the call.
\<close>

theorem mcp_recv_discards:
  assumes "fst (mcp_lifespan env vs lenv memory_port (\<lambda>s. (Inr (), s)) schemas [] environ a keys now memory_init
      registry_init) = Inr m"
    and "\<And>p. vs (snd keys) p (sg_sign sg (fst keys) p)" and "strip a \<noteq> []"
    and "m' = snd (run_mcp sg environ mem_step memory_watcher es m)"
    and "ci_nonce ids \<noteq> []" and "nonce_free (ci_nonce ids) t (wd_verifier (mc_world m'))"
    and "waiting \<in> set (mem_eligible a chs n (wd_store (mc_world m')))"
    and "str_int (mm_id waiting) \<notin> wire_id ` set (ls_queue (mc_listener m'))"
  shows "str_int (mm_id waiting) \<notin> set (fst (run_mcp sg environ mem_step memory_watcher
    ((t, RecvCall ids chs n meta) # later) m'))"
proof -
  have start: "mc_pipeline m = default_pipeline env vs memory_port" "mc_agent_id m = a" "server_ready vs sg m"
    using lifespan_started [OF assms(1,2)] by simp_all
  have fresh: "mem_inv (wd_store (mc_world m))" "mc_listener m = listener_init"
    using assms(1) by (simp_all add: lifespan_store)
  from run_ready [OF start(1,3), of environ mem_step memory_watcher es]
  have m': "mc_pipeline m' = default_pipeline env vs memory_port" "mc_agent_id m' = a" "server_ready vs sg m'"
    using start(2) assms(4) by simp_all
  have inv: "mem_inv (wd_store (mc_world m'))"
    using mcp_mem.run_ok [OF start(1) fresh(1), of "[]" sg environ es] assms(4)
    by (simp add: fresh(2) buffer_ok_init)
  let ?m = "set_clock t m'" and ?x = "str_int (mm_id waiting)"
  let ?r = "channels_recv sg ids chs n meta (set_clock t m')"
  have "wd_store (mc_world (snd ?r)) = snd (mem_recv a chs n (wd_store (mc_world m')))"
    using channels_recv_store [of vs sg ?m env memory_port ids chs n meta] m' assms(3,5,6)
    by (simp add: memory_port_def ok_call_def)
  then have "handed_over a (mm_id waiting) (wd_store (mc_world (snd ?r)))"
    using recv_hands_over [OF inv assms(7)] by simp
  moreover have x: "?x \<notin> wire_id ` set (fst (take_buffered chs n (mc_listener m')))"
    "?x \<notin> wire_id ` set (ls_queue (snd (take_buffered chs n (mc_listener m'))))"
    using assms(8) arg_cong [OF take_buffered_mset [of chs n "mc_listener m'"], of set_mset] by auto
  ultimately have "?x \<notin> set (fst (run_mcp sg environ mem_step memory_watcher later (snd ?r)))"
    using handed_over_not_polled m'(1,2)
    by (intro mcp_session.run_never [OF handed_over_session]) (simp_all add: channels_recv_parts)
  moreover have "?x \<notin> set (map wire_id (snd (fst ?r)))"
    using x(1) unfolding channels_recv_parts(1) by simp
  ultimately show ?thesis by (simp add: split_beta del: set_map)
qed

text \<open>Another agent sends to a channel the agent is subscribed to, then the tool is called.\<close>

definition one_message_store :: memory_store where
  "one_message_store = snd (mem_step (Send 1 ''c'' ''b'' [] None None) (snd (mem_step (Subscribe ''a'' ''c'') memory_init)))"

lemma one_message_eligible:
  "map mm_id (mem_eligible ''a'' None 50 one_message_store) = [1]"
  by code_simp

lemma one_message_run:
  "wd_store (mc_world (snd (run_mcp toy_signer [(''SOX_NO_DISCOVERY'', ''1'')] mem_step memory_watcher
     [(0, OtherAgents (Subscribe ''a'' ''c'')), (1, OtherAgents (Send 1 ''c'' ''b'' [] None None))] toy_server))) =
   one_message_store"
  by (simp add: one_message_store_def toy_server_def toy_world_def)

definition two_calls :: "(time \<times> mcp_event) list" where
  "two_calls = [(0, OtherAgents (Subscribe ''a'' ''c'')), (1, OtherAgents (Send 1 ''c'' ''b'' [] None None))]"

theorem mcp_recv_discards_witness:
  "map mm_id (mem_eligible ''a'' None 50 one_message_store) = [1] \<and>
   ''1'' \<notin> set (fst (run_mcp toy_signer [(''SOX_NO_DISCOVERY'', ''1'')] mem_step memory_watcher
     [(2, RecvCall toy_ids None 50 True), (3, ListenerRuns), (4, ListenerRuns), (5, RecvCall toy_ids None 50 True)]
     (snd (run_mcp toy_signer [(''SOX_NO_DISCOVERY'', ''1'')] mem_step memory_watcher two_calls toy_server))))"
proof -
  let ?m' = "snd (run_mcp toy_signer [(''SOX_NO_DISCOVERY'', ''1'')] mem_step memory_watcher two_calls toy_server)"
  obtain w where w: "mem_eligible ''a'' None 50 one_message_store = [w]" "mm_id w = 1"
    using one_message_eligible by auto
  have m': "wd_store (mc_world ?m') = one_message_store" "ls_queue (mc_listener ?m') = []"
    "vf_seen_nonces (wd_verifier (mc_world ?m')) = []"
    using one_message_run by (simp_all add: two_calls_def toy_server_def toy_world_def listener_init_def)
  have "\<And>p. toy_scheme (snd (toy_key, toy_key)) p (sg_sign toy_signer (fst (toy_key, toy_key)) p)"
    by (simp add: toy_scheme_def toy_signer_def)
  from mcp_recv_discards [OF toy_started this _ refl, of toy_ids 2 two_calls w None 50 True]
  have "str_int 1 \<notin> set (fst (run_mcp toy_signer [(''SOX_NO_DISCOVERY'', ''1'')] mem_step memory_watcher
     [(2, RecvCall toy_ids None 50 True), (3, ListenerRuns), (4, ListenerRuns), (5, RecvCall toy_ids None 50 True)] ?m'))"
    using m' w by (simp add: strip_no_space py_isspace_def toy_ids_def nonce_free_def del: run_mcp.simps)
  moreover have "str_int 1 = ''1''" by code_simp
  ultimately show ?thesis using one_message_eligible by (simp only: simp_thms)
qed

end
