(* ===== verification/Http_Parts.thy ===== *)
theory Http_Parts
  imports Mcp_Server
begin

text \<open>
  The parts of the HTTP transport around its routes (adapters/transports/http/): the bearer
  token, the error responses, configuration, CORS, the deprecated liveness table and the event
  stream. Header names are held in lower case, as the framework looks them up. A response is
  its status and its JSON content, held decoded.
\<close>

section \<open>Requests and responses\<close>

text \<open>\<open>rq_json\<close> is what \<open>await request.json()\<close> gives, \<open>None\<close> when it raises.\<close>

record http_request =
  rq_headers :: "(string \<times> string) list"
  rq_json :: "pyval option"
  rq_client_host :: "string option"

record http_response =
  rs_status :: int
  rs_content :: pydict

section \<open>The bearer token (auth.py)\<close>

definition extract_bearer_token :: "http_request \<Rightarrow> string option" where
  "extract_bearer_token request =
     (let auth = dget_default (rq_headers request) ''authorization'' []
      in if starts_with (lower auth) ''bearer ''
         then (let token = strip (drop 7 auth) in if token \<noteq> [] then Some token else None)
         else (let agent_id_header = strip (dget_default (rq_headers request) ''x-sox-agent-id'' [])
               in if agent_id_header \<noteq> [] then Some agent_id_header else None))"

section \<open>Error responses (errors.py)\<close>

definition sox_error_response ::
  "string \<Rightarrow> string \<Rightarrow> int \<Rightarrow> pyval \<Rightarrow> int option \<Rightarrow> http_response"
where
  "sox_error_response error_code message status_code detail retry_after =
     \<lparr>rs_status = status_code,
      rs_content = [(''error_code'', PStr error_code), (''message'', PStr message), (''detail'', detail),
        (''retry_after'', opt_int retry_after)]\<rparr>"

definition validation_error_response :: "string \<Rightarrow> http_response" where
  "validation_error_response message = sox_error_response ''validation_error'' message 400 PNone None"

definition internal_error_response :: "string \<Rightarrow> http_response" where
  "internal_error_response message = sox_error_response ''internal_error'' message 500 PNone None"

section \<open>Configuration and CORS (config.py, cors.py)\<close>

definition parse_origins :: "string \<Rightarrow> string list" where
  "parse_origins raw = filter (\<lambda>s. s \<noteq> []) (map strip (split_on (CHR '','') raw))"

record http_config =
  hc_host :: string
  hc_port :: int
  hc_cors_origins :: "string list"
  hc_buffer_limit :: int
  hc_reconnect_max_s :: int

definition http_config_from_env :: "(string \<times> string) list \<Rightarrow> http_config result" where
  "http_config_from_env environ =
     bind_res (parse_int (dget_default environ ''SOX_HTTP_PORT'' ''8765'')) (\<lambda>port.
     bind_res (parse_int (dget_default environ ''SOX_HTTP_BUFFER_LIMIT'' ''1000'')) (\<lambda>limit.
     bind_res (parse_int (dget_default environ ''SOX_HTTP_RECONNECT_MAX_S'' ''30'')) (\<lambda>reconnect.
       Inr \<lparr>hc_host = dget_default environ ''SOX_HTTP_HOST'' ''127.0.0.1'', hc_port = port,
         hc_cors_origins = parse_origins (dget_default environ ''SOX_HTTP_CORS_ORIGINS''
           ''http://localhost,http://127.0.0.1''),
         hc_buffer_limit = limit, hc_reconnect_max_s = reconnect\<rparr>)))"

record cors_options =
  co_allow_origins :: "string list"
  co_allow_credentials :: bool
  co_allow_methods :: "string list"
  co_allow_headers :: "string list"
  co_expose_headers :: "string list"

definition build_cors_middleware :: "string list \<Rightarrow> cors_options" where
  "build_cors_middleware origins =
     (let safe = filter (\<lambda>o_r. o_r \<noteq> ''*'') origins;
          safe_origins = (if safe = [] then [''http://localhost'', ''http://127.0.0.1''] else safe)
      in \<lparr>co_allow_origins = safe_origins, co_allow_credentials = True, co_allow_methods = [''*''],
          co_allow_headers = [''*''], co_expose_headers = [''X-SOX-Seq'', ''Last-Event-ID'']\<rparr>)"

section \<open>The deprecated liveness table (liveness.py)\<close>

record agent_record =
  ar_last_heartbeat_at_ns :: int
  ar_reported_status :: string
  ar_namespace :: "string option"

type_synonym liveness_table = "(agent \<times> agent_record) list"

definition new_agent_record :: "string option \<Rightarrow> agent_record" where
  "new_agent_record ns =
     \<lparr>ar_last_heartbeat_at_ns = 0, ar_reported_status = ''online'', ar_namespace = ns\<rparr>"

definition record_heartbeat ::
  "int \<Rightarrow> agent \<Rightarrow> string \<Rightarrow> string option \<Rightarrow> liveness_table \<Rightarrow> liveness_table"
where
  "record_heartbeat now_ns a status ns t =
     (let r = dget_default t a (new_agent_record ns)
      in dset t a (r\<lparr>ar_last_heartbeat_at_ns := now_ns, ar_reported_status := status,
           ar_namespace := (if ns \<noteq> None then ns else ar_namespace r)\<rparr>))"

definition ensure_agent :: "agent \<Rightarrow> string option \<Rightarrow> liveness_table \<Rightarrow> liveness_table" where
  "ensure_agent a ns t = (if has_key t a then t else dset t a (new_agent_record ns))"

definition derive_state :: "int \<Rightarrow> agent_record \<Rightarrow> string" where
  "derive_state now_ns r =
     (if ar_last_heartbeat_at_ns r = 0 then ''offline''
      else if ar_reported_status r = ''offline'' then ''offline''
      else let age_s = real_of_int (now_ns - ar_last_heartbeat_at_ns r) / 1000000000
           in if age_s \<ge> 90 then ''offline''
              else if age_s \<ge> 30 then ''stale''
              else if ar_reported_status r = ''busy'' then ''busy''
              else ''online'')"

definition liveness_list_agents ::
  "int \<Rightarrow> string list option \<Rightarrow> string option \<Rightarrow> liveness_table \<Rightarrow> pydict list"
where
  "liveness_list_agents now_ns status_filter ns t =
     map (\<lambda>(a, r). [(''agent_id'', PStr a), (''presence_state'', PStr (derive_state now_ns r)),
           (''last_heartbeat_at'', PInt (ar_last_heartbeat_at_ns r)), (''namespace'', opt_str (ar_namespace r))])
       (filter (\<lambda>(a, r). (case status_filter of None \<Rightarrow> True | Some f \<Rightarrow> derive_state now_ns r \<in> set f) \<and>
          (ns = None \<or> ar_namespace r = ns)) t)"

section \<open>The event stream (sse.py)\<close>

text \<open>\<open>dumps\<close> is \<open>json.dumps\<close>.\<close>

definition format_sse_event :: "(pyval \<Rightarrow> string) \<Rightarrow> pyval \<Rightarrow> string \<Rightarrow> string option \<Rightarrow> string" where
  "format_sse_event dumps data event event_id =
     join [newline] ((case event_id of None \<Rightarrow> [] | Some i \<Rightarrow> [''id: '' @ i]) @
       [''event: '' @ event, ''data: '' @ dumps data, [], []])"

text \<open>
  One round of the generator: whether the client has disconnected, and what waiting on the
  queue gave: a message, nothing within the keep-alive interval, or the sentinel that the
  \<open>watch\<close> of the store has ended.
\<close>

datatype sse_wait = SseMessage pydict | SseTimeout | SseEnd

fun sse_event_generator ::
  "(pyval \<Rightarrow> string) \<Rightarrow> (pyval \<Rightarrow> string) \<Rightarrow> (bool \<times> sse_wait) list \<Rightarrow> string list"
where
  "sse_event_generator dumps repr [] = []"
| "sse_event_generator dumps repr ((disconnected, got) # rounds) =
     (if disconnected then []
      else case got of
        SseTimeout \<Rightarrow> ('': keepalive'' @ [newline, newline]) # sse_event_generator dumps repr rounds
      | SseEnd \<Rightarrow> []
      | SseMessage msg \<Rightarrow>
          (let seq = dget_default msg ''seq'' PNone
           in format_sse_event dumps (PDict msg) ''message''
                (if seq = PNone then None else Some (py_str repr seq))
              # sse_event_generator dumps repr rounds))"

text \<open>The endpoint: the agent whose messages are streamed, or the refusal.\<close>

definition sse_endpoint :: "http_request \<Rightarrow> http_response + agent" where
  "sse_endpoint request =
     (case extract_bearer_token request of
        None \<Rightarrow> Inl (sox_error_response ''missing_credential''
                  ''Authorization: Bearer <token> header required'' 401 PNone None)
      | Some token \<Rightarrow> Inr token)"

section \<open>The health probe (health.py)\<close>

definition health_check :: "time \<Rightarrow> time \<Rightarrow> http_response" where
  "health_check start now = \<lparr>rs_status = 200,
     rs_content = [(''status'', PStr ''ok''), (''protocol_version'', PStr ''1.0''), (''store_ok'', PBool True),
       (''uptime_s'', PFloat (real_of_int (round_half_even ((now - start) * 1000)) / 1000))]\<rparr>"

end
