(* ===== verification/Http_Routes.thy ===== *)
theory Http_Routes
  imports Http_Parts
begin

text \<open>
  The operation routes of the HTTP transport (routes.py), its credentials (_credential.py) and
  the application factory (server.py). The registry the routes write to is the one the verifier
  of the pipeline reads, as \<open>create_app\<close> builds them. A handler returns its response, or the
  exception that reaches the framework.
\<close>

section \<open>The application\<close>

text \<open>\<open>ap_public_key\<close> is the public key of \<open>ap_private_key\<close>.\<close>

record 'st http_app =
  ap_pipeline :: "'st world pipeline"
  ap_private_key :: bytes
  ap_public_key :: bytes
  ap_auto_register :: bool
  ap_world :: "'st world"

type_synonym 'st handler = "call_ids \<Rightarrow> http_request \<Rightarrow> 'st http_app \<Rightarrow> http_response result \<times> 'st http_app"

text \<open>\<open>^(?:dm/|group/).*\\*\<close>.\<close>

definition wildcard_forbidden :: "string \<Rightarrow> bool" where
  "wildcard_forbidden pattern \<longleftrightarrow>
     (\<exists>prefix \<in> {''dm/'', ''group/''}. starts_with pattern prefix \<and>
        CHR ''*'' \<in> set (takeWhile (\<lambda>c. c \<noteq> newline) (drop (length prefix) pattern)))"

section \<open>Dispatch (_dispatch)\<close>

definition status_of_error :: "string \<Rightarrow> int" where
  "status_of_error code =
     dget_default [(''identity_failure'', 401), (''missing_credential'', 401), (''invalid_credential'', 401),
       (''unknown_agent'', 401), (''validation_error'', 400), (''validation_failed'', 400),
       (''plugin_capability_conflict'', 400), (''plugin_ordering_cycle'', 500),
       (''plugin_protocol_version_mismatch'', 500), (''internal_error'', 500)] code 400"

definition response_of :: "py_env \<Rightarrow> pydict \<Rightarrow> http_response" where
  "response_of env result =
     (case dget result ''error_code'' of
        Some code \<Rightarrow> \<lparr>rs_status = status_of_error (py_str (pe_repr env) code), rs_content = result\<rparr>
      | None \<Rightarrow> \<lparr>rs_status = 200, rs_content = result\<rparr>)"

text \<open>
  The registration of an unknown token, then the signed dispatch. \<open>resolve_credential\<close> is the
  function of the MCP server under another module name; \<open>dispatch\<close> itself never raises.
\<close>

definition http_register :: "string \<Rightarrow> 'st http_app \<Rightarrow> unit result \<times> 'st http_app" where
  "http_register token app =
     (let w = ap_world app; v = wd_verifier w
      in if ap_auto_register app \<and> cred_lookup token (vf_registry v) = None
         then (case cred_register (wd_now w) token (ap_public_key app) (vf_registry v) of
                 (Inl e, regs) \<Rightarrow> (Inl e, app)
               | (Inr _, regs) \<Rightarrow>
                   (Inr (), app\<lparr>ap_world := w\<lparr>wd_verifier := v\<lparr>vf_registry := regs\<rparr>\<rparr>\<rparr>))
         else (Inr (), app))"

definition http_dispatch ::
  "py_env \<Rightarrow> signer \<Rightarrow> call_ids \<Rightarrow> string \<Rightarrow> pydict \<Rightarrow> string \<Rightarrow> string \<Rightarrow> 'st http_app \<Rightarrow>
     http_response result \<times> 'st http_app"
where
  "http_dispatch env sg ids operation body token connection_id app =
     (case http_register token app of
        (Inl e, app1) \<Rightarrow> (Inl e, app1)
      | (Inr _, app1) \<Rightarrow>
          (let credential = resolve_signed_request sg (ci_nonce ids) (wd_now (ap_world app1)) token
                 (ap_private_key app1) operation (Some body);
               (result, trace, w) = dispatch (ap_pipeline app1) (ci_fresh ids) operation body connection_id
                 (Some [(''_connection_credential'', PSigned credential), (''_agent_id'', PStr token)])
                 (ap_world app1)
           in (Inr (response_of env result), app1\<lparr>ap_world := w\<rparr>)))"

section \<open>Handlers\<close>

definition connection_id_of :: "http_request \<Rightarrow> string" where
  "connection_id_of request =
     (case rq_client_host request of
        Some host \<Rightarrow> if host \<noteq> [] then host else ''unknown'' | None \<Rightarrow> ''unknown'')"

text \<open>\<open>await request.json()\<close>, \<open>{}\<close> for anything that is not an object.\<close>

definition body_of :: "http_request \<Rightarrow> pydict" where
  "body_of request = (case rq_json request of Some (PDict d) \<Rightarrow> d | _ \<Rightarrow> [])"

definition missing_credential :: http_response where
  "missing_credential = sox_error_response ''missing_credential''
     ''Authorization: Bearer <token> header required'' 401 PNone None"

text \<open>\<open>_require_token\<close>, and what every handler does with its answer.\<close>

definition with_token ::
  "(string \<Rightarrow> 'st http_app \<Rightarrow> http_response result \<times> 'st http_app) \<Rightarrow> http_request \<Rightarrow> 'st http_app \<Rightarrow>
     http_response result \<times> 'st http_app"
where
  "with_token f request app =
     (case extract_bearer_token request of None \<Rightarrow> (Inr missing_credential, app) | Some token \<Rightarrow> f token app)"

definition after ::
  "(http_response \<Rightarrow> http_response) \<Rightarrow> http_response result \<times> 'st http_app \<Rightarrow> http_response result \<times> 'st http_app"
where
  "after f r = (case fst r of Inl e \<Rightarrow> Inl e | Inr resp \<Rightarrow> Inr (f resp), snd r)"

text \<open>One dispatch of the body; the handlers that do no more than that.\<close>

definition op_plain :: "py_env \<Rightarrow> signer \<Rightarrow> string \<Rightarrow> 'st handler" where
  "op_plain env sg operation ids request =
     with_token (\<lambda>token. http_dispatch env sg ids operation (body_of request) token (connection_id_of request))
       request"

definition http_op_recv :: "py_env \<Rightarrow> signer \<Rightarrow> 'st handler" where
  "http_op_recv env sg = op_plain env sg ''recv''"

definition http_op_channels_ack :: "py_env \<Rightarrow> signer \<Rightarrow> 'st handler" where
  "http_op_channels_ack env sg = op_plain env sg ''channels_ack''"

definition http_op_channels_heartbeat :: "py_env \<Rightarrow> signer \<Rightarrow> 'st handler" where
  "http_op_channels_heartbeat env sg = op_plain env sg ''channels_heartbeat''"

definition http_op_replay :: "py_env \<Rightarrow> signer \<Rightarrow> 'st handler" where
  "http_op_replay env sg = op_plain env sg ''replay''"

definition http_op_list_agents :: "py_env \<Rightarrow> signer \<Rightarrow> 'st handler" where
  "http_op_list_agents env sg = op_plain env sg ''list_agents''"

definition http_op_group_create :: "py_env \<Rightarrow> signer \<Rightarrow> 'st handler" where
  "http_op_group_create env sg = op_plain env sg ''group_create''"

definition http_op_group_join :: "py_env \<Rightarrow> signer \<Rightarrow> 'st handler" where
  "http_op_group_join env sg = op_plain env sg ''group_join''"

definition http_op_group_leave :: "py_env \<Rightarrow> signer \<Rightarrow> 'st handler" where
  "http_op_group_leave env sg = op_plain env sg ''group_leave''"

definition http_op_group_list_members :: "py_env \<Rightarrow> signer \<Rightarrow> 'st handler" where
  "http_op_group_list_members env sg = op_plain env sg ''group_list_members''"

text \<open>\<open>a >= b\<close> on numbers of a response.\<close>

fun num_value :: "pyval \<Rightarrow> real" where
  "num_value (PInt i) = of_int i"
| "num_value (PFloat x) = x"
| "num_value (PBool b) = (if b then 1 else 0)"
| "num_value v = 0"

definition over_limit_state :: "pyval \<Rightarrow> bool" where
  "over_limit_state bp =
     (case bp of
        PDict d \<Rightarrow>
          (let depth = dget_default d ''queue_depth'' PNone; threshold = dget_default d ''threshold'' PNone
           in dget d ''state'' = Some (PStr ''over_limit'') \<or>
              is_num depth \<and> is_num threshold \<and> num_value depth \<ge> num_value threshold)
      | _ \<Rightarrow> False)"

definition over_limit_response :: "py_env \<Rightarrow> pydict \<Rightarrow> pydict \<Rightarrow> http_response" where
  "over_limit_response env body bp =
     (let get = (\<lambda>k. dget_default bp k PNone); text = py_str (pe_repr env)
      in sox_error_response ''backpressure_over_limit''
           (''Send rejected: channel '' @ [CHR 0x27] @ text (dget_default body ''channel'' (PStr [])) @ [CHR 0x27] @
            '' queue depth '' @ text (get ''queue_depth'') @ '' is at or above threshold '' @
            text (get ''threshold'') @ ''.'')
           429
           (PDict [(''queue_depth'', get ''queue_depth''), (''threshold'', get ''threshold''),
              (''mode'', dget_default bp ''mode'' (PStr ''enforced''))])
           None)"

definition send_response :: "py_env \<Rightarrow> pydict \<Rightarrow> http_response \<Rightarrow> http_response" where
  "send_response env body resp =
     (if rs_status resp = 200
      then (let content = dpop (rs_content resp) ''channel'';
                bp = dget_default content ''backpressure'' (PDict [])
            in if over_limit_state bp then over_limit_response env body (as_dict bp)
               else \<lparr>rs_status = 200, rs_content = content\<rparr>)
      else resp)"

definition http_op_send :: "py_env \<Rightarrow> signer \<Rightarrow> 'st handler" where
  "http_op_send env sg ids request app =
     after (send_response env (body_of request)) (op_plain env sg ''send'' ids request app)"

definition wildcard_response :: "string \<Rightarrow> http_response" where
  "wildcard_response pattern = sox_error_response ''validation_error''
     (''Wildcard subscriptions on reserved prefixes are forbidden. Pattern '' @ [CHR 0x27] @ pattern @ [CHR 0x27] @
      '' matches dm/* or group/* wildcard restriction.'') 400
     (PDict [(''violations'', PList [PDict [(''field'', PStr ''pattern''), (''issue'',
        PStr (''Wildcard subscriptions on the dm/ or group/ prefix are forbidden. '' @
              ''Use an exact channel name instead.''))]])]) None"

definition subscribe_response :: "http_response \<Rightarrow> http_response" where
  "subscribe_response resp =
     (if rs_status resp = 200
      then case dget (rs_content resp) ''matched_channels'' of
             Some (PList chs) \<Rightarrow> \<lparr>rs_status = 200, rs_content = [(''subscribed'', PList chs)]\<rparr>
           | _ \<Rightarrow> resp
      else resp)"

definition http_op_subscribe :: "py_env \<Rightarrow> signer \<Rightarrow> 'st handler" where
  "http_op_subscribe env sg ids request app =
     (if extract_bearer_token request = None then (Inr missing_credential, app)
      else let pattern = py_str (pe_repr env) (dget_default (body_of request) ''pattern'' (PStr []))
           in if wildcard_forbidden pattern then (Inr (wildcard_response pattern), app)
              else after subscribe_response (op_plain env sg ''subscribe'' ids request app))"

definition unsubscribe_response :: "http_response \<Rightarrow> http_response" where
  "unsubscribe_response resp =
     (if rs_status resp = 200 \<and> has_key (rs_content resp) ''removed'' \<and>
         \<not> has_key (rs_content resp) ''unsubscribed''
      then \<lparr>rs_status = 200, rs_content = dset (dpop (rs_content resp) ''removed'') ''unsubscribed''
              (dget_default (rs_content resp) ''removed'' PNone)\<rparr>
      else resp)"

definition http_op_unsubscribe :: "py_env \<Rightarrow> signer \<Rightarrow> 'st handler" where
  "http_op_unsubscribe env sg ids request app =
     after unsubscribe_response (op_plain env sg ''unsubscribe'' ids request app)"

definition list_channels_response :: "http_response \<Rightarrow> http_response" where
  "list_channels_response resp =
     (if rs_status resp = 200 \<and> \<not> has_key (rs_content resp) ''_sox_protocol''
      then \<lparr>rs_status = 200, rs_content = dset (rs_content resp) ''_sox_protocol'' sox_protocol_block\<rparr>
      else resp)"

definition http_op_list_channels :: "py_env \<Rightarrow> signer \<Rightarrow> 'st handler" where
  "http_op_list_channels env sg ids request app =
     after list_channels_response (op_plain env sg ''list_channels'' ids request app)"

definition invite_response :: "py_env \<Rightarrow> http_response \<Rightarrow> http_response" where
  "invite_response env resp =
     (if rs_status resp \<in> {200, 500} \<and> dget (rs_content resp) ''error_code'' = Some (PStr ''internal_error'')
      then sox_error_response ''GROUP_MEMBERSHIP_REQUIRED''
             (case dget_default (rs_content resp) ''message'' (PStr ''Group membership required'') of
                PStr msg \<Rightarrow> msg | v \<Rightarrow> py_str (pe_repr env) v) 403 PNone None
      else resp)"

definition http_op_group_invite :: "py_env \<Rightarrow> signer \<Rightarrow> 'st handler" where
  "http_op_group_invite env sg ids request app =
     after (invite_response env) (op_plain env sg ''group_invite'' ids request app)"

section \<open>channels_collect\<close>

text \<open>
  The poll loop. Each test of its condition reads the clock; while it sleeps other requests run.
  \<open>clock\<close>, \<open>ids\<close> and \<open>others\<close> give, for the rounds counted from \<open>i\<close>, the clock value of the
  test, the identifiers of its dispatch and what happens to the application meanwhile.
\<close>

definition is_reply :: "string \<Rightarrow> bool \<Rightarrow> pydict \<Rightarrow> bool" where
  "is_reply reply_to no_filter m =
     (let r = dget_default m ''reply_to'' PNone
      in (if truthy r then r else dget_default m ''correlation_id'' PNone) = PStr reply_to \<and> no_filter)"

definition response_messages :: "http_response \<Rightarrow> pydict list" where
  "response_messages resp = map as_dict (as_list (dget_default (rs_content resp) ''messages'' (PList [])))"

fun collect_loop ::
  "nat \<Rightarrow> (call_ids \<Rightarrow> int \<Rightarrow> 'st http_app \<Rightarrow> http_response result \<times> 'st http_app) \<Rightarrow> (nat \<Rightarrow> time) \<Rightarrow>
     (nat \<Rightarrow> call_ids) \<Rightarrow> (nat \<Rightarrow> 'st http_app \<Rightarrow> 'st http_app) \<Rightarrow> string \<Rightarrow> bool \<Rightarrow> int \<Rightarrow> time \<Rightarrow> nat \<Rightarrow>
     pydict list \<Rightarrow> 'st http_app \<Rightarrow> ((http_response + pydict list) result \<times> 'st http_app) option"
where
  "collect_loop 0 recv clock ids others reply_to no_filter n deadline i collected app = None"
| "collect_loop (Suc fuel) recv clock ids others reply_to no_filter n deadline i collected app =
     (if int (length collected) < n \<and> clock i < deadline
      then case recv (ids i) (n - int (length collected)) app of
             (Inl e, app1) \<Rightarrow> Some (Inl e, app1)
           | (Inr resp, app1) \<Rightarrow>
               if rs_status resp \<noteq> 200 then Some (Inr (Inl resp), app1)
               else collect_loop fuel recv clock ids others reply_to no_filter n deadline (Suc i)
                      (collected @ filter (is_reply reply_to no_filter) (response_messages resp)) (others i app1)
      else Some (Inr (Inr collected), app))"

definition collected_response :: "int \<Rightarrow> pydict list \<Rightarrow> http_response" where
  "collected_response n collected = \<lparr>rs_status = 200,
     rs_content = [(''messages'', PList (map PDict collected)),
       (''timed_out'', PBool (int (length collected) < n))]\<rparr>"

text \<open>\<open>float(v)\<close>; \<open>pe_float\<close> reads a string.\<close>

definition to_float :: "py_env \<Rightarrow> pyval \<Rightarrow> time result" where
  "to_float env v = (case v of PStr s \<Rightarrow> pe_float env s
     | _ \<Rightarrow> if is_num v then Inr (num_value v) else Inl (TypeError ''float() argument''))"

text \<open>The answer of an exception carries its text, which is left out.\<close>

definition collect_poll ::
  "nat \<Rightarrow> py_env \<Rightarrow> signer \<Rightarrow> (nat \<Rightarrow> time) \<Rightarrow> (nat \<Rightarrow> call_ids) \<Rightarrow> (nat \<Rightarrow> 'st http_app \<Rightarrow> 'st http_app) \<Rightarrow>
     pydict \<Rightarrow> string \<Rightarrow> string \<Rightarrow> int \<Rightarrow> time \<Rightarrow> 'st http_app \<Rightarrow> (http_response result \<times> 'st http_app) option"
where
  "collect_poll fuel env sg clock ids others body token connection_id n timeout app =
     map_option
       (\<lambda>(r, app'). (case r of
            Inl e \<Rightarrow> Inr (internal_error_response [])
          | Inr (Inl resp) \<Rightarrow> Inr resp
          | Inr (Inr collected) \<Rightarrow> Inr (collected_response n collected), app'))
       (collect_loop fuel
          (\<lambda>cids k. http_dispatch env sg cids ''recv'' [(''max_messages'', PInt k)] token connection_id)
          clock ids others (py_str (pe_repr env) (dget_default body ''reply_to'' (PStr [])))
          (\<not> is_list (dget_default body ''status_filter'' PNone)) n (wd_now (ap_world app) + timeout) 0 [] app)"

definition http_op_channels_collect ::
  "nat \<Rightarrow> py_env \<Rightarrow> signer \<Rightarrow> (nat \<Rightarrow> time) \<Rightarrow> (nat \<Rightarrow> call_ids) \<Rightarrow> (nat \<Rightarrow> 'st http_app \<Rightarrow> 'st http_app) \<Rightarrow>
     call_ids \<Rightarrow> http_request \<Rightarrow> 'st http_app \<Rightarrow> (http_response result \<times> 'st http_app) option"
where
  "http_op_channels_collect fuel env sg clock ids others cids request app =
     (case extract_bearer_token request of
        None \<Rightarrow> Some (Inr missing_credential, app)
      | Some token \<Rightarrow>
          (let body = body_of request; connection_id = connection_id_of request
           in case http_dispatch env sg cids ''channels_collect'' body token connection_id app of
                (Inl e, app1) \<Rightarrow> Some (Inl e, app1)
              | (Inr sentinel, app1) \<Rightarrow>
                  if rs_status sentinel \<noteq> 200 then Some (Inr sentinel, app1)
                  else case py_int (dget_default body ''count'' (PInt 0)) of
                         Inl e \<Rightarrow> Some (Inl e, app1)
                       | Inr n \<Rightarrow>
                           (case to_float env (dget_default body ''timeout'' (PInt 0)) of
                              Inl e \<Rightarrow> Some (Inl e, app1)
                            | Inr timeout \<Rightarrow>
                                collect_poll fuel env sg clock ids others body token connection_id n timeout app1)))"

section \<open>The application factory (server.py)\<close>

text \<open>
  \<open>create_app\<close> with its own identity stack. \<open>keys\<close> is the generated key pair, \<open>discovered\<close> the
  entry points of the installation, \<open>g\<close> the registry of the process, into which plugins are loaded;
  the default chain is assembled in a registry of its own.
\<close>

definition resolved_env :: "(string \<times> string) list \<Rightarrow> string \<Rightarrow> string" where
  "resolved_env environ env = (if env \<noteq> ''dev'' then env else dget_default environ ''SOX_ENV'' ''dev'')"

definition resolved_allowlist :: "(string \<times> string) list \<Rightarrow> string list option \<Rightarrow> string list option" where
  "resolved_allowlist environ allowlist =
     (case allowlist of Some al \<Rightarrow> Some al | None \<Rightarrow> plugin_allowlist environ)"

definition pre_registered :: "(string \<times> string) list \<Rightarrow> agent list option" where
  "pre_registered environ =
     (case dget environ ''SOX_PRE_REGISTERED_AGENTS'' of
        None \<Rightarrow> None
      | Some raw \<Rightarrow> Some (filter (\<lambda>s. s \<noteq> []) (map strip (split_on (CHR '','') (strip raw)))))"

definition register_all :: "time \<Rightarrow> bytes \<Rightarrow> agent list \<Rightarrow> registry \<Rightarrow> registry" where
  "register_all now key agents regs = foldl (\<lambda>rs a. snd (cred_register now a key rs)) regs agents"

definition create_app ::
  "py_env \<Rightarrow> (bytes \<Rightarrow> bytes \<Rightarrow> bytes \<Rightarrow> bool) \<Rightarrow> 'r loader_env \<Rightarrow> 'st store_port \<Rightarrow> 'st world plugin list \<Rightarrow>
     (string \<times> string) list \<Rightarrow> string list option \<Rightarrow> string \<Rightarrow> bool \<Rightarrow> bytes \<times> bytes \<Rightarrow> time \<Rightarrow> 'st \<Rightarrow>
     'st world registry_state \<Rightarrow> 'st http_app result \<times> 'st world registry_state"
where
  "create_app env vs lenv port discovered environ allowlist env_name no_discovery keys now s g =
     (case http_config_from_env environ of Inl e \<Rightarrow> (Inl e, g) | Inr _ \<Rightarrow>
      (case fst (build_default_pipeline env vs port registry_init) of Inl e \<Rightarrow> (Inl e, g)
       | Inr base \<Rightarrow>
          (case load_plugins lenv discovered (resolved_allowlist environ allowlist)
                  (resolved_env environ env_name) ''1.0.0''
                  (no_discovery \<or> dget environ ''SOX_NO_DISCOVERY'' = Some ''1'') g of
             (Inl e, g2) \<Rightarrow> (Inl e, g2)
           | (Inr _, g2) \<Rightarrow>
              (bind_res (if resolved_order g2 = [] then Inr base
                         else extend_pipeline_with_registry base g2 (store_dispatch_call env port))
                 (\<lambda>p. Inr (let v = verifier_init 300;
                          regs = (case pre_registered environ of None \<Rightarrow> []
                            | Some agents \<Rightarrow> register_all now (snd keys) agents [])
                      in \<lparr>ap_pipeline = p, ap_private_key = fst keys, ap_public_key = snd keys,
                          ap_auto_register = (pre_registered environ = None),
                          ap_world = \<lparr>wd_now = now, wd_verifier = v\<lparr>vf_registry := regs\<rparr>, wd_store = s,
                            wd_log = []\<rparr>\<rparr>)), g2))))"

end
