(* ===== verification/Http_Properties.thy ===== *)
theory Http_Properties
  imports Http_Routes Mcp_Send
begin

text \<open>
  The HTTP application over time. Every handler is a sequence of dispatches, and requests of
  different clients interleave at them, so \<open>http_run\<close> is the reachability of the application
  under single dispatches and the clock. Its invariants: the pipeline and the mode never change,
  every registered credential is the application's own key, and in strict mode the set of
  registered agents is fixed.
\<close>

section \<open>Reachable applications\<close>

definition set_app_clock :: "time \<Rightarrow> 'st http_app \<Rightarrow> 'st http_app" where
  "set_app_clock now app = app\<lparr>ap_world := (ap_world app)\<lparr>wd_now := now\<rparr>\<rparr>"

inductive http_run :: "py_env \<Rightarrow> signer \<Rightarrow> 'st http_app \<Rightarrow> 'st http_app \<Rightarrow> bool" for env sg app0 where
  run_start: "http_run env sg app0 app0"
| run_clock: "http_run env sg app0 app \<Longrightarrow> http_run env sg app0 (set_app_clock now app)"
| run_dispatch: "http_run env sg app0 app \<Longrightarrow>
     http_run env sg app0 (snd (http_dispatch env sg ids operation body token conn app))"

lemma set_app_clock_fields [simp]:
  "ap_pipeline (set_app_clock now app) = ap_pipeline app"
  "ap_private_key (set_app_clock now app) = ap_private_key app"
  "ap_public_key (set_app_clock now app) = ap_public_key app"
  "ap_auto_register (set_app_clock now app) = ap_auto_register app"
  "wd_store (ap_world (set_app_clock now app)) = wd_store (ap_world app)"
  "wd_verifier (ap_world (set_app_clock now app)) = wd_verifier (ap_world app)"
  "wd_now (ap_world (set_app_clock now app)) = now"
  by (simp_all add: set_app_clock_def)

lemma http_register_fields [simp]:
  "ap_pipeline (snd (http_register token app)) = ap_pipeline app"
  "ap_private_key (snd (http_register token app)) = ap_private_key app"
  "ap_public_key (snd (http_register token app)) = ap_public_key app"
  "ap_auto_register (snd (http_register token app)) = ap_auto_register app"
  "wd_store (ap_world (snd (http_register token app))) = wd_store (ap_world app)"
  "wd_now (ap_world (snd (http_register token app))) = wd_now (ap_world app)"
  by (auto simp: http_register_def Let_def split: prod.splits sum.splits)

lemma http_dispatch_fields [simp]:
  "ap_pipeline (snd (http_dispatch env sg ids operation body token conn app)) = ap_pipeline app"
  "ap_private_key (snd (http_dispatch env sg ids operation body token conn app)) = ap_private_key app"
  "ap_public_key (snd (http_dispatch env sg ids operation body token conn app)) = ap_public_key app"
  "ap_auto_register (snd (http_dispatch env sg ids operation body token conn app)) = ap_auto_register app"
  using http_register_fields [of token app]
  by (cases "http_register token app"; cases "fst (http_register token app)";
      simp add: http_dispatch_def Let_def split_beta)+

section \<open>The invariant\<close>

text \<open>Every registered credential is the application's own, under the name it is registered for.\<close>

definition own_key :: "'st http_app \<Rightarrow> agent \<Rightarrow> credential \<Rightarrow> bool" where
  "own_key app a r \<longleftrightarrow> cr_agent_id r = a \<and> cr_public_key r = ap_public_key app \<and> cr_revoked_at r = None"

definition http_ok :: "'st world pipeline \<Rightarrow> 'st http_app \<Rightarrow> bool" where
  "http_ok p app \<longleftrightarrow> ap_pipeline app = p \<and> length (ap_public_key app) = 32 \<and>
     nonces_ok (wd_verifier (ap_world app)) \<and> vf_replay_window (wd_verifier (ap_world app)) = 300 \<and>
     (\<forall>a r. dget (vf_registry (wd_verifier (ap_world app))) a = Some r \<longrightarrow> own_key app a r)"

lemma http_ok_clock [simp]: "http_ok p (set_app_clock now app) = http_ok p app"
  by (simp add: http_ok_def own_key_def)

lemma http_ok_registry: "http_ok p app \<Longrightarrow> registry_ok (vf_registry (wd_verifier (ap_world app)))"
  by (auto simp: http_ok_def own_key_def registry_ok_def)

lemma http_register_outcome:
  assumes "http_ok p app" and "token \<noteq> []"
  shows "fst (http_register token app) = Inr ()" and "http_ok p (snd (http_register token app))"
    and "ap_auto_register app \<Longrightarrow>
      \<exists>r. dget (vf_registry (wd_verifier (ap_world (snd (http_register token app))))) token = Some r"
    and "\<not> ap_auto_register app \<Longrightarrow> snd (http_register token app) = app"
    and "vf_seen_nonces (wd_verifier (ap_world (snd (http_register token app)))) =
      vf_seen_nonces (wd_verifier (ap_world app))"
  using assms
  by (auto simp: http_register_def http_ok_def own_key_def cred_register_def cred_lookup_def nonces_ok_def Let_def
      split: if_splits)

lemma http_ok_keeps:
  assumes "http_ok p app" and "verifier_keeps (wd_verifier (ap_world app)) (wd_verifier w)"
  shows "http_ok p (app\<lparr>ap_world := w\<rparr>)"
  using assms by (simp add: http_ok_def own_key_def verifier_keeps_def)

lemma http_dispatch_ok:
  assumes "http_ok (default_pipeline env vs port) app"
  shows "http_ok (default_pipeline env vs port) (snd (http_dispatch env' sg ids operation body token conn app))"
proof -
  obtain res app1 where reg: "http_register token app = (res, app1)" by fastforce
  have ok1: "http_ok (default_pipeline env vs port) app1"
  proof (cases "token = []")
    case True
    then show ?thesis
      using reg assms by (auto simp: http_register_def cred_register_def Let_def split: if_splits)
  next
    case False
    then show ?thesis using http_register_outcome(2) [OF assms False] reg by simp
  qed
  then have "ap_pipeline app1 = default_pipeline env vs port" by (simp add: http_ok_def)
  then have "http_ok (default_pipeline env vs port) (app1\<lparr>ap_world := snd (snd (dispatch (ap_pipeline app1) fr operation
      body conn md (ap_world app1)))\<rparr>)" for fr md
    by (simp add: dispatch_default_world http_ok_keeps [OF ok1] chain_result_keeps)
  then show ?thesis using ok1 by (simp add: http_dispatch_def reg Let_def split_beta split: sum.split)
qed

lemma http_run_ok:
  "http_run env' sg app0 app \<Longrightarrow> http_ok (default_pipeline env vs port) app0 \<Longrightarrow>
     http_ok (default_pipeline env vs port) app \<and> ap_private_key app = ap_private_key app0 \<and>
     ap_public_key app = ap_public_key app0 \<and> ap_auto_register app = ap_auto_register app0"
  by (induction rule: http_run.induct) (simp_all add: http_dispatch_ok)

text \<open>In strict mode the registry stays as it is.\<close>

lemma strict_dispatch_registry:
  assumes "http_ok (default_pipeline env vs port) app" and "\<not> ap_auto_register app"
  shows "vf_registry (wd_verifier (ap_world (snd (http_dispatch env' sg ids operation body token conn app)))) =
    vf_registry (wd_verifier (ap_world app))"
proof -
  have reg: "http_register token app = (Inr (), app)" using assms(2) by (simp add: http_register_def)
  have "verifier_keeps (wd_verifier w) (wd_verifier (snd (snd (dispatch (ap_pipeline app) fr operation body conn md w))))"
    for fr md w
    using assms(1) by (simp add: http_ok_def dispatch_default_world chain_result_keeps)
  then show ?thesis by (simp add: http_dispatch_def reg Let_def split_beta verifier_keeps_def)
qed

lemma strict_run_registry:
  "http_run env' sg app0 app \<Longrightarrow> http_ok (default_pipeline env vs port) app0 \<Longrightarrow> \<not> ap_auto_register app0 \<Longrightarrow>
     vf_registry (wd_verifier (ap_world app)) = vf_registry (wd_verifier (ap_world app0))"
proof (induction rule: http_run.induct)
  case (run_dispatch app ids operation body token conn)
  then show ?case
    using http_run_ok [OF run_dispatch(1), of env vs port] strict_dispatch_registry by metis
qed simp_all

section \<open>The started application\<close>

lemma register_all_keys:
  assumes "length key = 32"
  shows "dget (register_all now key agents regs) a = (if a \<in> set agents \<and> a \<noteq> []
    then Some \<lparr>cr_agent_id = a, cr_public_key = key, cr_registered_at = now, cr_revoked_at = None\<rparr>
    else dget regs a)"
  using assms
  by (induction agents arbitrary: regs) (auto simp: register_all_def cred_register_def Let_def)

lemma app_started:
  assumes "fst (create_app env vs lenv port [] environ allowlist ename nodisc keys now s registry_init) = Inr app"
    and "length (snd keys) = 32"
  shows "http_ok (default_pipeline env vs port) app" and "ap_private_key app = fst keys"
    and "ap_public_key app = snd keys" and "ap_auto_register app = (pre_registered environ = None)"
    and "vf_registry (wd_verifier (ap_world app)) = (case pre_registered environ of None \<Rightarrow> []
      | Some agents \<Rightarrow> register_all now (snd keys) agents [])"
proof -
  obtain c where c: "http_config_from_env environ = Inr c"
    using assms(1) by (cases "http_config_from_env environ") (auto simp: create_app_def)
  note g1 = build_default_empty [of env vs port]
  obtain r g2 where g2: "load_plugins lenv ([] :: 'a world plugin list) (resolved_allowlist environ allowlist)
      (resolved_env environ ename) ''1.0.0'' (nodisc \<or> dget environ ''SOX_NO_DISCOVERY'' = Some ''1'') registry_init = (r, g2)"
    by fastforce
  have r: "r = Inr ()" using assms(1) c g1 g2 by (cases r) (simp_all add: create_app_def)
  then have "resolved_order g2 = []" using g2 load_nothing by (metis fst_conv snd_conv)
  then have app: "app = \<lparr>ap_pipeline = default_pipeline env vs port, ap_private_key = fst keys, ap_public_key = snd keys,
      ap_auto_register = (pre_registered environ = None),
      ap_world = \<lparr>wd_now = now, wd_verifier = (verifier_init 300)\<lparr>vf_registry := (case pre_registered environ of None \<Rightarrow> []
        | Some agents \<Rightarrow> register_all now (snd keys) agents [])\<rparr>, wd_store = s, wd_log = []\<rparr>\<rparr>"
    using assms(1) c g1 g2 r by (simp add: create_app_def Let_def)
  show "http_ok (default_pipeline env vs port) app"
    using assms(2) by (auto simp: app http_ok_def own_key_def verifier_init_def nonces_ok_def register_all_keys
        split: option.splits if_splits)
  show "ap_private_key app = fst keys" "ap_public_key app = snd keys"
    "ap_auto_register app = (pre_registered environ = None)"
    "vf_registry (wd_verifier (ap_world app)) = (case pre_registered environ of None \<Rightarrow> []
      | Some agents \<Rightarrow> register_all now (snd keys) agents [])"
    by (simp_all add: app)
qed

section \<open>The gate\<close>

text \<open>The route table, without \<open>channels_collect\<close>; another path is the framework's 404.\<close>

definition http_operations :: "string list" where
  "http_operations = [''send'', ''recv'', ''subscribe'', ''unsubscribe'', ''list_channels'', ''channels_ack'', ''channels_heartbeat'',
     ''replay'', ''list_agents'', ''group_create'', ''group_invite'', ''group_join'', ''group_leave'', ''group_list_members'']"

definition http_route :: "py_env \<Rightarrow> signer \<Rightarrow> string \<Rightarrow> 'st handler" where
  "http_route env sg operation =
     (if operation = ''send'' then http_op_send env sg
      else if operation = ''recv'' then http_op_recv env sg
      else if operation = ''subscribe'' then http_op_subscribe env sg
      else if operation = ''unsubscribe'' then http_op_unsubscribe env sg
      else if operation = ''list_channels'' then http_op_list_channels env sg
      else if operation = ''channels_ack'' then http_op_channels_ack env sg
      else if operation = ''channels_heartbeat'' then http_op_channels_heartbeat env sg
      else if operation = ''replay'' then http_op_replay env sg
      else if operation = ''list_agents'' then http_op_list_agents env sg
      else if operation = ''group_create'' then http_op_group_create env sg
      else if operation = ''group_invite'' then http_op_group_invite env sg
      else if operation = ''group_join'' then http_op_group_join env sg
      else if operation = ''group_leave'' then http_op_group_leave env sg
      else if operation = ''group_list_members'' then http_op_group_list_members env sg
      else (\<lambda>ids request app. (Inr \<lparr>rs_status = 404, rs_content = [(''detail'', PStr ''Not Found'')]\<rparr>, app)))"

lemmas plain_handler_defs = http_op_recv_def http_op_channels_ack_def http_op_channels_heartbeat_def http_op_replay_def http_op_list_agents_def
  http_op_group_create_def http_op_group_join_def http_op_group_leave_def http_op_group_list_members_def

lemma status_identity [simp]: "status_of_error ''identity_failure'' = 401"
  by (simp add: status_of_error_def dget_default_def)

lemma refused_dispatch:
  assumes "http_ok (default_pipeline env vs port) app" and "\<not> ap_auto_register app"
    and "dget (vf_registry (wd_verifier (ap_world app))) token = None"
    and "operation \<in> identity_enforced_operations"
  shows "\<exists>resp. fst (http_dispatch env' sg ids operation body token conn app) = Inr resp \<and> rs_status resp = 401 \<and>
    wd_store (ap_world (snd (http_dispatch env' sg ids operation body token conn app))) = wd_store (ap_world app)"
proof -
  let ?w = "ap_world app"
  let ?req = "resolve_signed_request sg (ci_nonce ids) (wd_now ?w) token (ap_private_key app) operation (Some body)"
  let ?md = "Some [(''_connection_credential'', PSigned ?req), (''_agent_id'', PStr token)]"
  let ?c = "call_ctx (ci_fresh ids) operation body conn ?md"
  have reg: "http_register token app = (Inr (), app)" using assms(2) by (simp add: http_register_def)
  have pipe: "ap_pipeline app = default_pipeline env vs port" using assms(1) by (simp add: http_ok_def)
  have "\<not> acceptable vs (wd_now ?w) ?req (wd_verifier ?w)"
    using assms(3) by (simp add: acceptable_def credential_valid_def)
  moreover have "fst (resolve_credential ?c) = Some ?req"
    by (simp add: resolve_credential_of credential_of_def)
  moreover have "nonces_ok (wd_verifier ?w)" using assms(1) by (simp add: http_ok_def)
  ultimately obtain reason c' v' where "auth_call env vs ?c ?w =
      Return (Inl (ShortCircuit (make_identity_error reason))) c' (?w\<lparr>wd_verifier := v'\<rparr>)"
    using auth_gate [of ?w ?c vs env] assms(4) by fastforce
  then have chain: "chain_result env vs port ?c ?w =
      (recover (Inl (ShortCircuit (make_identity_error reason))), ?w\<lparr>wd_verifier := v'\<rparr>)"
    by (simp add: chain_result_def)
  let ?d = "dispatch (default_pipeline env vs port) (ci_fresh ids) operation body conn ?md ?w"
  have d: "http_dispatch env' sg ids operation body token conn app =
      (Inr (response_of env' (fst ?d)), app\<lparr>ap_world := snd (snd ?d)\<rparr>)"
    by (simp add: http_dispatch_def reg pipe Let_def split_beta)
  have "dget (fst ?d) ''error_code'' = Some (PStr ''identity_failure'')"
    by (simp add: dispatch_default_response chain)
  then have "rs_status (response_of env' (fst ?d)) = 401" by (simp add: response_of_def)
  then show ?thesis unfolding d by (simp add: dispatch_default_world chain)
qed

lemma after_error:
  assumes "\<And>resp. rs_status resp = 401 \<Longrightarrow> f resp = resp"
    and "\<exists>resp. fst r = Inr resp \<and> rs_status resp = 401 \<and> wd_store (ap_world (snd r)) = s"
  shows "\<exists>resp. fst (after f r) = Inr resp \<and> rs_status resp = 401 \<and> wd_store (ap_world (snd (after f r))) = s"
  using assms by (auto simp: after_def)

lemma http_route_enforced:
  "http_route env sg ''send'' = http_op_send env sg" "http_route env sg ''subscribe'' = http_op_subscribe env sg"
  "http_route env sg ''recv'' = op_plain env sg ''recv''"
  "http_route env sg ''list_agents'' = op_plain env sg ''list_agents''"
  by (simp_all add: http_route_def plain_handler_defs)

lemma http_route_no_token:
  assumes "extract_bearer_token request = None" and "operation \<in> set http_operations"
  shows "http_route env sg operation ids request app = (Inr missing_credential, app)"
    and "rs_status missing_credential = 401"
proof -
  show "http_route env sg operation ids request app = (Inr missing_credential, app)"
    using assms(2) unfolding http_operations_def list.set insert_iff empty_iff
    by (elim disjE FalseE; hypsubst) (simp_all add: assms(1) http_route_def plain_handler_defs http_op_send_def
        http_op_subscribe_def http_op_unsubscribe_def
        http_op_list_channels_def http_op_group_invite_def op_plain_def with_token_def after_def
        missing_credential_def sox_error_response_def send_response_def unsubscribe_response_def
        list_channels_response_def invite_response_def)
qed (simp add: missing_credential_def sox_error_response_def)

lemma enforced_route_refused:
  assumes "http_ok (default_pipeline env vs port) app" and "\<not> ap_auto_register app"
    and "dget (vf_registry (wd_verifier (ap_world app))) token = None"
    and "extract_bearer_token request = Some token" and "operation \<in> identity_enforced_operations"
  shows "\<exists>resp. fst (http_route env' sg operation ids request app) = Inr resp \<and> rs_status resp \<in> {400, 401} \<and>
    (operation \<noteq> ''subscribe'' \<longrightarrow> rs_status resp = 401) \<and>
    wd_store (ap_world (snd (http_route env' sg operation ids request app))) = wd_store (ap_world app)"
proof -
  have plain: "\<exists>resp. fst (op_plain env' sg op ids request app) = Inr resp \<and> rs_status resp = 401 \<and>
      wd_store (ap_world (snd (op_plain env' sg op ids request app))) = wd_store (ap_world app)"
    if "op \<in> identity_enforced_operations" for op
    using refused_dispatch [OF assms(1-3) that] by (simp add: op_plain_def with_token_def assms(4))
  have send: "\<exists>resp. fst (http_op_send env' sg ids request app) = Inr resp \<and> rs_status resp = 401 \<and>
      wd_store (ap_world (snd (http_op_send env' sg ids request app))) = wd_store (ap_world app)"
    unfolding http_op_send_def
    by (rule after_error) (simp_all add: send_response_def plain identity_enforced_operations_def)
  have subscribe: "\<exists>resp. fst (http_op_subscribe env' sg ids request app) = Inr resp \<and> rs_status resp \<in> {400, 401} \<and>
      wd_store (ap_world (snd (http_op_subscribe env' sg ids request app))) = wd_store (ap_world app)"
  proof (cases "wildcard_forbidden (py_str (pe_repr env') (dget_default (body_of request) ''pattern'' (PStr [])))")
    case True
    then show ?thesis by (simp add: http_op_subscribe_def assms(4) wildcard_response_def sox_error_response_def)
  next
    case False
    have "\<exists>resp. fst (after subscribe_response (op_plain env' sg ''subscribe'' ids request app)) = Inr resp \<and>
        rs_status resp = 401 \<and> wd_store (ap_world (snd (after subscribe_response
          (op_plain env' sg ''subscribe'' ids request app)))) = wd_store (ap_world app)"
      by (rule after_error) (simp_all add: subscribe_response_def plain identity_enforced_operations_def)
    then show ?thesis using False by (auto simp: http_op_subscribe_def assms(4))
  qed
  consider "operation = ''send''" | "operation = ''subscribe''" | "operation \<in> {''recv'', ''list_agents''}"
    using assms(5) by (auto simp: identity_enforced_operations_def)
  then show ?thesis
  proof cases
    case 1
    obtain resp where "fst (http_op_send env' sg ids request app) = Inr resp" "rs_status resp = 401"
        "wd_store (ap_world (snd (http_op_send env' sg ids request app))) = wd_store (ap_world app)"
      using send by blast
    then show ?thesis unfolding 1 http_route_enforced by (intro exI [of _ resp]) simp
  next
    case 2 then show ?thesis using subscribe by (simp add: http_route_enforced)
  next
    case 3
    then have eq: "http_route env' sg operation = op_plain env' sg operation"
      by (elim insertE emptyE) (simp_all add: http_route_enforced)
    obtain resp where "fst (op_plain env' sg operation ids request app) = Inr resp" "rs_status resp = 401"
        "wd_store (ap_world (snd (op_plain env' sg operation ids request app))) = wd_store (ap_world app)"
      using plain [OF assms(5)] by blast
    then show ?thesis unfolding eq by (intro exI [of _ resp]) simp
  qed
qed

text \<open>
  C28. The strict gate: an application started with \<open>SOX_PRE_REGISTERED_AGENTS\<close> answers, at any
  later time, a \<open>send\<close>, \<open>recv\<close>, \<open>subscribe\<close> or \<open>list_agents\<close> request whose token is not in that
  list with 401, or with 400 when it asks for a forbidden wildcard, and leaves the store as it
  is; a request without a token gets 401 on every route and changes nothing at all.
\<close>

theorem http_strict_gate:
  assumes "fst (create_app env vs lenv port [] environ allowlist ename nodisc keys now s registry_init) = Inr app0"
    and "length (snd keys) = 32" and "pre_registered environ = Some agents"
    and "http_run env' sg app0 app"
  shows "(extract_bearer_token request = None \<and> operation \<in> set http_operations \<longrightarrow>
      http_route env' sg operation ids request app = (Inr missing_credential, app) \<and>
      rs_status missing_credential = 401) \<and>
    (\<forall>token. extract_bearer_token request = Some token \<and> token \<notin> set agents \<and>
      operation \<in> identity_enforced_operations \<longrightarrow>
      (\<exists>resp. fst (http_route env' sg operation ids request app) = Inr resp \<and> rs_status resp \<in> {400, 401} \<and>
        (operation \<noteq> ''subscribe'' \<longrightarrow> rs_status resp = 401) \<and>
        wd_store (ap_world (snd (http_route env' sg operation ids request app))) = wd_store (ap_world app)))"
proof -
  note start = app_started [OF assms(1,2)]
  have run: "http_ok (default_pipeline env vs port) app" "\<not> ap_auto_register app"
    using http_run_ok [OF assms(4) start(1)] start(4) assms(3) by simp_all
  have regs: "vf_registry (wd_verifier (ap_world app)) = register_all now (snd keys) agents []"
    using strict_run_registry [OF assms(4) start(1)] start(4,5) assms(3) by simp
  have "http_route env' sg operation ids request app = (Inr missing_credential, app) \<and> rs_status missing_credential = 401"
    if "extract_bearer_token request = None" "operation \<in> set http_operations"
    using http_route_no_token [OF that] by simp
  moreover have "\<exists>resp. fst (http_route env' sg operation ids request app) = Inr resp \<and> rs_status resp \<in> {400, 401} \<and>
        (operation \<noteq> ''subscribe'' \<longrightarrow> rs_status resp = 401) \<and>
        wd_store (ap_world (snd (http_route env' sg operation ids request app))) = wd_store (ap_world app)"
    if t: "extract_bearer_token request = Some token" "token \<notin> set agents" "operation \<in> identity_enforced_operations"
    for token
  proof -
    have none: "dget (vf_registry (wd_verifier (ap_world app))) token = None"
      using t(2) by (simp add: regs register_all_keys [OF assms(2)])
    show ?thesis by (rule enforced_route_refused [OF run none t(1,3)])
  qed
  ultimately show ?thesis by blast
qed

text \<open>The toy application for one registered agent, and a request of another.\<close>

definition toy_environ :: "(string \<times> string) list" where
  "toy_environ = [(''SOX_PRE_REGISTERED_AGENTS'', ''a''), (''SOX_NO_DISCOVERY'', ''1'')]"

definition toy_app :: "memory_store \<Rightarrow> memory_store http_app" where
  "toy_app s = \<lparr>ap_pipeline = default_pipeline toy_env toy_scheme memory_port, ap_private_key = toy_key,
     ap_public_key = toy_key, ap_auto_register = False, ap_world = toy_world s\<rparr>"

lemma toy_pre_registered: "pre_registered toy_environ = Some [''a'']"
  by code_simp

lemma toy_app_started:
  "fst (create_app toy_env toy_scheme toy_loader memory_port [] toy_environ None ''dev'' False (toy_key, toy_key) 0
     s registry_init) = Inr (toy_app s)"
proof -
  note g1 = build_default_empty [of toy_env toy_scheme memory_port]
  have v: "toy_verifier = (verifier_init 300)\<lparr>vf_registry := register_all 0 toy_key [''a''] []\<rparr>"
    by (simp add: toy_verifier_def verifier_init_def register_all_def)
  have "\<not> isl (http_config_from_env toy_environ)" by code_simp
  then obtain c where "http_config_from_env toy_environ = Inr c"
    by (cases "http_config_from_env toy_environ") simp_all
  moreover have "dget toy_environ ''SOX_NO_DISCOVERY'' = Some ''1''" by (simp add: toy_environ_def)
  ultimately show ?thesis
    by (simp add: create_app_def g1 load_plugins_def resolved_order_def toy_pre_registered v
        toy_app_def toy_world_def Let_def)
qed

definition toy_http_request :: "string \<Rightarrow> pydict \<Rightarrow> http_request" where
  "toy_http_request token body = \<lparr>rq_headers = [(''x-sox-agent-id'', token)], rq_json = Some (PDict body),
     rq_client_host = None\<rparr>"

theorem http_strict_gate_witness:
  "\<exists>resp. fst (http_route toy_env toy_signer ''recv'' toy_ids (toy_http_request ''mallory'' []) (toy_app memory_init)) = Inr resp \<and>
     rs_status resp = 401 \<and>
     wd_store (ap_world (snd (http_route toy_env toy_signer ''recv'' toy_ids (toy_http_request ''mallory'' []) (toy_app memory_init)))) =
       memory_init"
proof -
  have "extract_bearer_token (toy_http_request ''mallory'' []) = Some ''mallory''" by code_simp
  moreover have "wd_store (ap_world (toy_app memory_init)) = memory_init" by (simp add: toy_app_def toy_world_def)
  ultimately show ?thesis
    using http_strict_gate [OF toy_app_started [of memory_init] _ toy_pre_registered run_start,
        where request = "toy_http_request ''mallory'' []" and env' = toy_env and sg = toy_signer and
          operation = "''recv''" and ids = toy_ids]
    by (auto simp: toy_key_def identity_enforced_operations_def)
qed

end
