(* ===== verification/Http_Send.thy ===== *)
theory Http_Send
  imports Http_Properties
begin

text \<open>
  Accepted calls of the HTTP application: with a known token and a fresh nonce a dispatch passes
  the auth middleware under that token, and \<open>send\<close> and \<open>recv\<close> are the operations of the store.
\<close>

section \<open>Tokens\<close>

lemma nonspace_lstrip: "c \<in> set s \<Longrightarrow> \<not> py_isspace c \<Longrightarrow> c \<in> set (lstrip s)"
  by (induction s) (auto simp: lstrip_def)

lemma nonspace_strip: "c \<in> set s \<Longrightarrow> \<not> py_isspace c \<Longrightarrow> c \<in> set (strip s)"
  using nonspace_lstrip [of c "rev (lstrip s)"] nonspace_lstrip [of c s]
  by (simp add: strip_def rstrip_def lstrip_def)

lemma strip_nonspace: "strip s \<noteq> [] \<Longrightarrow> \<exists>c \<in> set s. \<not> py_isspace c"
proof (rule ccontr)
  assume "strip s \<noteq> []" "\<not> (\<exists>c \<in> set s. \<not> py_isspace c)"
  then show False by (auto simp: strip_def lstrip_def rstrip_def dest: set_dropWhileD)
qed

lemma bearer_token_name:
  assumes "extract_bearer_token request = Some token"
  shows "strip token \<noteq> []" "token \<noteq> []"
proof -
  obtain s where s: "token = strip s" "strip s \<noteq> []"
    using assms by (auto simp: extract_bearer_token_def Let_def split: if_splits)
  then obtain c where "c \<in> set s" "\<not> py_isspace c" using strip_nonspace by blast
  then have "c \<in> set (strip (strip s))" using nonspace_strip by blast
  then show "strip token \<noteq> []" "token \<noteq> []" using s by auto
qed

section \<open>Accepted dispatches\<close>

definition known_token :: "'st http_app \<Rightarrow> string \<Rightarrow> bool" where
  "known_token app token \<longleftrightarrow>
     ap_auto_register app \<or> (\<exists>r. dget (vf_registry (wd_verifier (ap_world app))) token = Some r)"

text \<open>The request a dispatch signs, and the context and world the chain starts in.\<close>

definition http_credential :: "signer \<Rightarrow> call_ids \<Rightarrow> string \<Rightarrow> pydict \<Rightarrow> string \<Rightarrow> 'st http_app \<Rightarrow> signed_request" where
  "http_credential sg ids operation body token app =
     resolve_signed_request sg (ci_nonce ids) (wd_now (ap_world app)) token (ap_private_key app) operation (Some body)"

definition http_context ::
  "signer \<Rightarrow> call_ids \<Rightarrow> string \<Rightarrow> pydict \<Rightarrow> string \<Rightarrow> string \<Rightarrow> 'st http_app \<Rightarrow> call_context"
where
  "http_context sg ids operation body token conn app = call_ctx (ci_fresh ids) operation body conn
     (Some [(''_connection_credential'', PSigned (http_credential sg ids operation body token app)),
            (''_agent_id'', PStr token)])"

lemma http_context_fields [simp]:
  "cx_operation (http_context sg ids operation body token conn app) = operation"
  "cx_input (http_context sg ids operation body token conn app) = body"
  "cx_agent_id (http_context sg ids operation body token conn app) = None"
  "fst (resolve_credential (http_context sg ids operation body token conn app)) =
     Some (http_credential sg ids operation body token app)"
  by (simp_all add: http_context_def resolve_credential_of credential_of_def)

lemma http_credential_agent [simp]: "sr_agent_id (http_credential sg ids operation body token app) = token"
  by (simp add: http_credential_def)

text \<open>The world after the registration, in which the chain starts.\<close>

definition registered_world :: "string \<Rightarrow> 'st http_app \<Rightarrow> 'st world" where
  "registered_world token app = ap_world (snd (http_register token app))"

lemma registered_world_fields [simp]:
  "wd_store (registered_world token app) = wd_store (ap_world app)"
  "wd_now (registered_world token app) = wd_now (ap_world app)"
  by (simp_all add: registered_world_def)

lemma registered_world_ok:
  assumes "http_ok p app" and "token \<noteq> []"
  shows "nonces_ok (wd_verifier (registered_world token app))"
    and "registry_ok (vf_registry (wd_verifier (registered_world token app)))"
  using http_register_outcome(2) [OF assms] http_ok_registry [OF http_register_outcome(2) [OF assms]]
  by (simp_all add: registered_world_def http_ok_def)

lemma dispatch_chain:
  assumes ok: "http_ok (default_pipeline env vs port) app" and token: "token \<noteq> []"
  obtains result where
    "\<And>k. k \<noteq> ''metadata'' \<Longrightarrow> dget result k =
       dget (fst (chain_result env vs port (http_context sg ids operation body token conn app) (registered_world token app))) k"
    "fst (http_dispatch env' sg ids operation body token conn app) = Inr (response_of env' result)"
    "ap_world (snd (http_dispatch env' sg ids operation body token conn app)) =
       snd (chain_result env vs port (http_context sg ids operation body token conn app) (registered_world token app))"
proof -
  let ?app = "snd (http_register token app)"
  let ?w = "ap_world ?app"
  have reg: "http_register token app = (Inr (), ?app)"
    using http_register_outcome(1) [OF ok token] by (simp add: prod_eq_iff)
  have pipe: "ap_pipeline app = default_pipeline env vs port" using ok by (simp add: http_ok_def)
  let ?d = "dispatch (default_pipeline env vs port) (ci_fresh ids) operation body conn
      (Some [(''_connection_credential'', PSigned (http_credential sg ids operation body token app)),
             (''_agent_id'', PStr token)]) ?w"
  have d: "http_dispatch env' sg ids operation body token conn app =
      (Inr (response_of env' (fst ?d)), ?app\<lparr>ap_world := snd (snd ?d)\<rparr>)"
    by (subst http_dispatch_def) (simp add: reg [symmetric] pipe Let_def split_beta http_credential_def
        http_register_outcome(1) [OF ok token])
  show thesis
    by (rule that [of "fst ?d"])
      (simp_all add: d dispatch_default_response dispatch_default_world http_context_def registered_world_def)
qed

lemma accepted_credential:
  assumes ok: "http_ok (default_pipeline env vs port) app"
    and law: "\<And>p. vs (ap_public_key app) p (sg_sign sg (ap_private_key app) p)"
    and known: "known_token app token" "token \<noteq> []"
    and nonce: "ci_nonce ids \<noteq> []" "nonce_free (ci_nonce ids) (wd_now (ap_world app)) (wd_verifier (ap_world app))"
  shows "acceptable vs (wd_now (ap_world app)) (http_credential sg ids operation body token app)
    (wd_verifier (registered_world token app))"
proof -
  let ?app = "snd (http_register token app)"
  have ok1: "http_ok (default_pipeline env vs port) ?app" by (rule http_register_outcome(2) [OF ok known(2)])
  obtain r where r: "dget (vf_registry (wd_verifier (ap_world ?app))) token = Some r"
    using known(1) http_register_outcome(3,4) [OF ok known(2)] unfolding known_token_def by (cases "ap_auto_register app") auto
  then have "own_key ?app token r" using ok1 by (simp add: http_ok_def)
  then have valid: "cr_public_key r = ap_public_key app" "cr_revoked_at r = None" by (simp_all add: own_key_def)
  have "nonce_free (ci_nonce ids) (wd_now (ap_world app)) (wd_verifier (ap_world ?app))"
    using nonce(2) http_register_outcome(5) [OF ok known(2)] ok ok1 by (simp add: nonce_free_def http_ok_def)
  then show ?thesis
    using r valid law nonce(1) known(2) ok1
    by (auto simp: registered_world_def acceptable_def credential_valid_def http_credential_def http_ok_def)
qed

section \<open>send\<close>

definition over_threshold :: "backpressure \<Rightarrow> bool" where
  "over_threshold bp \<longleftrightarrow> bp_state bp = ''over_limit'' \<or> bp_queue_depth bp \<ge> bp_threshold bp"

lemma send_response_status:
  assumes "dget content ''error_code'' = None"
    and "dget content ''backpressure'' = Some (PDict [(''queue_depth'', PInt (bp_queue_depth bp)),
      (''threshold'', PInt (bp_threshold bp)), (''state'', PStr (bp_state bp))])"
  shows "rs_status (send_response env body (response_of env' content)) = (if over_threshold bp then 429 else 200)"
  using assms
  by (simp add: send_response_def response_of_def over_limit_response_def over_limit_state_def over_threshold_def
      sox_error_response_def dget_default_def Let_def)

lemma known_started:
  assumes "http_run env' sg app0 app" and "http_ok (default_pipeline env vs port) app0"
    and "ap_auto_register app0 = (pre_registered environ = None)"
    and "vf_registry (wd_verifier (ap_world app0)) = (case pre_registered environ of None \<Rightarrow> []
      | Some agents \<Rightarrow> register_all now (ap_public_key app0) agents [])"
    and "\<forall>agents. pre_registered environ = Some agents \<longrightarrow> token \<in> set agents" and "token \<noteq> []"
  shows "known_token app token"
proof (cases "pre_registered environ")
  case None
  then show ?thesis using http_run_ok [OF assms(1,2)] assms(3) by (simp add: known_token_def)
next
  case (Some agents)
  then have "vf_registry (wd_verifier (ap_world app)) = register_all now (ap_public_key app0) agents []"
    using strict_run_registry [OF assms(1,2)] assms(3,4) by simp
  moreover have "length (ap_public_key app0) = 32" using assms(2) by (simp add: http_ok_def)
  ultimately show ?thesis using Some assms(5,6) by (simp add: known_token_def register_all_keys)
qed

text \<open>
  C29. What \<open>POST /v1/ops/send\<close> means: with a token the application knows and a fresh nonce the
  message is stored under the token's name, with the channel and body of the request, at any time
  of the application's life. The status is 429, \<open>Send rejected\<close>, exactly when the queue depth the
  store reports after the call is at or above the threshold: the refused message has been stored.
\<close>

theorem http_send_outcome:
  assumes "fst (create_app env vs lenv port [] environ allowlist ename nodisc keys now s registry_init) = Inr app0"
    and "length (snd keys) = 32" and "\<And>p. vs (snd keys) p (sg_sign sg (fst keys) p)"
    and "http_run env' sg app0 app"
    and "extract_bearer_token request = Some token"
    and "\<forall>agents. pre_registered environ = Some agents \<longrightarrow> token \<in> set agents"
    and "ci_nonce ids \<noteq> []" and "nonce_free (ci_nonce ids) (wd_now (ap_world app)) (wd_verifier (ap_world app))"
    and "distinct (map fst (body_of request))" and "dget (body_of request) ''channel'' = Some (PStr ch)"
    and "dget (body_of request) ''body'' = Some (PDict body)"
    and "sp_send port (wd_now (ap_world app)) ch token body (get_opt_str env (body_of request) ''correlation_id'')
      (get_opt_str env (body_of request) ''reply_to'') (wd_store (ap_world app)) = (Inr (mid, sent_at, seq, bp), s')"
  shows "\<exists>resp. fst (http_op_send env' sg ids request app) = Inr resp \<and>
    wd_store (ap_world (snd (http_op_send env' sg ids request app))) = s' \<and>
    rs_status resp = (if over_threshold bp then 429 else 200)"
proof -
  note start = app_started [OF assms(1,2)] and name = bearer_token_name [OF assms(5)]
  from http_run_ok [OF assms(4) start(1)]
  have run: "http_ok (default_pipeline env vs port) app" "ap_private_key app = fst keys" "ap_public_key app = snd keys"
    using start(2,3) by simp_all
  have regs: "vf_registry (wd_verifier (ap_world app0)) = (case pre_registered environ of None \<Rightarrow> []
      | Some agents \<Rightarrow> register_all now (ap_public_key app0) agents [])"
    unfolding start(3) by (rule start(5))
  have known: "known_token app token"
    by (rule known_started [OF assms(4) start(1,4) regs assms(6) name(2)])
  have law: "vs (ap_public_key app) p (sg_sign sg (ap_private_key app) p)" for p using assms(3) run by simp
  let ?conn = "connection_id_of request"
  let ?c = "http_context sg ids ''send'' (body_of request) token ?conn app"
  let ?w = "registered_world token app"
  obtain result where res: "\<And>k. k \<noteq> ''metadata'' \<Longrightarrow> dget result k = dget (fst (chain_result env vs port ?c ?w)) k"
    "fst (http_dispatch env' sg ids ''send'' (body_of request) token ?conn app) = Inr (response_of env' result)"
    "ap_world (snd (http_dispatch env' sg ids ''send'' (body_of request) token ?conn app)) =
       snd (chain_result env vs port ?c ?w)"
    by (rule dispatch_chain [OF run(1) name(2), where operation = "''send''"
        and body = "body_of request" and conn = "?conn" and env' = env']) (rule that; assumption)
  have acc: "acceptable vs (wd_now ?w) (http_credential sg ids ''send'' (body_of request) token app) (wd_verifier ?w)"
    using accepted_credential [OF run(1) law known name(2) assms(7,8)] by simp
  from auth_send_accepted [OF registered_world_ok [OF run(1) name(2)] _ _ _ _ acc, of ?c env] assms(9) name(1)
  obtain c' v' where a: "auth_call env vs ?c ?w = CallNext c' (?w\<lparr>wd_verifier := v'\<rparr>) (\<lambda>(r, c, w'). Return r c w')"
    "dget (cx_input c') ''sender'' = Some (PStr token)" "cx_operation c' = ''send''"
    "\<forall>k. k \<notin> {''sender'', ''origin_server'', ''signed_request''} \<longrightarrow> dget (cx_input c') k = dget (body_of request) k"
    unfolding http_context_fields http_credential_agent by blast
  have same: "dget (cx_input c') k = dget (body_of request) k"
    if "k \<in> {''channel'', ''body'', ''correlation_id'', ''reply_to''}" for k
  proof -
    have "k \<notin> {''sender'', ''origin_server'', ''signed_request''}" using that by auto
    then show ?thesis using a(4) by blast
  qed
  have "op_send env port (wd_now ?w) c' (wd_store ?w) =
      (Inr [(''message_id'', PStr mid), (''channel'', PStr ch), (''sent_at'', PFloat sent_at), (''seq'', PInt seq),
         (''backpressure'', PDict [(''queue_depth'', PInt (bp_queue_depth bp)),
            (''threshold'', PInt (bp_threshold bp)), (''state'', PStr (bp_state bp))])], s')"
    using a(2) assms(10-12)
    by (simp add: op_send_def get_str_def get_opt_str_def dget_default_def same respond_def)
  then have chain: "chain_result env vs port ?c ?w =
      ([(''message_id'', PStr mid), (''channel'', PStr ch), (''sent_at'', PFloat sent_at), (''seq'', PInt seq),
         (''backpressure'', PDict [(''queue_depth'', PInt (bp_queue_depth bp)),
            (''threshold'', PInt (bp_threshold bp)), (''state'', PStr (bp_state bp))])],
       ?w\<lparr>wd_verifier := v', wd_store := s'\<rparr>)"
    by (simp add: chain_result_def a(1,3) store_dispatch_call_def store_call_def recover_def)
  have "rs_status (send_response env' (body_of request) (response_of env' result)) = (if over_threshold bp then 429 else 200)"
    by (rule send_response_status) (simp_all add: res(1) chain)
  then show ?thesis
    using res(2,3) by (simp add: http_op_send_def op_plain_def with_token_def assms(5) after_def chain)
qed

theorem http_send_outcome_witness:
  "\<exists>resp. fst (http_op_send toy_env toy_signer toy_ids
       (toy_http_request ''a'' [(''channel'', PStr ''c''), (''body'', PDict [])]) (toy_app memory_init)) = Inr resp \<and>
     wd_store (ap_world (snd (http_op_send toy_env toy_signer toy_ids
       (toy_http_request ''a'' [(''channel'', PStr ''c''), (''body'', PDict [])]) (toy_app memory_init)))) =
       snd (mem_send 0 ''c'' ''a'' [] None None memory_init) \<and> rs_status resp = 200"
proof -
  let ?rq = "toy_http_request ''a'' [(''channel'', PStr ''c''), (''body'', PDict [])]"
  have "extract_bearer_token ?rq = Some ''a''" by code_simp
  moreover have "nonce_free (ci_nonce toy_ids) (wd_now (ap_world (toy_app memory_init))) (wd_verifier (ap_world (toy_app memory_init)))"
    "ci_nonce toy_ids \<noteq> []"
    by (simp_all add: nonce_free_def toy_app_def toy_world_def toy_ids_def)
  moreover have "toy_scheme (snd (toy_key, toy_key)) p (sg_sign toy_signer (fst (toy_key, toy_key)) p)" for p
    by (simp add: toy_scheme_def toy_signer_def)
  moreover obtain mid sent_at seq bp where
    "fst (mem_send 0 ''c'' ''a'' [] None None memory_init) = (mid, sent_at, seq, bp)" "\<not> over_threshold bp"
    by (simp add: mem_send_def mem_append_def memory_init_def send_backpressure_def default_backpressure_def
        over_threshold_def Let_def)
  then have "sp_send memory_port (wd_now (ap_world (toy_app memory_init))) ''c'' ''a'' []
      (get_opt_str toy_env (body_of ?rq) ''correlation_id'') (get_opt_str toy_env (body_of ?rq) ''reply_to'')
      (wd_store (ap_world (toy_app memory_init))) =
    (Inr (mid, sent_at, seq, bp), snd (mem_send 0 ''c'' ''a'' [] None None memory_init))" "\<not> over_threshold bp"
    by (simp_all add: memory_port_def ok_call_def toy_http_request_def body_of_def get_opt_str_def dget_default_def
        toy_app_def toy_world_def)
  moreover have "distinct (map fst (body_of ?rq))" "dget (body_of ?rq) ''channel'' = Some (PStr ''c'')"
    "dget (body_of ?rq) ''body'' = Some (PDict [])"
    by (simp_all add: toy_http_request_def body_of_def)
  moreover have "length (snd (toy_key, toy_key)) = 32" by (simp add: toy_key_def)
  moreover have "\<forall>agents. pre_registered toy_environ = Some agents \<longrightarrow> ''a'' \<in> set agents"
    by (simp add: toy_pre_registered)
  ultimately show ?thesis
    using http_send_outcome [OF toy_app_started [of memory_init] _ _ run_start, of toy_signer ?rq "''a''" toy_ids "''c''" "[]"
        mid sent_at seq bp _ toy_env] by auto
qed

end
