(* ===== verification/Http_Collect.thy ===== *)
theory Http_Collect
  imports Http_Send Mcp_Recv
begin

text \<open>
  \<open>channels_collect\<close> over HTTP: the poll loop ends once the clock has passed the deadline, and
  the call that checks the input first drains the mailbox.
\<close>

section \<open>What dispatches do to the clock and the store\<close>

lemma auth_call_now:
  "auth_call env vs c w = Return r c' w' \<Longrightarrow> wd_now w' = wd_now w"
  "auth_call env vs c w = CallNext c' w' k \<Longrightarrow> wd_now w' = wd_now w"
  by (auto simp: auth_call_def Let_def split: option.splits sum.splits prod.splits if_splits)

lemma chain_result_now [simp]: "wd_now (snd (chain_result env vs port c w)) = wd_now w"
proof (cases "auth_call env vs c w")
  case (Return r c' w')
  then show ?thesis using auth_call_now(1) by (simp add: chain_result_def)
next
  case (CallNext c' w' k)
  then show ?thesis
    using auth_call_now(2) by (simp add: chain_result_def store_dispatch_call_def split_beta)
qed

context port_invariant
begin

lemma http_dispatch_inv:
  assumes "http_ok (default_pipeline env vs port) app" and "inv (wd_store (ap_world app))"
  shows "inv (wd_store (ap_world (snd (http_dispatch env' sg ids operation body token conn app))))"
proof (cases "fst (http_register token app)")
  case (Inl e)
  then show ?thesis using assms(2) by (simp add: http_dispatch_def split_beta)
next
  case (Inr u)
  have pipe: "ap_pipeline app = default_pipeline env vs port" using assms(1) by (simp add: http_ok_def)
  obtain c w where w: "wd_store w = wd_store (ap_world app)"
    "wd_store (ap_world (snd (http_dispatch env' sg ids operation body token conn app))) =
     wd_store (snd (chain_result env vs port c w))"
    by (rule that [of "ap_world (snd (http_register token app))" "http_context sg ids operation body token conn app"])
      (simp_all add: http_dispatch_def split_beta Inr pipe dispatch_default_world Let_def http_context_def
        http_credential_def)
  show ?thesis using chain_result_store [of env vs port c w] store_call_inv assms(2) w by metis
qed

lemma http_run_inv:
  "http_run env' sg app0 app \<Longrightarrow> http_ok (default_pipeline env vs port) app0 \<Longrightarrow>
     inv (wd_store (ap_world app0)) \<Longrightarrow> inv (wd_store (ap_world app))"
proof (induction rule: http_run.induct)
  case (run_dispatch app ids operation body token conn)
  then show ?case using http_dispatch_inv http_run_ok [OF run_dispatch(1), of env vs port] by blast
qed simp_all

end

lemma handed_over_port: "port_invariant memory_port (handed_over a i)"
  by (rule memory_port_steps) (rule handed_over_kept)

section \<open>A message that has been handed over is not returned\<close>

lemma wire_id_number [simp]: "map wire_id (number_messages ms) = map wire_id ms"
proof -
  have "wire_id (dset m ''seq'' v) = wire_id m" for m v by (simp add: wire_id_def)
  then have "map wire_id (map (\<lambda>(i, m). if has_key m ''seq'' then m else dset m ''seq'' (PInt (int i + 1)))
      (enumerate k ms)) = map wire_id ms" for k
    by (induction ms arbitrary: k) simp_all
  then show ?thesis by (simp only: number_messages_def)
qed

lemma recv_not_returned:
  assumes "handed_over a i s"
  shows "str_int i \<notin> wire_id ` set (fst (mem_recv a chans n s))"
proof -
  obtain m where m: "m \<in> set (ms_messages s)" "mm_id m = i" "a \<in> mm_delivered_to m" "mem_inv s"
    using assms by (auto simp: handed_over_def)
  have "m' = m" if "m' \<in> set (ms_messages s)" "mm_id m' = i" for m'
    using that m mem_id_unique by blast
  then have "i \<notin> mm_id ` set (mem_eligible a chans n s)"
    using m(3) set_mem_eligible [of a chans n s] by (auto simp: mem_wanted_def)
  then show ?thesis by (auto simp: mem_recv_def Let_def)
qed

lemma response_messages_of:
  assumes "dget result ''messages'' = Some (msgs_value ms)"
  shows "response_messages (response_of env result) = ms"
  using assms
  by (simp add: response_messages_def response_of_def dget_default_def msgs_value_def comp_def
      split: option.split)

lemma no_response_messages:
  assumes "dget result ''messages'' = None"
  shows "response_messages (response_of env result) = []"
  using assms by (simp add: response_messages_def response_of_def dget_default_def split: option.split)

lemma recv_dispatch_fresh:
  assumes ok: "http_ok (default_pipeline env vs memory_port) app"
    and token: "strip token \<noteq> []" "token \<noteq> []"
    and over: "handed_over token i (wd_store (ap_world app))"
    and resp: "fst (http_dispatch env' sg ids ''recv'' [(''max_messages'', PInt k)] token conn app) = Inr resp"
  shows "str_int i \<notin> wire_id ` set (response_messages resp)"
proof -
  let ?inp = "[(''max_messages'', PInt k)]" and ?w = "registered_world token app"
  let ?c = "http_context sg ids ''recv'' ?inp token conn app"
  obtain result where res: "\<And>k. k \<noteq> ''metadata'' \<Longrightarrow> dget result k = dget (fst (chain_result env vs memory_port ?c ?w)) k"
    "fst (http_dispatch env' sg ids ''recv'' ?inp token conn app) = Inr (response_of env' result)"
    by (rule dispatch_chain [OF ok token(2), where operation = "''recv''" and body = ?inp and conn = conn
        and env' = env']) (rule that; assumption)
  note wok = registered_world_ok [OF ok token(2)]
  show ?thesis
  proof (cases "acceptable vs (wd_now ?w) (http_credential sg ids ''recv'' ?inp token app) (wd_verifier ?w)")
    case True
    from auth_other_accepted [OF wok _ _ _ _ True, of ?c env] token(1)
    obtain c' v' where a: "auth_call env vs ?c ?w = CallNext c' (?w\<lparr>wd_verifier := v'\<rparr>) (\<lambda>(r, c, w'). Return r c w')"
      "cx_input c' = ?inp \<or> cx_input c' = dpop ?inp ''signed_request''"
      "cx_agent_id c' = Some token" "cx_operation c' = ''recv''"
      by (auto simp: identity_enforced_operations_def)
    then have inp: "cx_input c' = ?inp" by auto
    have "fst (chain_result env vs memory_port ?c ?w) =
        recv_response (wd_now ?w) (fst (mem_recv token None k (wd_store (ap_world app))))"
      by (simp add: chain_result_def a store_dispatch_call_def store_call_def op_recv_def inp resolve_agent_id_def
          get_str_list_def dget_default_def int_or_def with_arg_def memory_port_def ok_call_def respond_def token(2)
          recover_def Let_def)
    then have "response_messages resp = number_messages (fst (mem_recv token None k (wd_store (ap_world app))))"
      using res resp by (simp add: response_messages_of recv_response_def)
    then have "map wire_id (response_messages resp) = map wire_id (fst (mem_recv token None k (wd_store (ap_world app))))"
      by simp
    then have "wire_id ` set (response_messages resp) = wire_id ` set (fst (mem_recv token None k (wd_store (ap_world app))))"
      by (metis image_set)
    then show ?thesis using recv_not_returned [OF over, of None k] by simp
  next
    case False
    then obtain reason c' v' where "auth_call env vs ?c ?w =
        Return (Inl (ShortCircuit (make_identity_error reason))) c' (?w\<lparr>wd_verifier := v'\<rparr>)"
      using auth_gate [OF wok(1), of ?c vs env] by (fastforce simp: identity_enforced_operations_def)
    then have "dget (fst (chain_result env vs memory_port ?c ?w)) ''messages'' = None"
      by (simp add: chain_result_def recover_def make_identity_error_def)
    then show ?thesis using res resp by (simp add: no_response_messages)
  qed
qed

section \<open>The poll loop\<close>

lemma collect_loop_inv:
  assumes "collect_loop fuel recv clock ids others reply_to nf n deadline i collected app = Some (r, app')"
    and "\<And>cids k app. P app \<Longrightarrow> P (snd (recv cids k app))" and "\<And>i app. P app \<Longrightarrow> P (others i app)"
    and "\<And>cids k app resp. P app \<Longrightarrow> fst (recv cids k app) = Inr resp \<Longrightarrow> \<forall>m \<in> set (response_messages resp). Q m"
    and "P app" and "\<forall>m \<in> set collected. Q m"
  shows "P app' \<and> (\<forall>ms. r = Inr (Inr ms) \<longrightarrow> (\<forall>m \<in> set ms. Q m)) \<and>
    (\<forall>resp. r = Inr (Inl resp) \<longrightarrow> (\<forall>m \<in> set (response_messages resp). Q m))"
  using assms(1,5,6)
proof (induction fuel arbitrary: i collected app)
  case (Suc fuel)
  show ?case
  proof (cases "int (length collected) < n \<and> clock i < deadline")
    case False
    then show ?thesis using Suc.prems by auto
  next
    case True
    obtain res app1 where step: "recv (ids i) (n - int (length collected)) app = (res, app1)" by fastforce
    then have app1: "P app1" using assms(2) [OF Suc.prems(2)] by (metis snd_conv)
    show ?thesis
    proof (cases res)
      case (Inl e)
      then show ?thesis using Suc.prems(1) True step app1 by auto
    next
      case (Inr resp)
      then have fresh: "\<forall>m \<in> set (response_messages resp). Q m"
        using assms(4) [OF Suc.prems(2)] step by (metis fst_conv)
      show ?thesis
      proof (cases "rs_status resp = 200")
        case False
        then show ?thesis using Suc.prems(1) True step Inr app1 fresh by auto
      next
        case ok: True
        show ?thesis
          by (rule Suc.IH [of "Suc i" "collected @ filter (is_reply reply_to nf) (response_messages resp)" "others i app1"])
            (use Suc.prems True step Inr ok app1 assms(3) fresh in auto)
      qed
    qed
  qed
qed simp

lemma collect_loop_ends:
  assumes "k < fuel" and "clock (i + k) \<ge> deadline"
  shows "\<exists>r. collect_loop fuel recv clock ids others reply_to nf n deadline i collected app = Some r"
  using assms
proof (induction fuel arbitrary: i k collected app)
  case (Suc fuel)
  show ?case
  proof (cases "int (length collected) < n \<and> clock i < deadline")
    case True
    then obtain k' where k: "k = Suc k'" using Suc.prems(2) by (cases k) auto
    obtain res app1 where step: "recv (ids i) (n - int (length collected)) app = (res, app1)" by fastforce
    show ?thesis
    proof (cases res)
      case (Inr resp)
      then show ?thesis
        using True step Suc.prems k Suc.IH [of k' "Suc i"] by simp
    qed (use True step in simp)
  qed auto
qed simp

section \<open>The checking call\<close>

lemma sentinel_dispatch:
  assumes ok: "http_ok (default_pipeline env vs memory_port) app" and token: "token \<noteq> []"
    and body: "dget body ''agent_id'' = None" "dget body ''channels'' = None" "dget body ''max_messages'' = None"
  shows "\<exists>resp. fst (http_dispatch env' sg ids ''channels_collect'' body token conn app) = Inr resp \<and> rs_status resp = 200"
    and "wd_store (ap_world (snd (http_dispatch env' sg ids ''channels_collect'' body token conn app))) =
      snd (mem_recv token None 50 (wd_store (ap_world app)))"
proof -
  let ?w = "registered_world token app" and ?c = "http_context sg ids ''channels_collect'' body token conn app"
  obtain result where res: "\<And>k. k \<noteq> ''metadata'' \<Longrightarrow> dget result k = dget (fst (chain_result env vs memory_port ?c ?w)) k"
    "fst (http_dispatch env' sg ids ''channels_collect'' body token conn app) = Inr (response_of env' result)"
    "ap_world (snd (http_dispatch env' sg ids ''channels_collect'' body token conn app)) =
       snd (chain_result env vs memory_port ?c ?w)"
    by (rule dispatch_chain [OF ok token, where operation = "''channels_collect''" and body = body and conn = conn
        and env' = env']) (rule that; assumption)
  have "cx_metadata ?c = [(''_connection_credential'', PSigned (http_credential sg ids ''channels_collect'' body token app)),
      (''_agent_id'', PStr token)]"
    by (simp add: http_context_def call_ctx_def new_context_def freeze_correlation_id_def)
  then have "chain_result env vs memory_port ?c ?w =
      (recv_response (wd_now ?w) (fst (mem_recv token None 50 (wd_store (ap_world app)))),
       ?w\<lparr>wd_store := snd (mem_recv token None 50 (wd_store (ap_world app)))\<rparr>)"
    using token
    by (simp add: chain_result_def auth_call_def identity_enforced_operations_def store_dispatch_call_def
        store_call_def op_recv_def resolve_agent_id_def body get_str_list_def dget_default_def int_or_def
        with_arg_def memory_port_def ok_call_def respond_def recover_def Let_def)
  then show "\<exists>resp. fst (http_dispatch env' sg ids ''channels_collect'' body token conn app) = Inr resp \<and> rs_status resp = 200"
    and "wd_store (ap_world (snd (http_dispatch env' sg ids ''channels_collect'' body token conn app))) =
      snd (mem_recv token None 50 (wd_store (ap_world app)))"
    using res by (simp_all add: response_of_def recv_response_def)
qed

section \<open>The properties\<close>

lemma http_dispatch_now [simp]:
  assumes "http_ok (default_pipeline env vs port) app"
  shows "wd_now (ap_world (snd (http_dispatch env' sg ids operation body token conn app))) = wd_now (ap_world app)"
proof -
  have "ap_pipeline app = default_pipeline env vs port" using assms by (simp add: http_ok_def)
  then show ?thesis
    by (cases "fst (http_register token app)")
      (simp_all add: http_dispatch_def split_beta Let_def dispatch_default_world)
qed

lemma collect_answers:
  assumes "http_ok (default_pipeline env vs port) app"
    and "\<And>timeout. to_float env' (dget_default (body_of request) ''timeout'' (PInt 0)) = Inr timeout \<Longrightarrow>
      wd_now (ap_world app) + timeout \<le> clock k"
    and "k < fuel"
  shows "\<exists>r. http_op_channels_collect fuel env' sg clock ids others cids request app = Some r"
proof (cases "extract_bearer_token request")
  case (Some token)
  let ?d = "http_dispatch env' sg cids ''channels_collect'' (body_of request) token (connection_id_of request) app"
  have "\<exists>r. collect_poll fuel env' sg clock ids others (body_of request) token (connection_id_of request) n timeout (snd ?d) =
      Some r"
    if t: "to_float env' (dget_default (body_of request) ''timeout'' (PInt 0)) = Inr timeout" for n timeout
  proof -
    have "wd_now (ap_world (snd ?d)) + timeout \<le> clock (0 + k)" using assms(2) [OF t] assms(1) by simp
    from collect_loop_ends [OF assms(3), where clock = clock and i = 0, OF this]
    show ?thesis unfolding collect_poll_def map_option_eq_Some by blast
  qed
  then show ?thesis
    by (auto simp: http_op_channels_collect_def Some split_beta Let_def split: sum.split)
qed (simp add: http_op_channels_collect_def)

text \<open>
  C30. \<open>channels_collect\<close> returns: on a started application, if the clock reaches the deadline at
  one of the first \<open>fuel\<close> tests of the loop, the handler answers, whatever the replies and the
  requests of others in between.
\<close>

theorem http_collect_returns:
  assumes "fst (create_app env vs lenv port [] environ allowlist ename nodisc keys now s registry_init) = Inr app0"
    and "length (snd keys) = 32" and "http_run env' sg app0 app"
    and "\<And>timeout. to_float env' (dget_default (body_of request) ''timeout'' (PInt 0)) = Inr timeout \<Longrightarrow>
      wd_now (ap_world app) + timeout \<le> clock k"
    and "k < fuel"
  shows "\<exists>r. http_op_channels_collect fuel env' sg clock ids others cids request app = Some r"
proof -
  have "http_ok (default_pipeline env vs port) app"
    using http_run_ok [OF assms(3) app_started(1) [OF assms(1,2)]] by blast
  then show ?thesis using assms(4,5) by (rule collect_answers)
qed

theorem http_collect_returns_witness:
  "\<exists>r. http_op_channels_collect 3 toy_env toy_signer (\<lambda>i. real i) (\<lambda>i. toy_ids) (\<lambda>i app. app) toy_ids
     (toy_http_request ''a'' [(''timeout'', PInt 2), (''count'', PInt 1)]) (toy_app memory_init) = Some r"
proof -
  have "wd_now (ap_world (toy_app memory_init)) + timeout \<le> real 2"
    if "to_float toy_env (dget_default (body_of (toy_http_request ''a'' [(''timeout'', PInt 2), (''count'', PInt 1)]))
      ''timeout'' (PInt 0)) = Inr timeout" for timeout
    using that by (simp add: toy_http_request_def body_of_def dget_default_def to_float_def toy_app_def toy_world_def)
  then show ?thesis
    by (intro http_collect_returns [OF toy_app_started [of memory_init] _ run_start, where k = 2]) (simp_all add: toy_key_def)
qed

text \<open>
  C31. \<open>channels_collect\<close> loses the replies that have already arrived: a message that waits for the
  caller when the request comes in (among the 50 that one \<open>recv\<close> hands out) is not part of the
  answer, whatever its \<open>reply_to\<close>, and afterwards the store counts it as delivered. The call that
  only validates the input has drained it.
\<close>

theorem http_collect_discards:
  assumes "fst (create_app env vs lenv memory_port [] environ allowlist ename nodisc keys now s registry_init) = Inr app0"
    and "length (snd keys) = 32" and "mem_inv s" and "http_run env' sg app0 app"
    and "extract_bearer_token request = Some token"
    and "dget (body_of request) ''agent_id'' = None" and "dget (body_of request) ''channels'' = None"
    and "dget (body_of request) ''max_messages'' = None"
    and "waiting \<in> set (mem_eligible token None 50 (wd_store (ap_world app)))"
    and "\<And>i app. http_run env' sg app (others i app)"
    and "http_op_channels_collect fuel env' sg clock ids others cids request app = Some (r, app')"
  shows "handed_over token (mm_id waiting) (wd_store (ap_world app')) \<and>
    (\<forall>resp. r = Inr resp \<longrightarrow> str_int (mm_id waiting) \<notin> wire_id ` set (response_messages resp))"
proof -
  let ?p = "default_pipeline env vs memory_port" and ?x = "str_int (mm_id waiting)"
  let ?P = "\<lambda>app :: memory_store http_app. http_ok ?p app \<and> handed_over token (mm_id waiting) (wd_store (ap_world app))"
  let ?d = "http_dispatch env' sg cids ''channels_collect'' (body_of request) token (connection_id_of request) app"
  note start = app_started(1) [OF assms(1,2)] and name = bearer_token_name [OF assms(5)]
  have ok: "http_ok ?p app" using http_run_ok [OF assms(4) start] by blast
  have "wd_store (ap_world app0) = s"
    using assms(1) by (auto simp: create_app_def Let_def bind_res_eq_Inr split: sum.splits prod.splits if_splits)
  then have inv: "mem_inv (wd_store (ap_world app))"
    using mcp_mem.http_run_inv [OF assms(4) start] assms(3) by simp
  note sentinel = sentinel_dispatch [OF ok name(2) assms(6-8), of env' sg cids "connection_id_of request"]
  have P0: "?P (snd ?d)"
    using recv_hands_over [OF inv assms(9)] sentinel(2) http_dispatch_ok [OF ok] by simp
  have P_dispatch: "?P (snd (http_dispatch env' sg cids operation body token conn app))" if "?P app"
    for cids operation body conn and app :: "memory_store http_app"
    using that http_dispatch_ok [where env = env and vs = vs and port = memory_port and app = app]
      port_invariant.http_dispatch_inv [OF handed_over_port, where env = env and vs = vs and app = app] by simp
  have P_others: "?P (others i app)" if "?P app" for i and app :: "memory_store http_app"
    using that http_run_ok [OF assms(10), where env = env and vs = vs and port = memory_port]
      port_invariant.http_run_inv [OF handed_over_port assms(10), where env = env and vs = vs] by simp
  have fresh: "\<forall>m \<in> set (response_messages resp). wire_id m \<noteq> ?x"
    if "?P app" "fst (http_dispatch env' sg cids ''recv'' [(''max_messages'', PInt k)] token conn app) = Inr resp"
    for cids k conn resp and app :: "memory_store http_app"
    using recv_dispatch_fresh [OF conjunct1 [OF that(1)] name conjunct2 [OF that(1)] that(2)] by force
  obtain n where n: "py_int (dget_default (body_of request) ''count'' (PInt 0)) = Inr n \<or>
      (\<exists>e. py_int (dget_default (body_of request) ''count'' (PInt 0)) = Inl e)" by (metis sum.exhaust)
  have loop: "?P app' \<and> (\<forall>resp. r = Inr resp \<longrightarrow> (\<forall>m \<in> set (response_messages resp). wire_id m \<noteq> ?x))"
    if poll: "collect_poll fuel env' sg clock ids others (body_of request) token (connection_id_of request) n timeout (snd ?d) =
      Some (r, app')" for n timeout
  proof -
    obtain lr where lr: "collect_loop fuel
          (\<lambda>cids k. http_dispatch env' sg cids ''recv'' [(''max_messages'', PInt k)] token (connection_id_of request))
          clock ids others (py_str (pe_repr env') (dget_default (body_of request) ''reply_to'' (PStr [])))
          (\<not> is_list (dget_default (body_of request) ''status_filter'' PNone)) n (wd_now (ap_world (snd ?d)) + timeout) 0 []
          (snd ?d) = Some (lr, app')"
      "r = (case lr of Inl e \<Rightarrow> Inr (internal_error_response []) | Inr (Inl resp) \<Rightarrow> Inr resp
        | Inr (Inr collected) \<Rightarrow> Inr (collected_response n collected))"
      using poll by (auto simp: collect_poll_def split_beta)
    have all: "?P app' \<and> (\<forall>ms. lr = Inr (Inr ms) \<longrightarrow> (\<forall>m \<in> set ms. wire_id m \<noteq> ?x)) \<and>
        (\<forall>resp. lr = Inr (Inl resp) \<longrightarrow> (\<forall>m \<in> set (response_messages resp). wire_id m \<noteq> ?x))"
      by (rule collect_loop_inv [OF lr(1), where P = ?P]) (use P_dispatch P_others fresh P0 in auto)
    have none: "response_messages (internal_error_response e) = []" for e
      by (simp add: response_messages_def internal_error_response_def sox_error_response_def dget_default_def)
    have list: "response_messages (collected_response n ms) = ms" for ms
      by (simp add: response_messages_def collected_response_def dget_default_def comp_def)
    show ?thesis using all by (auto simp: lr(2) none list split: sum.splits)
  qed
  have "?P app' \<and> (\<forall>resp. r = Inr resp \<longrightarrow> (\<forall>m \<in> set (response_messages resp). wire_id m \<noteq> ?x))"
    using assms(11) sentinel(1) P0 loop
    by (auto simp: http_op_channels_collect_def assms(5) split_beta Let_def split: sum.splits)
  then show ?thesis by auto
qed

text \<open>A waiting reply: subscribed, sent by another agent, and asked for by its number.\<close>

theorem http_collect_discards_witness:
  "map mm_id (mem_eligible ''a'' None 50 (wd_store (ap_world (toy_app one_message_store)))) = [1] \<and>
   (\<exists>r app'. http_op_channels_collect 3 toy_env toy_signer (\<lambda>i. real i) (\<lambda>i. toy_ids) (\<lambda>i app. app) toy_ids
      (toy_http_request ''a'' [(''timeout'', PInt 2), (''count'', PInt 1), (''reply_to'', PStr ''1'')])
      (toy_app one_message_store) = Some (r, app') \<and>
     handed_over ''a'' 1 (wd_store (ap_world app')))"
proof (intro conjI)
  have store: "wd_store (ap_world (toy_app one_message_store)) = one_message_store"
    by (simp add: toy_app_def toy_world_def)
  then show ids: "map mm_id (mem_eligible ''a'' None 50 (wd_store (ap_world (toy_app one_message_store)))) = [1]"
    using one_message_eligible by simp
  then obtain w where w: "w \<in> set (mem_eligible ''a'' None 50 (wd_store (ap_world (toy_app one_message_store))))" "mm_id w = 1"
    by auto
  have inv: "mem_inv one_message_store"
    unfolding one_message_store_def by (intro mem_step_inv mem_inv_init)
  let ?rq = "toy_http_request ''a'' [(''timeout'', PInt 2), (''count'', PInt 1), (''reply_to'', PStr ''1'')]"
  have token: "extract_bearer_token ?rq = Some ''a''" by code_simp
  have key: "length (snd (toy_key, toy_key)) = 32" by (simp add: toy_key_def)
  have body: "dget (body_of ?rq) ''agent_id'' = None" "dget (body_of ?rq) ''channels'' = None"
    "dget (body_of ?rq) ''max_messages'' = None"
    by (simp_all add: toy_http_request_def body_of_def)
  obtain r app' where res: "http_op_channels_collect 3 toy_env toy_signer (\<lambda>i. real i) (\<lambda>i. toy_ids) (\<lambda>i app. app)
      toy_ids ?rq (toy_app one_message_store) = Some (r, app')"
    using collect_answers [OF app_started(1) [OF toy_app_started [of one_message_store] key],
        where env' = toy_env and request = ?rq and clock = real and k = 2 and fuel = 3 and sg = toy_signer and
          ids = "\<lambda>i. toy_ids" and others = "\<lambda>i app. app" and cids = toy_ids]
    by (auto simp: toy_http_request_def body_of_def dget_default_def to_float_def toy_app_def toy_world_def)
  have "handed_over ''a'' 1 (wd_store (ap_world app'))"
    using http_collect_discards [OF toy_app_started key inv run_start token body w(1) run_start res]
    unfolding w(2) by blast
  then show "\<exists>r app'. http_op_channels_collect 3 toy_env toy_signer (\<lambda>i. real i) (\<lambda>i. toy_ids) (\<lambda>i app. app)
      toy_ids ?rq (toy_app one_message_store) = Some (r, app') \<and> handed_over ''a'' 1 (wd_store (ap_world app'))"
    using res by blast
qed

end
