(* ===== verification/Schema_Strict.thy ===== *)
theory Schema_Strict
  imports Server_Properties
begin

text \<open>
  The schema-strict plugin (sox_plugin_schema_strict/middleware.py), a middleware that checks the
  input of a call against the JSON schema of its operation. The file system and the jsonschema
  package are parameters: which directories and schema files exist, and the errors a compiled
  schema reports for a value.
\<close>

section \<open>Validation errors\<close>

text \<open>
  The elements of an error path: list indices and property names. Python refuses to compare the
  two kinds; at one place of a document only one of them occurs.
\<close>

datatype path_elem = PathIndex int | PathKey string

instantiation path_elem :: linorder
begin

fun less_eq_path_elem :: "path_elem \<Rightarrow> path_elem \<Rightarrow> bool" where
  "less_eq_path_elem (PathIndex i) (PathIndex j) = (i \<le> j)"
| "less_eq_path_elem (PathIndex i) (PathKey t) = True"
| "less_eq_path_elem (PathKey s) (PathIndex j) = False"
| "less_eq_path_elem (PathKey s) (PathKey t) = (s \<le> t)"

definition less_path_elem :: "path_elem \<Rightarrow> path_elem \<Rightarrow> bool" where
  "less_path_elem a b = (a \<le> b \<and> \<not> b \<le> a)"

instance
proof
  fix x y z :: path_elem
  show "x < y \<longleftrightarrow> x \<le> y \<and> \<not> y \<le> x" by (simp add: less_path_elem_def)
  show "x \<le> x" by (cases x) simp_all
  show "x \<le> y \<Longrightarrow> y \<le> z \<Longrightarrow> x \<le> z" by (cases x; cases y; cases z) simp_all
  show "x \<le> y \<Longrightarrow> y \<le> x \<Longrightarrow> x = y" by (cases x; cases y) simp_all
  show "x \<le> y \<or> y \<le> x" by (cases x; cases y) (simp_all add: linear)
qed

end

fun path_text :: "path_elem \<Rightarrow> string" where
  "path_text (PathIndex i) = str_int i"
| "path_text (PathKey s) = s"

record json_error =
  je_path :: "path_elem list"
  je_message :: string

type_synonym schema_validator = "pydict \<Rightarrow> json_error list"

text \<open>
  \<open>_build_violations\<close>; for the errors of a whole document \<open>path\<close> and \<open>absolute_path\<close> agree. Two paths
  into one document that agree up to a place continue with two keys of the same object or two indices of
  the same array, so the comparison of a string with an integer, at which Python would raise, does not occur.
\<close>

definition build_violations :: "schema_validator \<Rightarrow> pydict \<Rightarrow> pydict list" where
  "build_violations validator body =
     map (\<lambda>err. [(''field'', PStr (let field = join ''.'' (map path_text (je_path err))
                     in if field \<noteq> [] then field else ''<root>'')),
                (''issue'', PStr (je_message err))])
       (sort_key je_path (validator body))"

definition make_validation_error_envelope :: "string \<Rightarrow> pydict list \<Rightarrow> pydict" where
  "make_validation_error_envelope op_name violations =
     [(''error_code'', PStr ''validation_error''),
      (''message'', PStr (''Input does not conform to '' @ op_name @ ''.input.schema.json.'')),
      (''detail'', PDict [(''violations'', PList (map PDict violations))])]"

section \<open>Schemas\<close>

text \<open>
  What the plugin sees of the machine: existing directories, the working directory with its
  parents, the content of a file (the message of the decoder when it is not JSON) and the compilation of a schema.
\<close>

record schema_world =
  sw_is_dir :: "string \<Rightarrow> bool"
  sw_cwd_and_parents :: "string list"
  sw_file :: "string \<Rightarrow> (string + pyval) option"
  sw_compile :: "pyval \<Rightarrow> schema_validator"

definition path_join :: "string \<Rightarrow> string \<Rightarrow> string" where
  "path_join dir name = (if dir = ''/'' then dir @ name else dir @ ''/'' @ name)"

definition find_schemas_dir_from_cwd :: "schema_world \<Rightarrow> string option" where
  "find_schemas_dir_from_cwd sw =
     find (sw_is_dir sw) (map (\<lambda>d. path_join d ''spec/operations'') (take 8 (sw_cwd_and_parents sw)))"

definition resolve_schemas_dir ::
  "schema_world \<Rightarrow> (string \<times> string) list \<Rightarrow> string option \<Rightarrow> string option"
where
  "resolve_schemas_dir sw environ explicit =
     (case explicit of
        Some dir \<Rightarrow> Some dir
      | None \<Rightarrow>
          (let env_val = dget_default environ ''SOX_PLUGIN_IO_SOX_SCHEMA_STRICT_SCHEMAS_DIR'' []
           in if env_val \<noteq> [] \<and> sw_is_dir sw env_val then Some env_val
              else find_schemas_dir_from_cwd sw))"

text \<open>\<open>_get_validator\<close> with its cache.\<close>

type_synonym validator_cache = "(string \<times> schema_validator) list"

definition get_validator ::
  "schema_world \<Rightarrow> string option \<Rightarrow> string \<Rightarrow> validator_cache \<Rightarrow>
     schema_validator option result \<times> validator_cache"
where
  "get_validator sw dir op_name cache =
     (case dget cache op_name of
        Some v \<Rightarrow> (Inr (Some v), cache)
      | None \<Rightarrow>
          (case dir of
             None \<Rightarrow> (Inr None, cache)
           | Some d \<Rightarrow>
               (case sw_file sw (path_join d (op_name @ ''.input.schema.json'')) of
                  None \<Rightarrow> (Inr None, cache)
                | Some (Inl msg) \<Rightarrow> (Inl (ValueError msg), cache)
                | Some (Inr schema) \<Rightarrow>
                    (let validator = sw_compile sw schema
                     in (Inr (Some validator), dset cache op_name validator)))))"

text \<open>The cache holds what the files say, so a lookup answers as the first one does.\<close>

definition cache_ok :: "schema_world \<Rightarrow> string option \<Rightarrow> validator_cache \<Rightarrow> bool" where
  "cache_ok sw dir cache \<longleftrightarrow>
     (\<forall>op_name v. dget cache op_name = Some v \<longrightarrow> fst (get_validator sw dir op_name []) = Inr (Some v))"

lemma cache_ok_init [simp]: "cache_ok sw dir []"
  by (simp add: cache_ok_def)

lemma get_validator_cache:
  "snd (get_validator sw dir op_name cache) = cache \<or>
   (\<exists>v. snd (get_validator sw dir op_name cache) = dset cache op_name v \<and>
      fst (get_validator sw dir op_name []) = Inr (Some v))"
  by (simp add: get_validator_def Let_def split: option.split sum.split)

lemma get_validator_cached:
  assumes "cache_ok sw dir cache"
  shows "fst (get_validator sw dir op_name cache) = fst (get_validator sw dir op_name [])"
    and "cache_ok sw dir (snd (get_validator sw dir op_name cache))"
proof -
  show "fst (get_validator sw dir op_name cache) = fst (get_validator sw dir op_name [])"
  proof (cases "dget cache op_name")
    case (Some v)
    then have "fst (get_validator sw dir op_name []) = Inr (Some v)" using assms by (simp add: cache_ok_def)
    then show ?thesis using Some by (simp add: get_validator_def)
  qed (simp add: get_validator_def Let_def split: option.split sum.split)
  show "cache_ok sw dir (snd (get_validator sw dir op_name cache))"
    using get_validator_cache [of sw dir op_name cache] assms by (auto simp: cache_ok_def split: if_splits)
qed

definition validator_of :: "schema_world \<Rightarrow> string option \<Rightarrow> string \<Rightarrow> schema_validator option result" where
  "validator_of sw dir op_name = fst (get_validator sw dir op_name [])"

section \<open>The middleware\<close>

definition pass_through :: "call_context \<Rightarrow> 's \<Rightarrow> 's act" where
  "pass_through ctx w = CallNext ctx w (\<lambda>(r, c, w'). Return r c w')"

definition schema_strict_call :: "schema_world \<Rightarrow> string option \<Rightarrow> call_context \<Rightarrow> 's \<Rightarrow> 's act" where
  "schema_strict_call sw dir ctx w =
     (case validator_of sw dir (cx_operation ctx) of
        Inl e \<Rightarrow> Return (Inl e) ctx w
      | Inr None \<Rightarrow> pass_through ctx w
      | Inr (Some validator) \<Rightarrow>
          (let violations = build_violations validator (cx_input ctx)
           in if violations \<noteq> []
              then Return (Inl (ShortCircuit
                     (make_validation_error_envelope (cx_operation ctx) violations))) ctx w
              else pass_through ctx w))"

definition schema_strict :: "schema_world \<Rightarrow> string option \<Rightarrow> 's middleware" where
  "schema_strict sw dir = \<lparr>mw_name = ''schema_strict'', mw_kind = Some ''transformer'',
     mw_must_run_before = [''store_dispatch''], mw_must_run_after = [], mw_call = schema_strict_call sw dir\<rparr>"

text \<open>The entry point of the plugin.\<close>

definition schema_strict_factory :: "schema_world \<Rightarrow> (string \<times> string) list \<Rightarrow> 's middleware" where
  "schema_strict_factory sw environ = schema_strict sw (resolve_schemas_dir sw environ None)"

section \<open>In front of the default chain\<close>

lemma strict_position:
  assumes "extend_pipeline_with_registry (default_pipeline env vs port) g terminal = Inr p"
    and "resolved_order g = [pid]" and "rg_get pid g = Inr (schema_strict sw dir)"
  shows "p = \<lparr>pl_middlewares = [schema_strict sw dir, auth_middleware env vs, store_dispatch env port],
    pl_terminal = terminal\<rparr>"
  using assms
  by (simp add: extend_pipeline_with_registry_def default_pipeline_def insert_plugin_def latest_ok_def
      earliest_ok_def schema_strict_def auth_middleware_def store_dispatch_def Let_def)

lemma dispatch_strict:
  obtains r t corr where
    "dispatch \<lparr>pl_middlewares = [schema_strict sw dir, auth_middleware env vs, store_dispatch env port],
       pl_terminal = terminal\<rparr> fresh operation inp conn md w =
     (case schema_strict_call sw dir (call_ctx fresh operation inp conn md) w of
        Return res c' w' \<Rightarrow> (attach_trace (recover res) t corr, t, w')
      | CallNext c' w' k \<Rightarrow> (attach_trace (fst (chain_result env vs port c' w')) t corr, t,
          snd (chain_result env vs port c' w')))"
proof -
  let ?c = "call_ctx fresh operation inp conn md"
  let ?t = "map (new_entry (cx_correlation_id ?c)) [schema_strict sw dir, auth_middleware env vs, store_dispatch env port]"
  have call: "mw_call (schema_strict sw dir) = schema_strict_call sw dir" by (simp add: schema_strict_def)
  have d: "dispatch \<lparr>pl_middlewares = [schema_strict sw dir, auth_middleware env vs, store_dispatch env port],
       pl_terminal = terminal\<rparr> fresh operation inp conn md w =
     (case call_chain [schema_strict sw dir, auth_middleware env vs, store_dispatch env port] 0 terminal ?c w ?t of
       (r, c', s', t') \<Rightarrow> (attach_trace (recover r) t' (cx_correlation_id ?c), t', s'))"
    by (simp add: dispatch_def call_ctx_def [symmetric] Let_def del: call_chain.simps)
  show thesis
  proof (cases "schema_strict_call sw dir ?c w")
    case (Return res c' w')
    then show thesis by (intro that) (simp add: d call)
  next
    case (CallNext c' w' k)
    then have k: "k = (\<lambda>(r, c, w'). Return r c w')"
      by (auto simp: schema_strict_call_def pass_through_def Let_def split: sum.splits option.splits if_splits)
    obtain r c2 t2 where chain:
      "call_chain [auth_middleware env vs, store_dispatch env port] 1 terminal c' w' ?t =
         (r, c2, snd (chain_result env vs port c' w'), t2)" "recover r = fst (chain_result env vs port c' w')"
      by (rule call_chain_default)
    show thesis
      by (rule that [of "t2[0 := close_entry r (t2 ! 0)]" "cx_correlation_id ?c"])
        (use chain in \<open>simp add: d call CallNext k del: list.map\<close>)
  qed
qed

definition same_answer :: "pydict \<times> trace \<times> 's \<Rightarrow> pydict \<times> trace \<times> 's \<Rightarrow> bool" where
  "same_answer d d' \<longleftrightarrow> snd (snd d) = snd (snd d') \<and> (\<forall>k. k = ''metadata'' \<or> dget (fst d) k = dget (fst d') k)"

text \<open>
  C32. The plugin, loaded alone, runs before \<open>auth\<close> and \<open>store_dispatch\<close>. A call whose input
  violates the schema of its operation changes nothing, not even the replay cache, and is
  answered with all violations in the order of their paths; every other call is answered, and
  changes the world, as by the default chain. A schema file that is not JSON turns into an
  internal error.
\<close>

theorem schema_strict_gate:
  assumes "extend_pipeline_with_registry (default_pipeline env vs port) g terminal = Inr p"
    and "resolved_order g = [pid]" and "rg_get pid g = Inr (schema_strict sw dir)"
    and "d = dispatch p fresh operation inp conn md w"
  shows "pl_order p = [''schema_strict'', ''auth'', ''store_dispatch''] \<and>
    (case validator_of sw dir operation of
       Inl e \<Rightarrow> snd (snd d) = w \<and> dget (fst d) ''error_code'' \<noteq> None
     | Inr None \<Rightarrow> same_answer d (dispatch (default_pipeline env vs port) fresh operation inp conn md w)
     | Inr (Some validator) \<Rightarrow>
         if validator inp = []
         then same_answer d (dispatch (default_pipeline env vs port) fresh operation inp conn md w)
         else snd (snd d) = w \<and> dget (fst d) ''error_code'' = Some (PStr ''validation_error'') \<and>
           dget (fst d) ''detail'' =
             Some (PDict [(''violations'', PList (map PDict (build_violations validator inp)))]))"
proof -
  have p: "p = \<lparr>pl_middlewares = [schema_strict sw dir, auth_middleware env vs, store_dispatch env port],
      pl_terminal = terminal\<rparr>"
    by (rule strict_position [OF assms(1-3)])
  let ?c = "call_ctx fresh operation inp conn md"
  obtain t corr where d: "d = (case schema_strict_call sw dir ?c w of
        Return res c' w' \<Rightarrow> (attach_trace (recover res) t corr, t, w')
      | CallNext c' w' k \<Rightarrow> (attach_trace (fst (chain_result env vs port c' w')) t corr, t,
          snd (chain_result env vs port c' w')))"
    unfolding assms(4) p by (rule dispatch_strict)
  have none: "build_violations validator inp = [] \<longleftrightarrow> validator inp = []" for validator
    by (simp add: build_violations_def) (metis length_0_conv length_sort)
  have same: "same_answer (attach_trace (fst (chain_result env vs port ?c w)) t corr, t, snd (chain_result env vs port ?c w))
      (dispatch (default_pipeline env vs port) fresh operation inp conn md w)"
  proof -
    have "dget (attach_trace (fst (chain_result env vs port ?c w)) t corr) k =
        dget (fst (dispatch (default_pipeline env vs port) fresh operation inp conn md w)) k" if "k \<noteq> ''metadata''" for k
      using that by (simp add: dispatch_default_response attach_trace_get)
    then show ?thesis unfolding same_answer_def by (simp add: dispatch_default_world) blast
  qed
  have error: "\<exists>msg. e = ValueError msg" if "validator_of sw dir operation = Inl e" for e
    using that by (auto simp: validator_of_def get_validator_def Let_def split: option.splits sum.splits)
  have "pl_order p = [''schema_strict'', ''auth'', ''store_dispatch'']"
    by (simp add: p pl_order_def schema_strict_def auth_middleware_def store_dispatch_def)
  moreover have "snd (snd d) = w \<and> dget (fst d) ''error_code'' \<noteq> None" if e: "validator_of sw dir operation = Inl e" for e
    using error [OF e] e by (auto simp: d schema_strict_call_def recover_def make_internal_error_def attach_trace_get)
  moreover have "same_answer d (dispatch (default_pipeline env vs port) fresh operation inp conn md w)"
    if "validator_of sw dir operation = Inr None \<or>
      (\<exists>validator. validator_of sw dir operation = Inr (Some validator) \<and> validator inp = [])"
    using that same by (auto simp: d schema_strict_call_def pass_through_def none Let_def)
  moreover have "snd (snd d) = w \<and> dget (fst d) ''error_code'' = Some (PStr ''validation_error'') \<and>
      dget (fst d) ''detail'' = Some (PDict [(''violations'', PList (map PDict (build_violations validator inp)))])"
    if "validator_of sw dir operation = Inr (Some validator)" "validator inp \<noteq> []" for validator
    using that by (simp add: d schema_strict_call_def none recover_def make_validation_error_envelope_def
        attach_trace_get Let_def)
  ultimately show ?thesis by (auto split: sum.split option.split)
qed

text \<open>A schema that wants a channel, and a call without one.\<close>

definition toy_schemas :: schema_world where
  "toy_schemas = \<lparr>sw_is_dir = (\<lambda>d. False), sw_cwd_and_parents = [], sw_file = (\<lambda>f. Some (Inr PNone)),
     sw_compile = (\<lambda>s inp. if has_key inp ''channel'' then [] else [\<lparr>je_path = [], je_message = ''no channel''\<rparr>])\<rparr>"

definition toy_registry :: "memory_store world registry_state" where
  "toy_registry = \<lparr>rg_factories = [(''io.sox.schema-strict'', schema_strict toy_schemas (Some ''d''))],
     rg_loaded_manifests = [], rg_resolved_order = Some [''io.sox.schema-strict'']\<rparr>"

theorem schema_strict_gate_witness:
  "\<exists>p. extend_pipeline_with_registry (default_pipeline toy_env toy_scheme memory_port) toy_registry
       (store_dispatch_call toy_env memory_port) = Inr p \<and>
     pl_order p = [''schema_strict'', ''auth'', ''store_dispatch''] \<and>
     snd (snd (dispatch p ''u'' ''send'' [] ''h'' None (toy_world memory_init))) = toy_world memory_init \<and>
     dget (fst (dispatch p ''u'' ''send'' [] ''h'' None (toy_world memory_init))) ''detail'' = Some (PDict [(''violations'',
       PList [PDict [(''field'', PStr ''<root>''), (''issue'', PStr ''no channel'')]])])"
proof -
  have g: "resolved_order toy_registry = [''io.sox.schema-strict'']"
    "rg_get ''io.sox.schema-strict'' toy_registry = Inr (schema_strict toy_schemas (Some ''d''))"
    by (simp_all add: toy_registry_def resolved_order_def rg_get_def)
  obtain p where p: "extend_pipeline_with_registry (default_pipeline toy_env toy_scheme memory_port) toy_registry
       (store_dispatch_call toy_env memory_port) = Inr p"
    by (simp add: extend_pipeline_with_registry_def default_pipeline_def g)
  have v: "validator_of toy_schemas (Some ''d'') ''send'' = Inr (Some (sw_compile toy_schemas PNone))"
    by (simp add: validator_of_def get_validator_def toy_schemas_def Let_def)
  have violations: "build_violations (sw_compile toy_schemas PNone) [] =
      [[(''field'', PStr ''<root>''), (''issue'', PStr ''no channel'')]]" "sw_compile toy_schemas PNone [] \<noteq> []"
    by (simp_all add: build_violations_def toy_schemas_def has_key_def)
  show ?thesis
    using schema_strict_gate [OF p g refl, of "''u''" "''send''" "[]" "''h''" None "toy_world memory_init"] p
    by (auto simp: v violations)
qed

end
