(* ===== verification/Chat_Store.thy ===== *)
theory Chat_Store
  imports Server_Chain
begin

text \<open>
  The state of the chat interface (tui/state.py): channels with unread counters, messages and
  the agent roster. The observers are held as names; \<open>ct_called\<close> lists their notifications.
\<close>

section \<open>The records\<close>

record channel_state =
  ch_name :: string
  ch_subscriber_count :: int
  ch_unread :: int
  ch_focused :: bool

record message_state =
  ms_message_id :: string
  ms_channel :: string
  ms_sender :: string
  ms_body :: pydict
  ms_sent_at :: time
  ms_seq :: int
  ms_reply_to :: "string option"
  ms_ack_status :: string
  ms_thread_expanded :: bool

record agent_state =
  as_agent_id :: string
  as_presence :: string
  as_last_heartbeat_at :: int
  as_unread_dm :: int

record chat_store =
  ct_channels :: "(string \<times> channel_state) list"
  ct_messages :: "(string \<times> message_state) list"
  ct_channel_messages :: "(string \<times> string list) list"
  ct_agents :: "(string \<times> agent_state) list"
  ct_focused_channel :: "string option"
  ct_callbacks :: "string list"
  ct_called :: "string list"

definition new_channel :: "string \<Rightarrow> channel_state" where
  "new_channel name = \<lparr>ch_name = name, ch_subscriber_count = 0, ch_unread = 0, ch_focused = False\<rparr>"

definition chat_init :: chat_store where
  "chat_init = \<lparr>ct_channels = [], ct_messages = [], ct_channel_messages = [], ct_agents = [],
     ct_focused_channel = None, ct_callbacks = [], ct_called = []\<rparr>"

definition on_change :: "string \<Rightarrow> chat_store \<Rightarrow> chat_store" where
  "on_change callback s = s\<lparr>ct_callbacks := ct_callbacks s @ [callback]\<rparr>"

definition notify :: "chat_store \<Rightarrow> chat_store" where
  "notify s = s\<lparr>ct_called := ct_called s @ ct_callbacks s\<rparr>"

section \<open>Views\<close>

definition channels_view :: "chat_store \<Rightarrow> channel_state list" where
  "channels_view s = sort_key ch_name (map snd (ct_channels s))"

definition agents_view :: "chat_store \<Rightarrow> agent_state list" where
  "agents_view s = sort_key as_agent_id (map snd (ct_agents s))"

definition messages_for :: "chat_store \<Rightarrow> string \<Rightarrow> message_state list" where
  "messages_for s ch =
     (let ids = dget_default (ct_channel_messages s) ch []
      in sort_key ms_seq (List.map_filter (dget (ct_messages s)) ids))"

definition focused_messages :: "chat_store \<Rightarrow> message_state list" where
  "focused_messages s = (case ct_focused_channel s of None \<Rightarrow> [] | Some ch \<Rightarrow> messages_for s ch)"

section \<open>Mutations\<close>

text \<open>
  The \<open>MessageState\<close> of a wire message; \<open>float\<close> and \<open>int\<close> raise on a string that is no
  number. \<open>now\<close> is the clock, read for a missing \<open>sent_at\<close>.
\<close>

definition message_of :: "py_env \<Rightarrow> time \<Rightarrow> string \<Rightarrow> pydict \<Rightarrow> message_state result" where
  "message_of env now message_id msg =
     bind_res (py_float env (dget_default msg ''sent_at'' (PFloat now))) (\<lambda>sent_at.
     bind_res (int_or 0 (dget_default msg ''seq'' (PInt 0))) (\<lambda>seq.
       Inr \<lparr>ms_message_id = message_id, ms_channel = get_str env msg ''channel'' [],
         ms_sender = get_str env msg ''sender'' [],
         ms_body = (case dget_default msg ''body'' (PDict []) of PDict d \<Rightarrow> d | _ \<Rightarrow> []),
         ms_sent_at = (case sent_at of Some x \<Rightarrow> x | None \<Rightarrow> now), ms_seq = seq,
         ms_reply_to = get_opt_str env msg ''reply_to'', ms_ack_status = ''pending'',
         ms_thread_expanded = False\<rparr>))"

definition set_unread :: "(int \<Rightarrow> int) \<Rightarrow> channel_state \<Rightarrow> channel_state" where
  "set_unread f c = c\<lparr>ch_unread := f (ch_unread c)\<rparr>"

definition store_message :: "message_state \<Rightarrow> chat_store \<Rightarrow> chat_store" where
  "store_message ms s =
     (let ch = ms_channel ms;
          c = (case dget (ct_channels s) ch of Some c \<Rightarrow> c | None \<Rightarrow> new_channel ch)
      in s\<lparr>ct_messages := dset (ct_messages s) (ms_message_id ms) ms,
           ct_channel_messages := dset (ct_channel_messages s) ch
             (dget_default (ct_channel_messages s) ch [] @ [ms_message_id ms]),
           ct_channels := dset (ct_channels s) ch
             (if Some ch \<noteq> ct_focused_channel s then set_unread (\<lambda>n. n + 1) c else c)\<rparr>)"

definition ingest_message :: "py_env \<Rightarrow> time \<Rightarrow> pydict \<Rightarrow> chat_store \<Rightarrow> unit result \<times> chat_store" where
  "ingest_message env now msg s =
     (let message_id = get_str env msg ''message_id'' []
      in if message_id = [] then (Inr (), s)
         else if has_key (ct_messages s) message_id then (Inr (), s)
         else case message_of env now message_id msg of
                Inl e \<Rightarrow> (Inl e, s)
              | Inr ms \<Rightarrow> (Inr (), notify (store_message ms s)))"

definition unfocus :: "string option \<Rightarrow> (string \<times> channel_state) list \<Rightarrow> (string \<times> channel_state) list" where
  "unfocus focused chs =
     (case focused of
        Some f \<Rightarrow> if f \<noteq> [] \<and> has_key chs f then dset chs f ((the (dget chs f))\<lparr>ch_focused := False\<rparr>) else chs
      | None \<Rightarrow> chs)"

definition focus_channel :: "string \<Rightarrow> chat_store \<Rightarrow> chat_store" where
  "focus_channel ch s =
     (let chs = unfocus (ct_focused_channel s) (ct_channels s);
          c = (case dget chs ch of Some c \<Rightarrow> c | None \<Rightarrow> new_channel ch)
      in notify (s\<lparr>ct_focused_channel := Some ch,
           ct_channels := dset chs ch (c\<lparr>ch_focused := True, ch_unread := 0\<rparr>)\<rparr>))"

definition update_agent :: "py_env \<Rightarrow> pydict \<Rightarrow> (string \<times> agent_state) list \<Rightarrow> (string \<times> agent_state) list" where
  "update_agent env entry agents =
     (let aid = get_str env entry ''agent_id'' []
      in if aid = [] then agents
         else dset agents aid \<lparr>as_agent_id = aid,
                as_presence = get_str env entry ''presence_state'' ''unknown'',
                as_last_heartbeat_at = (case num_or 0 (dget_default entry ''last_heartbeat_at'' (PInt 0)) of
                  Inr i \<Rightarrow> i | Inl _ \<Rightarrow> 0),
                as_unread_dm = (case dget agents aid of Some a \<Rightarrow> as_unread_dm a | None \<Rightarrow> 0)\<rparr>)"

definition update_agents :: "py_env \<Rightarrow> pydict list \<Rightarrow> chat_store \<Rightarrow> chat_store" where
  "update_agents env entries s =
     notify (s\<lparr>ct_agents := foldl (\<lambda>agents e. update_agent env e agents) (ct_agents s) entries\<rparr>)"

definition update_channel ::
  "py_env \<Rightarrow> pydict \<Rightarrow> (string \<times> channel_state) list \<Rightarrow> (string \<times> channel_state) list"
where
  "update_channel env entry chs =
     (let name = get_str env entry ''name'' [];
          sub_count = (case num_or 0 (dget_default entry ''subscriber_count'' (PInt 0)) of Inr i \<Rightarrow> i | Inl _ \<Rightarrow> 0)
      in if name = [] then chs
         else dset chs name ((case dget chs name of Some c \<Rightarrow> c | None \<Rightarrow> new_channel name)
                \<lparr>ch_subscriber_count := sub_count\<rparr>))"

definition update_channels :: "py_env \<Rightarrow> pydict list \<Rightarrow> chat_store \<Rightarrow> chat_store" where
  "update_channels env entries s =
     notify (s\<lparr>ct_channels := foldl (\<lambda>chs e. update_channel env e chs) (ct_channels s) entries\<rparr>)"

definition set_ack_status :: "string \<Rightarrow> string \<Rightarrow> chat_store \<Rightarrow> chat_store" where
  "set_ack_status message_id status s =
     (case dget (ct_messages s) message_id of
        None \<Rightarrow> s
      | Some m \<Rightarrow> notify (s\<lparr>ct_messages := dset (ct_messages s) message_id (m\<lparr>ms_ack_status := status\<rparr>)\<rparr>))"

definition toggle_thread :: "string \<Rightarrow> chat_store \<Rightarrow> chat_store" where
  "toggle_thread message_id s =
     (case dget (ct_messages s) message_id of
        None \<Rightarrow> s
      | Some m \<Rightarrow> notify (s\<lparr>ct_messages := dset (ct_messages s) message_id
          (m\<lparr>ms_thread_expanded := \<not> ms_thread_expanded m\<rparr>)\<rparr>))"

definition increment_agent_dm :: "string \<Rightarrow> chat_store \<Rightarrow> chat_store" where
  "increment_agent_dm agent_id s =
     (let a = (case dget (ct_agents s) agent_id of Some a \<Rightarrow> a
                 | None \<Rightarrow> \<lparr>as_agent_id = agent_id, as_presence = ''unknown'', as_last_heartbeat_at = 0, as_unread_dm = 0\<rparr>)
      in notify (s\<lparr>ct_agents := dset (ct_agents s) agent_id (a\<lparr>as_unread_dm := as_unread_dm a + 1\<rparr>)\<rparr>))"

end
