(* ===== verification/Chat_Properties.thy ===== *)
theory Chat_Properties
  imports Chat_Store
begin

text \<open>
  The chat store refines a log: messages in the order of their first arrival, the focused
  channel, and for each channel how long the log was when it was last focused or left.
\<close>

section \<open>Operations and the log\<close>

datatype chat_op =
    Ingest time pydict
  | Focus string
  | UpdateAgents "pydict list"
  | UpdateChannels "pydict list"
  | SetAck string string
  | ToggleThread string
  | IncrementDm string

fun chat_step :: "py_env \<Rightarrow> chat_op \<Rightarrow> chat_store \<Rightarrow> chat_store" where
  "chat_step env (Ingest now msg) s = snd (ingest_message env now msg s)"
| "chat_step env (Focus ch) s = focus_channel ch s"
| "chat_step env (UpdateAgents es) s = update_agents env es s"
| "chat_step env (UpdateChannels es) s = update_channels env es s"
| "chat_step env (SetAck i st) s = set_ack_status i st s"
| "chat_step env (ToggleThread i) s = toggle_thread i s"
| "chat_step env (IncrementDm a) s = increment_agent_dm a s"

definition run_chat :: "py_env \<Rightarrow> chat_op list \<Rightarrow> chat_store" where
  "run_chat env ops = foldl (\<lambda>s op. chat_step env op s) chat_init ops"

record chat_log =
  cl_log :: "message_state list"
  cl_focus :: "string option"
  cl_read :: "string \<Rightarrow> nat"

text \<open>A channel is read up to the end of the log when it gets the focus and when it loses it.\<close>

fun log_step :: "py_env \<Rightarrow> chat_op \<Rightarrow> chat_log \<Rightarrow> chat_log" where
  "log_step env (Ingest now msg) l =
     (let i = get_str env msg ''message_id'' []
      in if i = [] \<or> i \<in> ms_message_id ` set (cl_log l) then l
         else case message_of env now i msg of Inl e \<Rightarrow> l | Inr m \<Rightarrow> l\<lparr>cl_log := cl_log l @ [m]\<rparr>)"
| "log_step env (Focus ch) l = l\<lparr>cl_focus := Some ch,
     cl_read := (\<lambda>c. if c = ch \<or> cl_focus l = Some c then length (cl_log l) else cl_read l c)\<rparr>"
| "log_step env _ l = l"

definition run_log :: "py_env \<Rightarrow> chat_op list \<Rightarrow> chat_log" where
  "run_log env ops = foldl (\<lambda>l op. log_step env op l) \<lparr>cl_log = [], cl_focus = None, cl_read = (\<lambda>c. 0)\<rparr> ops"

definition on_channel :: "string \<Rightarrow> message_state list \<Rightarrow> message_state list" where
  "on_channel ch ms = filter (\<lambda>m. ms_channel m = ch) ms"

definition log_unread :: "chat_log \<Rightarrow> string \<Rightarrow> nat" where
  "log_unread l ch = (if cl_focus l = Some ch then 0 else length (on_channel ch (drop (cl_read l ch) (cl_log l))))"

section \<open>The simulation\<close>

definition unread :: "chat_store \<Rightarrow> string \<Rightarrow> int" where
  "unread s ch = (case dget (ct_channels s) ch of Some c \<Rightarrow> ch_unread c | None \<Rightarrow> 0)"

text \<open>A message without its marks in the interface.\<close>

definition unmarked :: "message_state \<Rightarrow> message_state" where
  "unmarked m = m\<lparr>ms_ack_status := ''pending'', ms_thread_expanded := False\<rparr>"

lemma unmarked_fields [simp]:
  "ms_message_id (unmarked m) = ms_message_id m" "ms_channel (unmarked m) = ms_channel m"
  "ms_seq (unmarked m) = ms_seq m" "unmarked (m\<lparr>ms_ack_status := st\<rparr>) = unmarked m"
  "unmarked (m\<lparr>ms_thread_expanded := b\<rparr>) = unmarked m"
  by (simp_all add: unmarked_def)

definition held :: "chat_store \<Rightarrow> string \<Rightarrow> message_state option" where
  "held s i = map_option unmarked (dget (ct_messages s) i)"

definition chat_rel :: "chat_store \<Rightarrow> chat_log \<Rightarrow> bool" where
  "chat_rel s l \<longleftrightarrow>
     distinct (map ms_message_id (cl_log l)) \<and>
     (\<forall>i. held s i = find (\<lambda>m. ms_message_id m = i) (cl_log l)) \<and>
     (\<forall>c. dget_default (ct_channel_messages s) c [] = map ms_message_id (on_channel c (cl_log l))) \<and>
     ct_focused_channel s = cl_focus l \<and>
     (\<forall>c. unread s c = int (log_unread l c)) \<and>
     (\<forall>c. cl_read l c \<le> length (cl_log l))"

lemma message_of_unmarked:
  assumes "message_of env now i msg = Inr m" shows "unmarked m = m" "ms_message_id m = i"
  using assms by (auto simp: message_of_def bind_res_eq_Inr unmarked_def)

lemma find_id_None: "find (\<lambda>m. ms_message_id m = i) ms = None \<longleftrightarrow> i \<notin> ms_message_id ` set ms"
  by (auto simp: find_None_iff)

lemma find_append_one:
  "find P (xs @ [y]) = (case find P xs of Some z \<Rightarrow> Some z | None \<Rightarrow> if P y then Some y else None)"
  by (induction xs) auto

lemma on_channel_append [simp]: "on_channel c (xs @ ys) = on_channel c xs @ on_channel c ys"
  by (simp add: on_channel_def)

lemma unread_channels:
  "ct_channels s = ct_channels s' \<Longrightarrow> unread s c = unread s' c"
  by (simp add: unread_def)

lemma notify_fields [simp]:
  "ct_channels (notify s) = ct_channels s" "ct_messages (notify s) = ct_messages s"
  "ct_channel_messages (notify s) = ct_channel_messages s" "ct_agents (notify s) = ct_agents s"
  "ct_focused_channel (notify s) = ct_focused_channel s"
  by (simp_all add: notify_def)

text \<open>Operations that change neither the log nor a counter.\<close>

definition chat_keeps :: "chat_store \<Rightarrow> chat_store \<Rightarrow> bool" where
  "chat_keeps s s' \<longleftrightarrow> held s' = held s \<and> ct_channel_messages s' = ct_channel_messages s \<and>
     ct_focused_channel s' = ct_focused_channel s \<and> unread s' = unread s"

lemma chat_rel_keeps: "chat_rel s l \<Longrightarrow> chat_keeps s s' \<Longrightarrow> chat_rel s' l"
  by (simp add: chat_rel_def chat_keeps_def)

lemma update_channel_unread:
  "(case dget (foldl (\<lambda>chs e. update_channel env e chs) chs es) c of Some x \<Rightarrow> ch_unread x | None \<Rightarrow> 0) =
   (case dget chs c of Some x \<Rightarrow> ch_unread x | None \<Rightarrow> 0)"
proof (induction es arbitrary: chs)
  case (Cons e es)
  have "(case dget (update_channel env e chs) c of Some x \<Rightarrow> ch_unread x | None \<Rightarrow> 0) =
      (case dget chs c of Some x \<Rightarrow> ch_unread x | None \<Rightarrow> 0)"
    by (auto simp: update_channel_def new_channel_def Let_def split: option.split)
  then show ?case using Cons by simp
qed simp

lemma other_ops_keep:
  "chat_keeps s (update_agents env es s)" "chat_keeps s (update_channels env es s)"
  "chat_keeps s (set_ack_status i st s)" "chat_keeps s (toggle_thread i s)" "chat_keeps s (increment_agent_dm a s)"
  by (auto simp: chat_keeps_def update_agents_def update_channels_def set_ack_status_def toggle_thread_def
      increment_agent_dm_def held_def unread_def update_channel_unread Let_def fun_eq_iff split: option.split)

lemma find_id_Some:
  "distinct (map ms_message_id ms) \<Longrightarrow> m \<in> set ms \<Longrightarrow> find (\<lambda>x. ms_message_id x = ms_message_id m) ms = Some m"
  by (induction ms) auto

lemma has_key_held: "has_key (ct_messages s) i \<longleftrightarrow> held s i \<noteq> None"
  by (simp add: held_def has_key_map_of)

lemma rel_held: "chat_rel s l \<Longrightarrow> held s i \<noteq> None \<longleftrightarrow> i \<in> ms_message_id ` set (cl_log l)"
  using find_id_None [of i "cl_log l"] by (simp add: chat_rel_def)

lemma rel_store_message:
  assumes rel: "chat_rel s l" and m: "unmarked m = m" "held s (ms_message_id m) = None"
  shows "chat_rel (notify (store_message m s)) (l\<lparr>cl_log := cl_log l @ [m]\<rparr>)"
proof -
  let ?i = "ms_message_id m" and ?s = "notify (store_message m s)" and ?l = "l\<lparr>cl_log := cl_log l @ [m]\<rparr>"
  have new: "?i \<notin> ms_message_id ` set (cl_log l)"
    using rel m(2) by (simp add: chat_rel_def find_id_None)
  have "held ?s i = (if i = ?i then Some m else held s i)" for i
    using m(1) by (simp add: held_def store_message_def Let_def)
  then have held: "held ?s i = find (\<lambda>m. ms_message_id m = i) (cl_log ?l)" for i
    using rel new find_id_None [of ?i "cl_log l"] by (auto simp: chat_rel_def find_append_one split: option.split)
  have ids: "dget_default (ct_channel_messages ?s) c [] = map ms_message_id (on_channel c (cl_log ?l))" for c
    using rel by (simp add: chat_rel_def store_message_def on_channel_def Let_def)
  have "unread ?s c = unread s c + (if c = ms_channel m \<and> Some c \<noteq> ct_focused_channel s then 1 else 0)" for c
    by (auto simp: unread_def store_message_def set_unread_def new_channel_def Let_def split: option.split)
  moreover have "log_unread ?l c = log_unread l c + (if c = ms_channel m \<and> Some c \<noteq> ct_focused_channel s then 1 else 0)" for c
    using rel by (auto simp: log_unread_def chat_rel_def on_channel_def)
  moreover have "unread s c = int (log_unread l c)" for c using rel by (simp add: chat_rel_def)
  ultimately have "unread ?s c = int (log_unread ?l c)" for c by auto
  moreover have "cl_read l c \<le> length (cl_log ?l)" for c
    using rel by (simp add: chat_rel_def le_SucI)
  moreover have "distinct (map ms_message_id (cl_log ?l))"
    using rel new by (simp add: chat_rel_def)
  moreover have "ct_focused_channel ?s = cl_focus ?l"
    using rel by (simp add: chat_rel_def store_message_def Let_def)
  ultimately show ?thesis using held ids by (simp add: chat_rel_def)
qed

lemma rel_focus:
  assumes rel: "chat_rel s l"
  shows "chat_rel (focus_channel ch s) (log_step env (Focus ch) l)"
proof -
  let ?s = "focus_channel ch s" and ?l = "log_step env (Focus ch) l"
  have "unread ?s c = (if c = ch then 0 else unread s c)" for c
    by (auto simp: unread_def focus_channel_def unfocus_def has_key_map_of Let_def split: option.split)
  moreover have "log_unread ?l c = (if c = ch then 0 else log_unread l c)" for c
    using rel by (auto simp: log_unread_def on_channel_def)
  moreover have "unread s c = int (log_unread l c)" for c using rel by (simp add: chat_rel_def)
  ultimately have "unread ?s c = int (log_unread ?l c)" for c by simp
  moreover have "held ?s i = held s i" for i by (simp add: held_def focus_channel_def Let_def)
  moreover have "ct_channel_messages ?s = ct_channel_messages s" "ct_focused_channel ?s = Some ch"
    by (simp_all add: focus_channel_def Let_def)
  ultimately show ?thesis using rel by (simp add: chat_rel_def)
qed

lemma chat_step_rel:
  assumes "chat_rel s l"
  shows "chat_rel (chat_step env op s) (log_step env op l)"
proof (cases op)
  case (Ingest now msg)
  let ?i = "get_str env msg ''message_id'' []"
  have same: "has_key (ct_messages s) ?i \<longleftrightarrow> ?i \<in> ms_message_id ` set (cl_log l)"
    unfolding has_key_held rel_held [OF assms] by simp
  show ?thesis
  proof (cases "?i = [] \<or> has_key (ct_messages s) ?i")
    case True
    then show ?thesis using assms same by (auto simp: Ingest ingest_message_def Let_def)
  next
    case False
    show ?thesis
    proof (cases "message_of env now ?i msg")
      case (Inl e)
      then show ?thesis using assms False same by (simp add: Ingest ingest_message_def Let_def)
    next
      case (Inr m)
      note m = message_of_unmarked [OF Inr]
      have "chat_rel (notify (store_message m s)) (l\<lparr>cl_log := cl_log l @ [m]\<rparr>)"
        by (rule rel_store_message [OF assms m(1)]) (use False m(2) in \<open>simp add: held_def has_key_map_of\<close>)
      then show ?thesis using False same Inr by (simp add: Ingest ingest_message_def Let_def)
    qed
  qed
next
  case (Focus ch)
  then show ?thesis using rel_focus [OF assms] by simp
qed (use chat_rel_keeps [OF assms] other_ops_keep in simp_all)

lemma run_chat_rel: "chat_rel (run_chat env ops) (run_log env ops)"
proof (induction ops rule: rev_induct)
  case Nil
  show ?case
    by (simp add: run_chat_def run_log_def chat_rel_def chat_init_def held_def unread_def log_unread_def
        on_channel_def dget_default_def)
next
  case (snoc op ops)
  then show ?case using chat_step_rel by (simp add: run_chat_def run_log_def)
qed

lemma map_insort_key: "map g (insort_key (f \<circ> g) x xs) = insort_key f (g x) (map g xs)"
  by (induction xs) auto

lemma map_sort_unmarked: "map unmarked (sort_key ms_seq xs) = sort_key ms_seq (map unmarked xs)"
proof (induction xs)
  case (Cons x xs)
  have "ms_seq \<circ> unmarked = ms_seq" by (simp add: fun_eq_iff)
  then show ?case using Cons map_insort_key [of unmarked ms_seq x "sort_key ms_seq xs"] by simp
qed simp

text \<open>
  C33. The chat store shows the history: after any sequence of operations the feed of a channel
  is the messages of their first arrivals on it, sorted by sequence number, once each; its
  unread counter is the number of messages that arrived on it while it was not focused, since
  it last was, and 0 while it is.
\<close>

theorem chat_shows_history:
  "map unmarked (messages_for (run_chat env ops) c) = sort_key ms_seq (on_channel c (cl_log (run_log env ops))) \<and>
   unread (run_chat env ops) c = int (log_unread (run_log env ops) c) \<and>
   distinct (map ms_message_id (messages_for (run_chat env ops) c)) \<and>
   ct_focused_channel (run_chat env ops) = cl_focus (run_log env ops)"
proof -
  let ?s = "run_chat env ops" and ?l = "run_log env ops"
  have rel: "chat_rel ?s ?l" by (rule run_chat_rel)
  have held: "map_option unmarked (dget (ct_messages ?s) (ms_message_id m)) = Some m" if "m \<in> set (cl_log ?l)" for m
    using rel that find_id_Some [of "cl_log ?l" m] by (simp add: chat_rel_def held_def)
  have "map unmarked (List.map_filter (dget (ct_messages ?s)) (map ms_message_id ms)) = ms"
    if "set ms \<subseteq> set (cl_log ?l)" for ms
    using that
  proof (induction ms)
    case (Cons m ms)
    then obtain z where "dget (ct_messages ?s) (ms_message_id m) = Some z" "unmarked z = m" using held [of m] by auto
    then show ?case using Cons by (simp add: List.map_filter_simps)
  qed (simp add: List.map_filter_simps)
  then have feed: "map unmarked (List.map_filter (dget (ct_messages ?s)) (map ms_message_id (on_channel c (cl_log ?l)))) =
      on_channel c (cl_log ?l)"
    by (simp add: on_channel_def)
  have "map unmarked (messages_for ?s c) = sort_key ms_seq (on_channel c (cl_log ?l))"
    using rel feed by (simp add: messages_for_def chat_rel_def map_sort_unmarked)
  moreover from this have "map ms_message_id (messages_for ?s c) =
      map ms_message_id (sort_key ms_seq (on_channel c (cl_log ?l)))"
    by (metis (no_types, lifting) ext comp_apply map_map unmarked_fields(1))
  moreover have "distinct (map ms_message_id (sort_key ms_seq (on_channel c (cl_log ?l))))"
  proof -
    have "distinct (map ms_message_id (on_channel c (cl_log ?l)))"
      using rel by (simp add: chat_rel_def on_channel_def distinct_map_filter)
    then show ?thesis by (metis mset_map mset_sort mset_eq_imp_distinct_iff)
  qed
  ultimately show ?thesis using rel by (simp add: chat_rel_def)
qed

end
