(* ===== verification/Chat_Client.thy ===== *)
theory Chat_Client
  imports Chat_Properties
begin

text \<open>
  The rest of the chat interface without its widgets: the compose-bar parser (tui/commands.py),
  the JSON-RPC client (tui/mcp_client.py), the receive pump (tui/pump.py) and the command
  dispatch of the application (tui/app.py). Pipes and processes are reduced to the lines that
  pass them; \<open>json.loads\<close> is a parameter.
\<close>

section \<open>Commands (commands.py)\<close>

datatype command =
    SendCommand string
  | ReplyCommand string string
  | DmCommand string string string
  | JoinCommand string
  | QuitCommand

datatype command_parse_error = CommandParseError string string

definition dm_channel :: "string \<Rightarrow> string \<Rightarrow> string" where
  "dm_channel agent_a agent_b =
     (let (lo, hi) = (if agent_b < agent_a then (agent_b, agent_a) else (agent_a, agent_b))
      in ''dm/'' @ lo @ ''+'' @ hi)"

definition parse :: "py_env \<Rightarrow> string \<Rightarrow> string \<Rightarrow> command_parse_error + command" where
  "parse env text self_agent =
     (let stripped = strip text
      in if \<not> starts_with stripped ''/''
         then (if stripped = [] then Inl (CommandParseError text ''empty message'') else Inr (SendCommand stripped))
         else let parts = split_ws stripped; verb = lower (hd parts)
           in if verb = ''/quit'' then Inr QuitCommand
              else if verb = ''/join''
              then (if length parts < 2 then Inl (CommandParseError text ''/join requires a channel name'')
                    else Inr (JoinCommand (parts ! 1)))
              else if verb = ''/dm''
              then (if length parts < 2 then Inl (CommandParseError text ''/dm requires an agent_id'')
                    else let target = parts ! 1
                         in if target = [] then Inl (CommandParseError text ''/dm agent_id cannot be empty'')
                            else Inr (DmCommand target (dm_channel self_agent target) self_agent))
              else if verb = ''/reply''
              then (if length parts < 3
                    then Inl (CommandParseError text ''/reply requires a message_id and reply text'')
                    else let reply_text = join '' '' (drop 2 parts)
                         in if reply_text = [] then Inl (CommandParseError text ''/reply text cannot be empty'')
                            else Inr (ReplyCommand (parts ! 1) reply_text))
              else Inl (CommandParseError text (''unknown command verb '' @ pe_repr env (PStr verb))))"

section \<open>The JSON-RPC client (mcp_client.py)\<close>

text \<open>
  \<open>rc_pending\<close> holds the futures by request id, with whether they are done (timed out);
  \<open>rc_resolved\<close> the results that were set; \<open>rc_reading\<close> whether the read loop is alive.
\<close>

record rpc_client =
  rc_agent_id :: agent
  rc_next_id :: int
  rc_pending :: "(int \<times> bool) list"
  rc_written :: "pydict list"
  rc_resolved :: "(int \<times> pydict) list"
  rc_reading :: bool

definition rpc_init :: "agent \<Rightarrow> rpc_client" where
  "rpc_init a = \<lparr>rc_agent_id = a, rc_next_id = 1, rc_pending = [], rc_written = [], rc_resolved = [], rc_reading = True\<rparr>"

definition rpc_write :: "pydict \<Rightarrow> rpc_client \<Rightarrow> rpc_client" where
  "rpc_write payload c = c\<lparr>rc_written := rc_written c @ [payload]\<rparr>"

definition rpc_request :: "string \<Rightarrow> pydict \<Rightarrow> rpc_client \<Rightarrow> int \<times> rpc_client" where
  "rpc_request rpc_method params c =
     (let req_id = rc_next_id c;
          payload = [(''jsonrpc'', PStr ''2.0''), (''id'', PInt req_id), (''method'', PStr rpc_method),
            (''params'', PDict params)]
      in (req_id, rpc_write payload (c\<lparr>rc_next_id := req_id + 1,
            rc_pending := dset (rc_pending c) req_id False\<rparr>)))"

text \<open>The start of \<open>_initialize_handshake\<close> and, once it is answered, its notification.\<close>

definition initialize_request :: "rpc_client \<Rightarrow> int \<times> rpc_client" where
  "initialize_request c = rpc_request ''initialize''
     [(''protocolVersion'', PStr ''2024-11-05''), (''capabilities'', PDict []),
      (''clientInfo'', PDict [(''name'', PStr (''sox-tui-'' @ rc_agent_id c)), (''version'', PStr ''1.0'')])] c"

definition initialized_notification :: "rpc_client \<Rightarrow> rpc_client" where
  "initialized_notification c = rpc_write [(''jsonrpc'', PStr ''2.0''),
     (''method'', PStr ''notifications/initialized''), (''params'', PDict [])] c"

definition rpc_call :: "string \<Rightarrow> pydict \<Rightarrow> rpc_client \<Rightarrow> int \<times> rpc_client" where
  "rpc_call tool params c = rpc_request ''tools/call'' [(''name'', PStr tool), (''arguments'', PDict params)] c"

text \<open>
  The key a JSON value is in the dict of futures: \<open>True\<close> and \<open>1.0\<close> are the key 1. A list or a
  dict is not hashable; the exception ends the read loop.
\<close>

fun id_key :: "pyval \<Rightarrow> int option result" where
  "id_key (PInt i) = Inr (Some i)"
| "id_key (PBool b) = Inr (Some (if b then 1 else 0))"
| "id_key (PFloat x) = Inr (if x = of_int \<lfloor>x\<rfloor> then Some \<lfloor>x\<rfloor> else None)"
| "id_key (PList vs) = Inl (TypeError ''unhashable'')"
| "id_key (PDict d) = Inl (TypeError ''unhashable'')"
| "id_key v = Inr None"

text \<open>One line of the server, \<open>None\<close> when it is not JSON.\<close>

definition read_line :: "pyval option \<Rightarrow> rpc_client \<Rightarrow> rpc_client" where
  "read_line line c =
     (if \<not> rc_reading c then c
      else case line of
        None \<Rightarrow> c
      | Some (PDict msg) \<Rightarrow>
          (case id_key (dget_default msg ''id'' PNone) of
             Inl e \<Rightarrow> c\<lparr>rc_reading := False\<rparr>
           | Inr None \<Rightarrow> c
           | Inr (Some i) \<Rightarrow>
               (case dget (rc_pending c) i of
                  None \<Rightarrow> c
                | Some done \<Rightarrow> c\<lparr>rc_pending := dpop (rc_pending c) i,
                    rc_resolved := (if done then rc_resolved c else rc_resolved c @ [(i, msg)])\<rparr>))
      | Some v \<Rightarrow> c\<lparr>rc_reading := False\<rparr>)"

text \<open>\<open>asyncio.wait_for\<close> cancels the future when its time is over; the entry stays.\<close>

definition time_out :: "int \<Rightarrow> rpc_client \<Rightarrow> rpc_client" where
  "time_out i c = (if has_key (rc_pending c) i then c\<lparr>rc_pending := dset (rc_pending c) i True\<rparr> else c)"

text \<open>What \<open>_call\<close> makes of a response; \<open>loads\<close> is \<open>json.loads\<close> of a text, \<open>None\<close> for a decode error.\<close>

definition call_result :: "py_env \<Rightarrow> (string \<Rightarrow> pyval option) \<Rightarrow> string \<Rightarrow> pydict \<Rightarrow> pyval result" where
  "call_result env loads tool resp =
     (case dget resp ''error'' of
        Some (PDict err) \<Rightarrow> Inl (RuntimeError (''MCP error from '' @ tool @ '': '' @
          py_str (pe_repr env) (dget_default err ''message'' (PDict err))))
      | Some v \<Rightarrow> Inl (AttributeError ''get'')
      | None \<Rightarrow>
          (let r = as_dict (dget_default resp ''result'' (PDict []))
           in case dget_default r ''content'' (PList []) of
                PList (PDict first # _) \<Rightarrow>
                  if dget first ''type'' = Some (PStr ''text'')
                  then (case dget_default first ''text'' (PStr ''{}'') of
                          PStr text \<Rightarrow> Inr (case loads text of Some parsed \<Rightarrow> parsed
                            | None \<Rightarrow> PDict [(''raw'', PStr text)])
                        | _ \<Rightarrow> Inl (TypeError ''the JSON object must be str''))
                  else Inr (PDict r)
              | _ \<Rightarrow> Inr (PDict r)))"

text \<open>The tool methods: the parameters each of them sends.\<close>

definition send_params :: "string \<Rightarrow> pydict \<Rightarrow> string option \<Rightarrow> string option \<Rightarrow> pydict" where
  "send_params ch body reply_to correlation_id =
     [(''channel'', PStr ch), (''body'', PDict body)] @
     (case reply_to of Some r \<Rightarrow> [(''reply_to'', PStr r)] | None \<Rightarrow> []) @
     (case correlation_id of Some c \<Rightarrow> [(''correlation_id'', PStr c)] | None \<Rightarrow> [])"

definition recv_params :: "string list option \<Rightarrow> int \<Rightarrow> pydict" where
  "recv_params chs n = (''max_messages'', PInt n) #
     (case chs of Some cs \<Rightarrow> [(''channels'', PList (map PStr cs))] | None \<Rightarrow> [])"

definition list_agents_params :: "string list option \<Rightarrow> pydict" where
  "list_agents_params status_filter =
     (case status_filter of Some fs \<Rightarrow> [(''status_filter'', PList (map PStr fs))] | None \<Rightarrow> [])"

definition ack_params :: "string \<Rightarrow> string \<Rightarrow> string option \<Rightarrow> pydict" where
  "ack_params message_id status reason =
     [(''message_id'', PStr message_id), (''status'', PStr status)] @
     (case reason of Some r \<Rightarrow> [(''reason'', PStr r)] | None \<Rightarrow> [])"

definition rpc_send :: "string \<Rightarrow> pydict \<Rightarrow> string option \<Rightarrow> string option \<Rightarrow> rpc_client \<Rightarrow> int \<times> rpc_client" where
  "rpc_send ch body reply_to correlation_id = rpc_call ''channels__send'' (send_params ch body reply_to correlation_id)"

definition rpc_recv :: "string list option \<Rightarrow> int \<Rightarrow> rpc_client \<Rightarrow> int \<times> rpc_client" where
  "rpc_recv chs n = rpc_call ''channels__recv'' (recv_params chs n)"

definition rpc_subscribe :: "string \<Rightarrow> rpc_client \<Rightarrow> int \<times> rpc_client" where
  "rpc_subscribe pattern = rpc_call ''channels__subscribe'' [(''pattern'', PStr pattern)]"

definition rpc_list_channels :: "rpc_client \<Rightarrow> int \<times> rpc_client" where
  "rpc_list_channels = rpc_call ''channels__list_channels'' []"

definition rpc_list_agents :: "string list option \<Rightarrow> rpc_client \<Rightarrow> int \<times> rpc_client" where
  "rpc_list_agents status_filter = rpc_call ''channels__list_agents'' (list_agents_params status_filter)"

definition rpc_heartbeat :: "string \<Rightarrow> rpc_client \<Rightarrow> int \<times> rpc_client" where
  "rpc_heartbeat status = rpc_call ''channels__heartbeat'' [(''status'', PStr status)]"

definition rpc_ack :: "string \<Rightarrow> string \<Rightarrow> string option \<Rightarrow> rpc_client \<Rightarrow> int \<times> rpc_client" where
  "rpc_ack message_id status reason = rpc_call ''channels__ack'' (ack_params message_id status reason)"

definition rpc_stop :: "rpc_client \<Rightarrow> rpc_client" where
  "rpc_stop c = c\<lparr>rc_pending := [], rc_reading := False\<rparr>"

section \<open>The pump (pump.py)\<close>

text \<open>One round of the loop: \<open>polled\<close> is what \<open>recv\<close> gave. An exception ends the round.\<close>

fun ingest_all :: "py_env \<Rightarrow> time \<Rightarrow> pyval list \<Rightarrow> chat_store \<Rightarrow> chat_store" where
  "ingest_all env now [] s = s"
| "ingest_all env now (PDict msg # ms) s =
     (case ingest_message env now msg s of
        (Inl e, s') \<Rightarrow> s'
      | (Inr _, s') \<Rightarrow> ingest_all env now ms s')"
| "ingest_all env now (v # ms) s = s"

definition pump_round :: "py_env \<Rightarrow> time \<Rightarrow> pyval result \<Rightarrow> chat_store \<Rightarrow> chat_store" where
  "pump_round env now polled s =
     (case polled of
        Inr (PDict result) \<Rightarrow>
          (case dget_default result ''messages'' (PList []) of PList ms \<Rightarrow> ingest_all env now ms s | _ \<Rightarrow> s)
      | _ \<Rightarrow> s)"

section \<open>The application (app.py)\<close>

text \<open>
  What the application asks of its client, over the client's state \<open>'c\<close>; the text of the error
  shown in the compose bar is not modelled, only that one is shown.
\<close>

record 'c chat_port =
  cp_send :: "string \<Rightarrow> pydict \<Rightarrow> string option \<Rightarrow> 'c \<Rightarrow> pyval result \<times> 'c"
  cp_subscribe :: "string \<Rightarrow> 'c \<Rightarrow> pyval result \<times> 'c"
  cp_list_channels :: "'c \<Rightarrow> pyval result \<times> 'c"
  cp_list_agents :: "'c \<Rightarrow> pyval result \<times> 'c"

record 'c chat_app =
  ca_agent_id :: agent
  ca_store :: chat_store
  ca_client :: 'c
  ca_error :: "exc option"
  ca_quit :: bool

definition surface :: "pyval result \<Rightarrow> 'c chat_app \<Rightarrow> 'c chat_app" where
  "surface r app = (case r of Inl e \<Rightarrow> app\<lparr>ca_error := Some e\<rparr> | Inr _ \<Rightarrow> app)"

definition send_channel :: "'c chat_app \<Rightarrow> string" where
  "send_channel app = (case ct_focused_channel (ca_store app) of
     Some ch \<Rightarrow> if ch \<noteq> [] then ch else ''#general'' | None \<Rightarrow> ''#general'')"

fun dispatch_command :: "'c chat_port \<Rightarrow> command \<Rightarrow> 'c chat_app \<Rightarrow> 'c chat_app" where
  "dispatch_command p (SendCommand text) app =
     (case cp_send p (send_channel app) [(''text'', PStr text)] None (ca_client app) of
        (r, c) \<Rightarrow> surface r (app\<lparr>ca_client := c\<rparr>))"
| "dispatch_command p (ReplyCommand reply_to text) app =
     (case cp_send p (send_channel app) [(''text'', PStr text)] (Some reply_to) (ca_client app) of
        (r, c) \<Rightarrow> surface r (app\<lparr>ca_client := c\<rparr>))"
| "dispatch_command p (DmCommand target ch self_agent) app =
     (case cp_subscribe p ch (ca_client app) of
        (Inl e, c) \<Rightarrow> surface (Inl e) (app\<lparr>ca_client := c\<rparr>)
      | (Inr _, c) \<Rightarrow> app\<lparr>ca_client := c, ca_store := focus_channel ch (ca_store app)\<rparr>)"
| "dispatch_command p (JoinCommand ch) app =
     (case cp_subscribe p ch (ca_client app) of
        (Inl e, c) \<Rightarrow> surface (Inl e) (app\<lparr>ca_client := c\<rparr>)
      | (Inr _, c) \<Rightarrow> app\<lparr>ca_client := c, ca_store := focus_channel ch (ca_store app)\<rparr>)"
| "dispatch_command p QuitCommand app = app\<lparr>ca_quit := True\<rparr>"

definition subscribe_then_focus :: "'c chat_port \<Rightarrow> string \<Rightarrow> 'c chat_app \<Rightarrow> 'c chat_app" where
  "subscribe_then_focus p ch app =
     (case cp_subscribe p ch (ca_client app) of
        (r, c) \<Rightarrow> (surface r (app\<lparr>ca_client := c\<rparr>))\<lparr>ca_store := focus_channel ch (ca_store app)\<rparr>)"

definition on_agent_selected :: "'c chat_port \<Rightarrow> agent \<Rightarrow> 'c chat_app \<Rightarrow> 'c chat_app" where
  "on_agent_selected p a app = subscribe_then_focus p (dm_channel (ca_agent_id app) a) app"

text \<open>
  \<open>_refresh_roster_once\<close>: errors are suppressed. An entry that is no dict raises after the
  entries before it have been taken over, and before the observers are told.
\<close>

definition entries_of :: "string \<Rightarrow> pyval result \<Rightarrow> pyval list option" where
  "entries_of k r = (case r of Inr (PDict d) \<Rightarrow>
     (case dget_default d k (PList []) of PList vs \<Rightarrow> Some vs | _ \<Rightarrow> None) | _ \<Rightarrow> None)"

definition refresh_with ::
  "(pydict list \<Rightarrow> chat_store \<Rightarrow> chat_store) \<Rightarrow> pyval list option \<Rightarrow> chat_store \<Rightarrow> chat_store"
where
  "refresh_with update entries s =
     (case entries of
        None \<Rightarrow> s
      | Some vs \<Rightarrow>
          (let s' = update (map as_dict (takeWhile is_dict vs)) s
           in if list_all is_dict vs then s' else s'\<lparr>ct_called := ct_called s\<rparr>))"

definition refresh_roster_once :: "py_env \<Rightarrow> 'c chat_port \<Rightarrow> 'c chat_app \<Rightarrow> 'c chat_app" where
  "refresh_roster_once env p app =
     (let (r1, c1) = cp_list_channels p (ca_client app);
          s1 = refresh_with (update_channels env) (entries_of ''channels'' r1) (ca_store app);
          (r2, c2) = cp_list_agents p c1;
          s2 = refresh_with (update_agents env) (entries_of ''agents'' r2) s1
      in app\<lparr>ca_client := c2, ca_store := s2\<rparr>)"

definition pane_cycle_ids :: "string list" where
  "pane_cycle_ids = [''compose-input'', ''channel-list-pane'', ''message-feed-pane'', ''agent-roster-pane'']"

text \<open>\<open>action_cycle_focus\<close> and \<open>action_cycle_focus_back\<close>: the pane to focus next.\<close>

fun index_of :: "'a \<Rightarrow> 'a list \<Rightarrow> nat option" where
  "index_of x [] = None"
| "index_of x (y # ys) = (if x = y then Some 0 else map_option Suc (index_of x ys))"

definition cycle_focus :: "string option \<Rightarrow> string" where
  "cycle_focus focused =
     (case focused of
        None \<Rightarrow> pane_cycle_ids ! 0
      | Some i \<Rightarrow> pane_cycle_ids ! nat (((case index_of i pane_cycle_ids of Some k \<Rightarrow> int k | None \<Rightarrow> -1) + 1) mod 4))"

definition cycle_focus_back :: "string option \<Rightarrow> string" where
  "cycle_focus_back focused =
     (case focused of
        None \<Rightarrow> pane_cycle_ids ! 0
      | Some i \<Rightarrow> pane_cycle_ids ! nat (((case index_of i pane_cycle_ids of Some k \<Rightarrow> int k | None \<Rightarrow> 0) - 1) mod 4))"

section \<open>Properties of the parser\<close>

lemma dm_channel_commute: "dm_channel a b = dm_channel b a"
  by (auto simp: dm_channel_def)

text \<open>How a user types a command.\<close>

fun typed :: "command \<Rightarrow> string" where
  "typed (SendCommand text) = text"
| "typed (ReplyCommand reply_to text) = ''/reply '' @ reply_to @ '' '' @ text"
| "typed (DmCommand target ch self_agent) = ''/dm '' @ target"
| "typed (JoinCommand ch) = ''/join '' @ ch"
| "typed QuitCommand = ''/quit''"

definition word :: "string \<Rightarrow> bool" where
  "word s \<longleftrightarrow> s \<noteq> [] \<and> (\<forall>c \<in> set s. \<not> py_isspace c)"

text \<open>The commands the parser can produce for an agent.\<close>

fun command_ok :: "agent \<Rightarrow> command \<Rightarrow> bool" where
  "command_ok a (SendCommand text) = (strip text = text \<and> text \<noteq> [] \<and> \<not> starts_with text ''/'')"
| "command_ok a (ReplyCommand reply_to text) =
     (word reply_to \<and> (\<exists>ws. ws \<noteq> [] \<and> list_all word ws \<and> text = join '' '' ws))"
| "command_ok a (DmCommand target ch self_agent) = (word target \<and> ch = dm_channel a target \<and> self_agent = a)"
| "command_ok a (JoinCommand ch) = word ch"
| "command_ok a QuitCommand = True"

lemma split_ws_Nil [simp]: "split_ws [] = []"
  by (subst split_ws.simps) simp

lemma split_ws_space: "py_isspace c \<Longrightarrow> split_ws (c # s) = split_ws s"
  by (subst (1 2) split_ws.simps) simp

lemma split_ws_word:
  assumes "word w" and "s = [] \<or> py_isspace (hd s)"
  shows "split_ws (w @ s) = w # split_ws s"
proof -
  have t: "takeWhile (\<lambda>c. \<not> py_isspace c) (w @ s) = w" "dropWhile (\<lambda>c. \<not> py_isspace c) (w @ s) = s"
    using assms by (cases s; simp add: word_def takeWhile_tail dropWhile_append2)+
  have d: "dropWhile py_isspace (w @ s) = w @ s" using assms(1) by (cases w) (auto simp: word_def)
  have "w \<noteq> []" using assms(1) by (simp add: word_def)
  then show ?thesis by (subst split_ws.simps) (simp add: d t Let_def)
qed

lemma split_ws_join: "list_all word ws \<Longrightarrow> split_ws (join '' '' ws) = ws"
  by (induction "'' ''" ws rule: join.induct)
    (simp_all add: split_ws_word [where s = "[]", simplified] split_ws_word split_ws_space py_isspace_def)

lemma split_ws_words: "list_all word (split_ws s)"
proof (induction s rule: split_ws.induct)
  case (1 s)
  let ?t = "dropWhile py_isspace s"
  show ?case
  proof (cases "?t = []")
    case False
    then have "\<not> py_isspace (hd ?t)" using hd_dropWhile by blast
    then have "word (takeWhile (\<lambda>c. \<not> py_isspace c) ?t)"
      using False by (cases ?t) (auto simp: word_def dest: set_takeWhileD)
    then show ?thesis using 1 [OF refl False] False by (subst split_ws.simps) (simp add: Let_def)
  qed (subst split_ws.simps, simp)
qed

lemma dropWhile_id: "xs \<noteq> [] \<Longrightarrow> \<not> P (hd xs) \<Longrightarrow> dropWhile P xs = xs"
  by (cases xs) simp_all

lemma strip_ends: "s \<noteq> [] \<Longrightarrow> \<not> py_isspace (hd s) \<Longrightarrow> \<not> py_isspace (last s) \<Longrightarrow> strip s = s"
  by (simp add: strip_def lstrip_def rstrip_def dropWhile_id hd_rev)

lemma strip_idem [simp]: "strip (strip s) = strip s"
proof (cases "strip s = []")
  case False
  let ?l = "lstrip s"
  have l: "?l \<noteq> []" using False by (auto simp: strip_def rstrip_def)
  then have h: "\<not> py_isspace (hd ?l)" using hd_dropWhile [of py_isspace s] unfolding lstrip_def by blast
  have r: "strip s = rev (dropWhile py_isspace (rev ?l))" by (simp add: strip_def rstrip_def)
  then have ne: "dropWhile py_isspace (rev ?l) \<noteq> []" using False by auto
  have "last (strip s) = hd (dropWhile py_isspace (rev ?l))" using ne by (simp add: r last_rev)
  then have e: "\<not> py_isspace (last (strip s))" using hd_dropWhile [OF ne] by simp
  have "dropWhile py_isspace (rev ?l) = drop (length (takeWhile py_isspace (rev ?l))) (rev ?l)"
    by (rule dropWhile_eq_drop)
  then have "strip s = take (length ?l - length (takeWhile py_isspace (rev ?l))) ?l"
    by (simp add: r rev_drop)
  then have "hd (strip s) = hd ?l" using False by (cases ?l) (auto simp: take_Cons split: nat.splits)
  then show ?thesis using strip_ends False h e by simp
next
  case True
  then show ?thesis by (simp only: True) (simp add: strip_def lstrip_def rstrip_def)
qed

lemma join_words_ends:
  "ws \<noteq> [] \<Longrightarrow> list_all word ws \<Longrightarrow> join '' '' ws \<noteq> [] \<and> \<not> py_isspace (hd (join '' '' ws)) \<and>
     \<not> py_isspace (last (join '' '' ws))"
proof (induction "'' ''" ws rule: join.induct)
  case (2 p)
  then show ?case by (cases p; cases p rule: rev_cases) (auto simp: word_def)
next
  case (3 p q ps)
  then have "p \<noteq> []" "\<not> py_isspace (hd p)" by (cases p; auto simp: word_def)+
  then show ?case using 3 by (simp add: hd_append)
qed simp

lemma strip_words: "list_all word ws \<Longrightarrow> strip (join '' '' ws) = join '' '' ws"
proof (cases "ws = []")
  case True
  then show ?thesis by (simp add: strip_def lstrip_def rstrip_def)
qed (use join_words_ends [of ws] strip_ends in simp)

lemma word_verbs: "word ''/reply''" "word ''/dm''" "word ''/join''" "word ''/quit''"
  "lower ''/reply'' = ''/reply''" "lower ''/dm'' = ''/dm''" "lower ''/join'' = ''/join''" "lower ''/quit'' = ''/quit''"
  by code_simp+

lemma parse_words:
  assumes "list_all word ws" and "ws \<noteq> []" and "starts_with (hd ws) ''/''"
  shows "strip (join '' '' ws) = join '' '' ws" "split_ws (join '' '' ws) = ws"
    "starts_with (join '' '' ws) ''/''"
proof -
  show "starts_with (join '' '' ws) ''/''"
    using assms(2,3) by (induction "'' ''" ws rule: join.induct) (auto simp: starts_with_iff)
qed (simp_all add: strip_words split_ws_join assms(1))

text \<open>
  C34. The compose bar: a command can come out of the parser exactly when it is well formed for
  the local agent (the text stripped and no slash command, the ids single words, the channel of a
  direct message the sorted pair), and typing a well-formed command gives that command back.
\<close>

theorem parse_roundtrip:
  "((\<exists>text. parse env text a = Inr cmd) = command_ok a cmd) \<and>
   ((parse env (typed cmd) a = Inr cmd) = command_ok a cmd)"
proof -
  have typed: "parse env (typed cmd) a = Inr cmd" if ok: "command_ok a cmd"
  proof (cases cmd)
    case (SendCommand msg)
    then show ?thesis using ok by (simp add: parse_def Let_def)
  next
    case (ReplyCommand reply_to msg)
    then obtain ws where ws: "word reply_to" "ws \<noteq> []" "list_all word ws" "msg = join '' '' ws" using ok by auto
    then have "typed cmd = join '' '' (''/reply'' # reply_to # ws)" using ReplyCommand by (cases ws) simp_all
    moreover have "list_all word (''/reply'' # reply_to # ws)" using ws word_verbs by simp
    ultimately show ?thesis
      using parse_words [of "''/reply'' # reply_to # ws"] ws join_words_ends [of ws] word_verbs ReplyCommand
      by (simp add: parse_def Let_def starts_with_def Suc_le_eq)
  next
    case (DmCommand target ch self_agent)
    then have "typed cmd = join '' '' [''/dm'', target]" "list_all word [''/dm'', target]" using ok word_verbs by simp_all
    then show ?thesis
      using parse_words [of "[''/dm'', target]"] ok word_verbs DmCommand
      by (simp add: parse_def Let_def starts_with_def word_def)
  next
    case (JoinCommand ch)
    then have "typed cmd = join '' '' [''/join'', ch]" "list_all word [''/join'', ch]" using ok word_verbs by simp_all
    then show ?thesis
      using parse_words [of "[''/join'', ch]"] ok word_verbs JoinCommand
      by (simp add: parse_def Let_def starts_with_def)
  next
    case QuitCommand
    then show ?thesis
      using parse_words [of "[''/quit'']"] word_verbs by (simp add: parse_def Let_def starts_with_def)
  qed
  have forth: "command_ok a cmd" if p: "parse env line a = Inr cmd" for line
  proof -
    have words: "list_all word (split_ws (strip line))" by (rule split_ws_words)
    have nth: "word (split_ws (strip line) ! 1)" if "\<not> length (split_ws (strip line)) < 2"
      using words that by (simp add: list_all_length)
    have rest: "list_all word (drop 2 (split_ws (strip line)))"
      using words by (simp add: list_all_iff) (meson in_set_dropD)
    show ?thesis
      using p nth rest
      by (auto simp: parse_def Let_def split: if_splits intro!: exI [of _ "drop 2 (split_ws (strip line))"])
  qed
  show ?thesis using typed forth by blast
qed

section \<open>Direct message channels\<close>

lemma append_plus_inject:
  assumes "CHR ''+'' \<notin> set a" and "CHR ''+'' \<notin> set c"
  shows "a @ CHR ''+'' # b = c @ CHR ''+'' # d \<longleftrightarrow> a = c \<and> b = d"
  using assms
proof (induction a arbitrary: c)
  case Nil
  then show ?case by (cases c) auto
next
  case (Cons x a)
  then show ?case by (cases c) auto
qed

lemma dm_channel_pair:
  assumes "CHR ''+'' \<notin> set a" "CHR ''+'' \<notin> set b" "CHR ''+'' \<notin> set c" "CHR ''+'' \<notin> set d"
  shows "dm_channel a b = dm_channel c d \<longleftrightarrow> {a, b} = {c, d}"
  using assms by (auto simp: dm_channel_def append_plus_inject doubleton_eq_iff)

text \<open>Without the condition two pairs of agents can share a channel.\<close>

lemma dm_channel_clash: "dm_channel ''a'' ''b+c'' = dm_channel ''a+b'' ''c''"
  by code_simp

section \<open>Requests and responses\<close>

datatype rpc_event =
    Request string pydict
  | Line "pyval option"
  | TimeOut int

fun rpc_step :: "rpc_event \<Rightarrow> rpc_client \<Rightarrow> rpc_client" where
  "rpc_step (Request m params) c = snd (rpc_request m params c)"
| "rpc_step (Line line) c = read_line line c"
| "rpc_step (TimeOut i) c = time_out i c"

definition run_rpc :: "rpc_event list \<Rightarrow> rpc_client \<Rightarrow> rpc_client" where
  "run_rpc es c = foldl (\<lambda>c e. rpc_step e c) c es"

definition rpc_inv :: "rpc_client \<Rightarrow> bool" where
  "rpc_inv c \<longleftrightarrow>
     (\<forall>i. has_key (rc_pending c) i \<longrightarrow> 1 \<le> i \<and> i < rc_next_id c) \<and>
     (\<forall>(i, msg) \<in> set (rc_resolved c). 1 \<le> i \<and> i < rc_next_id c \<and> id_key (dget_default msg ''id'' PNone) = Inr (Some i)) \<and>
     distinct (map fst (rc_resolved c)) \<and>
     (\<forall>i \<in> fst ` set (rc_resolved c). \<not> has_key (rc_pending c) i) \<and> 1 \<le> rc_next_id c"

lemma has_key_dpop [simp]: "has_key (dpop d k) k' \<longleftrightarrow> k' \<noteq> k \<and> has_key d k'"
  by (simp add: has_key_map_of)

lemma rpc_inv_request: "rpc_inv c \<Longrightarrow> rpc_inv (snd (rpc_request m params c))"
  by (fastforce simp: rpc_inv_def rpc_request_def rpc_write_def Let_def)

lemma rpc_inv_time_out: "rpc_inv c \<Longrightarrow> rpc_inv (time_out i c)"
  by (auto simp: rpc_inv_def time_out_def)

lemma rpc_inv_resolve:
  assumes "rpc_inv c" and "id_key (dget_default msg ''id'' PNone) = Inr (Some i)" and "dget (rc_pending c) i = Some done"
  shows "rpc_inv (c\<lparr>rc_pending := dpop (rc_pending c) i,
    rc_resolved := (if done then rc_resolved c else rc_resolved c @ [(i, msg)])\<rparr>)"
proof -
  have "has_key (rc_pending c) i" using assms(3) by (simp add: has_key_map_of)
  then show ?thesis using assms(1,2) by (auto simp: rpc_inv_def)
qed

lemma rpc_inv_line: "rpc_inv c \<Longrightarrow> rpc_inv (read_line line c)"
proof -
  assume inv: "rpc_inv c"
  have stop: "rpc_inv (c\<lparr>rc_reading := False\<rparr>)" using inv by (simp add: rpc_inv_def)
  show ?thesis
  proof (cases "rc_reading c")
    case True
    show ?thesis
    proof (cases line)
      case (Some v)
      show ?thesis
      proof (cases v)
        case (PDict msg)
        show ?thesis
          using inv stop rpc_inv_resolve [OF inv, of msg]
          by (simp add: read_line_def True Some PDict split: sum.split option.split)
      qed (use stop in \<open>simp_all add: read_line_def True Some\<close>)
    qed (use inv in \<open>simp add: read_line_def\<close>)
  qed (use inv in \<open>simp add: read_line_def\<close>)
qed

lemma run_rpc_inv: "rpc_inv (run_rpc es (rpc_init a))"
proof (induction es rule: rev_induct)
  case Nil
  show ?case by (simp add: run_rpc_def rpc_init_def rpc_inv_def has_key_def)
next
  case (snoc e es)
  then show ?case
    by (cases e) (simp_all add: run_rpc_def rpc_inv_request rpc_inv_time_out rpc_inv_line)
qed

text \<open>
  Whatever the server writes and whenever calls time out, a call only ever gets a response that
  carries its own id, and at most one.
\<close>

lemma rpc_matched:
  assumes "(i, msg) \<in> set (rc_resolved (run_rpc es (rpc_init a)))"
  shows "1 \<le> i \<and> i < rc_next_id (run_rpc es (rpc_init a)) \<and> id_key (dget_default msg ''id'' PNone) = Inr (Some i) \<and>
    (\<forall>msg'. (i, msg') \<in> set (rc_resolved (run_rpc es (rpc_init a))) \<longrightarrow> msg' = msg)"
proof -
  have inv: "rpc_inv (run_rpc es (rpc_init a))" by (rule run_rpc_inv)
  then have "msg' = msg" if "(i, msg') \<in> set (rc_resolved (run_rpc es (rpc_init a)))" for msg'
    using assms that unfolding rpc_inv_def by (metis eq_key_imp_eq_value)
  then show ?thesis using inv assms unfolding rpc_inv_def by blast
qed

text \<open>A message the store cannot read ends the round: those behind it are not shown.\<close>

lemma pump_stops:
  assumes "fst (ingest_message env now bad s) = Inl e"
  shows "ingest_all env now (PDict bad # ms) s = s"
  using assms by (cases "ingest_message env now bad s") (auto simp: ingest_message_def Let_def split: if_splits sum.splits)

end
