(* ===== verification/Phase_Graph.thy ===== *)
theory Phase_Graph
  imports Py_Values
begin

text \<open>
  Cycle detection of the workflow linter (tools/workflow_lint.py, \<open>has_cycle\<close>). The nested
  function \<open>dfs\<close> and the sets it shares with \<open>has_cycle\<close> become a state that is passed on. The
  number \<open>n\<close> is the number of stack frames left: a call without one raises \<open>RecursionError\<close>.
  The search is correct and, with a frame per phase, never raises.
\<close>

section \<open>The search\<close>

type_synonym phase_graph = "(string \<times> string list) list"

record dfs_state =
  visited :: "string set"
  rec_stack :: "string set"
  dfs_path :: "string list"

definition enter_node :: "string \<Rightarrow> dfs_state \<Rightarrow> dfs_state" where
  "enter_node node st =
     st\<lparr>visited := insert node (visited st), rec_stack := insert node (rec_stack st),
        dfs_path := dfs_path st @ [node]\<rparr>"

definition leave_node :: "string \<Rightarrow> dfs_state \<Rightarrow> dfs_state" where
  "leave_node node st =
     st\<lparr>rec_stack := rec_stack st - {node}, dfs_path := butlast (dfs_path st)\<rparr>"

fun dfs :: "phase_graph \<Rightarrow> nat \<Rightarrow> string \<Rightarrow> dfs_state \<Rightarrow> (bool \<times> dfs_state) result"
and dfs_each :: "phase_graph \<Rightarrow> nat \<Rightarrow> string list \<Rightarrow> dfs_state \<Rightarrow> (bool \<times> dfs_state) result"
where
  "dfs g 0 node st = Inl (RuntimeError ''maximum recursion depth exceeded'')"
| "dfs g (Suc n) node st =
     bind_res (dfs_each g n (dget_default g node []) (enter_node node st)) (\<lambda>(found, st').
       Inr (if found then (True, st') else (False, leave_node node st')))"
| "dfs_each g n [] st = Inr (False, st)"
| "dfs_each g n (neighbor # rest) st =
     (if \<not> has_key g neighbor then dfs_each g n rest st
      else if neighbor \<notin> visited st
      then bind_res (dfs g n neighbor st) (\<lambda>(found, st').
             if found then Inr (True, st') else dfs_each g n rest st')
      else if neighbor \<in> rec_stack st
      then Inr (True, st\<lparr>dfs_path := dfs_path st @ [neighbor]\<rparr>)
      else dfs_each g n rest st)"

fun has_cycle_from ::
    "phase_graph \<Rightarrow> nat \<Rightarrow> string list \<Rightarrow> dfs_state \<Rightarrow> string list option result" where
  "has_cycle_from g n [] st = Inr None"
| "has_cycle_from g n (node # rest) st =
     (if node \<notin> visited st
      then bind_res (dfs g n node st) (\<lambda>(found, st').
             if found then Inr (Some (dfs_path st')) else has_cycle_from g n rest st')
      else has_cycle_from g n rest st)"

definition has_cycle :: "nat \<Rightarrow> phase_graph \<Rightarrow> string list option result" where
  "has_cycle n g =
     has_cycle_from g n (map fst g) \<lparr>visited = {}, rec_stack = {}, dfs_path = []\<rparr>"

section \<open>Edges, paths and cycles\<close>

text \<open>References to phases that do not exist are no edges.\<close>

definition phase_edges :: "phase_graph \<Rightarrow> (string \<times> string) set" where
  "phase_edges g =
     {(a, b). has_key g a \<and> b \<in> set (dget_default g a []) \<and> has_key g b}"

definition edge_path :: "phase_graph \<Rightarrow> string list \<Rightarrow> bool" where
  "edge_path g p \<longleftrightarrow> successively (\<lambda>a b. (a, b) \<in> phase_edges g) p"

text \<open>A path of edges that ends at a node it has visited before.\<close>

definition closes_cycle :: "phase_graph \<Rightarrow> string list \<Rightarrow> bool" where
  "closes_cycle g p \<longleftrightarrow> edge_path g p \<and> p \<noteq> [] \<and> last p \<in> set (butlast p)"

lemma edge_path_snoc:
  "edge_path g (p @ [x]) \<longleftrightarrow> edge_path g p \<and> (p = [] \<or> (last p, x) \<in> phase_edges g)"
  by (auto simp: edge_path_def successively_append_iff)

lemma edge_path_trancl:
  "edge_path g (x # p @ [y]) \<Longrightarrow> (x, y) \<in> (phase_edges g)\<^sup>+"
proof (induction p arbitrary: x)
  case Nil
  then show ?case by (simp add: edge_path_def)
next
  case (Cons z p)
  then have "(x, z) \<in> phase_edges g" "(z, y) \<in> (phase_edges g)\<^sup>+"
    by (simp_all add: edge_path_def)
  then show ?case by (rule trancl_into_trancl2)
qed

lemma closes_cycle_not_acyclic:
  assumes "closes_cycle g p"
  shows "\<not> acyclic (phase_edges g)"
proof -
  from assms have p: "edge_path g p" "p \<noteq> []" "last p \<in> set (butlast p)"
    by (simp_all add: closes_cycle_def)
  then obtain us vs where "butlast p = us @ last p # vs" by (meson split_list)
  then have "p = us @ (last p # vs @ [last p])"
    using append_butlast_last_id [OF p(2)] by simp
  then have "edge_path g (last p # vs @ [last p])"
    using p(1) unfolding edge_path_def by (metis successively_append_iff)
  then show ?thesis
    by (auto simp: acyclic_def dest: edge_path_trancl)
qed

section \<open>The invariant of the search\<close>

text \<open>A node is finished when it was visited and has left the stack.\<close>

definition finished :: "dfs_state \<Rightarrow> string set" where
  "finished st = visited st - rec_stack st"

definition dfs_ok :: "phase_graph \<Rightarrow> dfs_state \<Rightarrow> bool" where
  "dfs_ok g st \<longleftrightarrow>
     distinct (dfs_path st) \<and> set (dfs_path st) = rec_stack st \<and> rec_stack st \<subseteq> visited st \<and>
     visited st \<subseteq> fst ` set g \<and> edge_path g (dfs_path st) \<and>
     phase_edges g `` finished st \<subseteq> finished st \<and>
     (\<forall>x \<in> finished st. (x, x) \<notin> (phase_edges g)\<^sup>+)"

text \<open>What a search that finds nothing leaves behind.\<close>

definition dfs_kept :: "phase_graph \<Rightarrow> dfs_state \<Rightarrow> dfs_state \<Rightarrow> bool" where
  "dfs_kept g st st' \<longleftrightarrow>
     dfs_ok g st' \<and> rec_stack st' = rec_stack st \<and> dfs_path st' = dfs_path st \<and>
     visited st \<subseteq> visited st'"

text \<open>The frames suffice for the phases that are not visited yet.\<close>

definition frames_for :: "phase_graph \<Rightarrow> nat \<Rightarrow> dfs_state \<Rightarrow> bool" where
  "frames_for g n st \<longleftrightarrow> card (fst ` set g - visited st) \<le> n"

lemma frames_for_mono: "frames_for g n st \<Longrightarrow> visited st \<subseteq> visited st' \<Longrightarrow> frames_for g n st'"
  unfolding frames_for_def by (meson Diff_mono card_mono finite_Diff finite_imageI finite_set
      order_refl order_trans)

lemma frames_for_enter:
  assumes "frames_for g (Suc n) st" "has_key g node" "node \<notin> visited st"
  shows "frames_for g n (enter_node node st)"
proof -
  have "fst ` set g - visited st = insert node (fst ` set g - insert node (visited st))"
    using assms(2,3) by (auto simp: has_key_def)
  then have "card (fst ` set g - visited st) = Suc (card (fst ` set g - insert node (visited st)))"
    by (metis Diff_iff card_insert_disjoint finite_Diff finite_imageI finite_set insertI1)
  then show ?thesis
    using assms(1) by (simp add: frames_for_def enter_node_def)
qed

lemma no_frames: "frames_for g 0 st \<Longrightarrow> has_key g node \<Longrightarrow> node \<in> visited st"
  by (auto simp: frames_for_def has_key_def)

lemma dfs_kept_refl: "dfs_ok g st \<Longrightarrow> dfs_kept g st st"
  by (simp add: dfs_kept_def)

lemma dfs_kept_trans: "dfs_kept g st st' \<Longrightarrow> dfs_kept g st' st'' \<Longrightarrow> dfs_kept g st st''"
  by (auto simp: dfs_kept_def)

lemma enter_ok:
  assumes "dfs_ok g st" "has_key g node" "node \<notin> visited st"
    and "dfs_path st = [] \<or> (last (dfs_path st), node) \<in> phase_edges g"
  shows "dfs_ok g (enter_node node st)"
proof -
  have "finished (enter_node node st) = finished st"
    using assms(1,3) by (auto simp: finished_def enter_node_def dfs_ok_def)
  with assms show ?thesis
    by (auto simp: dfs_ok_def enter_node_def edge_path_snoc has_key_def)
qed

text \<open>A node leaves the stack with all its successors finished, so it is on no cycle.\<close>

lemma closed_trancl:
  assumes "r `` B \<subseteq> B" "(x, y) \<in> r\<^sup>+" "x \<in> B"
  shows "y \<in> B"
  using assms(2,1,3) by (induction rule: trancl_induct) auto

lemma leave_ok:
  assumes pre: "dfs_ok g st" "node \<notin> visited st"
    and kept: "dfs_kept g (enter_node node st) st'"
    and done_nbs: "\<And>b. (node, b) \<in> phase_edges g \<Longrightarrow> b \<in> finished st'"
  shows "dfs_kept g st (leave_node node st')"
proof -
  have st': "dfs_ok g st'" "rec_stack st' = insert node (rec_stack st)"
    "dfs_path st' = dfs_path st @ [node]" "insert node (visited st) \<subseteq> visited st'"
    using kept by (simp_all add: dfs_kept_def enter_node_def)
  have nr: "node \<notin> rec_stack st" using pre by (auto simp: dfs_ok_def)
  have rest: "rec_stack (leave_node node st') = rec_stack st" "dfs_path (leave_node node st') = dfs_path st"
    "visited (leave_node node st') = visited st'"
    using st' nr by (auto simp: leave_node_def)
  have fin: "finished (leave_node node st') = insert node (finished st')"
    using st' nr rest by (auto simp: finished_def)
  have closed: "phase_edges g `` finished st' \<subseteq> finished st'"
    and free: "\<forall>x \<in> finished st'. (x, x) \<notin> (phase_edges g)\<^sup>+"
    using st'(1) by (simp_all add: dfs_ok_def)
  have "node \<notin> finished st'" using st' by (simp add: finished_def)
  have "(node, node) \<notin> (phase_edges g)\<^sup>+"
  proof
    assume "(node, node) \<in> (phase_edges g)\<^sup>+"
    then obtain b where "(node, b) \<in> phase_edges g" "b = node \<or> (b, node) \<in> (phase_edges g)\<^sup>+"
      by (metis rtranclD tranclD)
    then have "node \<in> finished st'"
      using done_nbs closed_trancl [OF closed] by blast
    with \<open>node \<notin> finished st'\<close> show False ..
  qed
  with fin closed free done_nbs have
    "phase_edges g `` finished (leave_node node st') \<subseteq> finished (leave_node node st')"
    "\<forall>x \<in> finished (leave_node node st'). (x, x) \<notin> (phase_edges g)\<^sup>+" by auto
  moreover have "set (dfs_path st) = rec_stack st" "distinct (dfs_path st)" "edge_path g (dfs_path st)"
    "rec_stack st \<subseteq> visited st'" "visited st' \<subseteq> fst ` set g"
    using pre st' by (auto simp: dfs_ok_def)
  ultimately show ?thesis
    using st'(4) rest by (auto simp: dfs_kept_def dfs_ok_def)
qed

section \<open>Correctness of the search\<close>

text \<open>A finished answer: nothing found and the invariant kept, or a path that closes a cycle.\<close>

definition dfs_answer :: "phase_graph \<Rightarrow> string set \<Rightarrow> dfs_state \<Rightarrow> (bool \<times> dfs_state) result \<Rightarrow> bool" where
  "dfs_answer g goal st r \<longleftrightarrow>
     (\<exists>st'. r = Inr (False, st') \<and> dfs_kept g st st' \<and> goal \<subseteq> finished st') \<or>
     (\<exists>st'. r = Inr (True, st') \<and> closes_cycle g (dfs_path st'))"

lemma finished_grows: "dfs_kept g st st' \<Longrightarrow> x \<in> finished st \<Longrightarrow> x \<in> finished st'"
  by (auto simp: dfs_kept_def finished_def)

text \<open>An answer about the rest of the neighbours covers the first when that one is finished.\<close>

lemma dfs_answer_skip:
  assumes "dfs_answer g {b \<in> set rest. has_key g b} st1 r" "dfs_kept g st st1"
    "has_key g nb \<Longrightarrow> nb \<in> finished st1"
  shows "dfs_answer g {b \<in> set (nb # rest). has_key g b} st r"
proof -
  consider st' where "r = Inr (False, st')" "dfs_kept g st1 st'" "{b \<in> set rest. has_key g b} \<subseteq> finished st'"
    | st' where "r = Inr (True, st')" "closes_cycle g (dfs_path st')"
    using assms(1) by (auto simp: dfs_answer_def)
  then show ?thesis
  proof cases
    case (1 st')
    have "dfs_kept g st st'" using assms(2) 1(2) by (rule dfs_kept_trans)
    moreover have "{b \<in> set (nb # rest). has_key g b} \<subseteq> finished st'"
      using 1(2,3) assms(3) finished_grows by auto
    ultimately show ?thesis using 1(1) by (simp add: dfs_answer_def)
  qed (simp add: dfs_answer_def)
qed

lemma dfs_correct:
  "dfs_ok g st \<Longrightarrow> has_key g node \<Longrightarrow> node \<notin> visited st \<Longrightarrow> frames_for g n st \<Longrightarrow>
   dfs_path st = [] \<or> (last (dfs_path st), node) \<in> phase_edges g \<Longrightarrow>
   dfs_answer g {node} st (dfs g n node st)"
  "dfs_ok g st \<Longrightarrow> frames_for g n st \<Longrightarrow> dfs_path st \<noteq> [] \<Longrightarrow>
   (\<And>b. b \<in> set nbs \<Longrightarrow> has_key g b \<Longrightarrow> (last (dfs_path st), b) \<in> phase_edges g) \<Longrightarrow>
   dfs_answer g {b \<in> set nbs. has_key g b} st (dfs_each g n nbs st)"
proof (induction g n node st and g n nbs st rule: dfs_dfs_each.induct)
  case (1 g node st)
  then show ?case using no_frames by blast
next
  case (2 g n node st)
  let ?e = "enter_node node st"
  have last: "last (dfs_path ?e) = node" by (simp add: enter_node_def)
  have "dfs_answer g {b \<in> set (dget_default g node []). has_key g b} ?e
          (dfs_each g n (dget_default g node []) ?e)"
    using 2(2-) last
    by (intro 2(1) enter_ok frames_for_enter)
      (auto simp: phase_edges_def enter_node_def)
  then consider st' where "dfs_each g n (dget_default g node []) ?e = Inr (False, st')"
      "dfs_kept g ?e st'" "{b \<in> set (dget_default g node []). has_key g b} \<subseteq> finished st'"
    | st' where "dfs_each g n (dget_default g node []) ?e = Inr (True, st')"
      "closes_cycle g (dfs_path st')"
    by (auto simp: dfs_answer_def)
  then show ?case
  proof cases
    case (1 st')
    have kept: "dfs_kept g st (leave_node node st')"
      using 2(2,4) 1(2,3) by (intro leave_ok) (auto simp: phase_edges_def)
    have "node \<in> finished (leave_node node st')"
      using 1(2) by (auto simp: finished_def leave_node_def dfs_kept_def enter_node_def)
    with kept 1(1) show ?thesis by (simp add: dfs_answer_def)
  qed (simp add: dfs_answer_def)
next
  case (3 g n st)
  then show ?case by (simp add: dfs_answer_def dfs_kept_refl)
next
  case (4 g n nb rest st)
  have skip: "dfs_answer g {b \<in> set (nb # rest). has_key g b} st r"
    if "dfs_answer g {b \<in> set rest. has_key g b} st1 r" "dfs_kept g st st1"
      "has_key g nb \<Longrightarrow> nb \<in> finished st1" for r st1
    using that by (intro dfs_answer_skip)
  consider (none) "\<not> has_key g nb" | (new) "has_key g nb" "nb \<notin> visited st"
    | (on_stack) "has_key g nb" "nb \<in> visited st" "nb \<in> rec_stack st"
    | (seen) "has_key g nb" "nb \<in> visited st" "nb \<notin> rec_stack st" by argo
  then show ?case
  proof cases
    case none
    have "dfs_answer g {b \<in> set rest. has_key g b} st (dfs_each g n rest st)"
      using none 4(5-) by (intro 4(1)) auto
    from skip [OF this dfs_kept_refl] none 4(5) show ?thesis by simp
  next
    case new
    have "dfs_answer g {nb} st (dfs g n nb st)"
      using new 4(5-) by (intro 4(2)) auto
    then consider st' where "dfs g n nb st = Inr (False, st')" "dfs_kept g st st'" "nb \<in> finished st'"
      | st' where "dfs g n nb st = Inr (True, st')" "closes_cycle g (dfs_path st')"
      by (auto simp: dfs_answer_def)
    then show ?thesis
    proof cases
      case (1 st')
      have "dfs_answer g {b \<in> set rest. has_key g b} st' (dfs_each g n rest st')"
        using 1 4(5-) frames_for_mono
        by (intro 4(3) [where x = False]) (auto simp: new dfs_kept_def)
      from skip [OF this] 1 new show ?thesis by simp
    qed (use new in \<open>simp add: dfs_answer_def\<close>)
  next
    case on_stack
    have "(last (dfs_path st), nb) \<in> phase_edges g" "nb \<in> set (dfs_path st)" "edge_path g (dfs_path st)"
      using on_stack 4(5,8) by (auto simp: dfs_ok_def)
    then have "closes_cycle g (dfs_path st @ [nb])"
      by (simp add: closes_cycle_def edge_path_snoc)
    with on_stack show ?thesis by (simp add: dfs_answer_def)
  next
    case seen
    have "dfs_answer g {b \<in> set rest. has_key g b} st (dfs_each g n rest st)"
      using seen 4(5-) by (intro 4(4)) auto
    from skip [OF this dfs_kept_refl] seen 4(5) show ?thesis by (simp add: finished_def)
  qed
qed

lemma has_cycle_from_correct:
  assumes "dfs_ok g st" "dfs_path st = []" "frames_for g n st" "\<forall>x \<in> set nodes. has_key g x"
  shows "(has_cycle_from g n nodes st = Inr None \<and>
            (\<exists>st'. dfs_kept g st st' \<and> set nodes \<subseteq> finished st')) \<or>
         (\<exists>p. has_cycle_from g n nodes st = Inr (Some p) \<and> closes_cycle g p)"
  using assms
proof (induction nodes arbitrary: st)
  case Nil
  then show ?case using dfs_kept_refl by auto
next
  case (Cons node rest)
  note grow = dfs_kept_trans
  show ?case
  proof (cases "node \<in> visited st")
    case True
    then have "node \<in> finished st" using Cons.prems by (auto simp: dfs_ok_def finished_def)
    then have node: "node \<in> finished st'" if "dfs_kept g st st'" for st'
      using that by (rule finished_grows [rotated])
    have "\<forall>x \<in> set rest. has_key g x" using Cons.prems(4) by simp
    from Cons.IH [OF Cons.prems(1-3) this] True show ?thesis
      by (elim disjE) (auto dest: node)
  next
    case False
    have "dfs_answer g {node} st (dfs g n node st)"
      using False Cons.prems by (intro dfs_correct(1)) auto
    then consider st' where "dfs g n node st = Inr (False, st')" "dfs_kept g st st'" "node \<in> finished st'"
      | st' where "dfs g n node st = Inr (True, st')" "closes_cycle g (dfs_path st')"
      by (auto simp: dfs_answer_def)
    then show ?thesis
    proof cases
      case (1 st')
      have "dfs_ok g st'" "dfs_path st' = []" "frames_for g n st'"
        using 1(2) Cons.prems frames_for_mono by (auto simp: dfs_kept_def)
      moreover have "\<forall>x \<in> set rest. has_key g x" using Cons.prems(4) by simp
      ultimately have IH: "(has_cycle_from g n rest st' = Inr None \<and>
            (\<exists>st''. dfs_kept g st' st'' \<and> set rest \<subseteq> finished st'')) \<or>
         (\<exists>p. has_cycle_from g n rest st' = Inr (Some p) \<and> closes_cycle g p)"
        by (intro Cons.IH)
      have node: "node \<in> finished st2" "dfs_kept g st st2" if "dfs_kept g st' st2" for st2
        using that 1 by (blast intro: finished_grows grow)+
      from IH 1(1) False show ?thesis
        by (elim disjE) (auto dest: node)
    qed (use False in simp)
  qed
qed

lemma has_cycle_search:
  assumes "card (fst ` set g) \<le> n"
  shows "(has_cycle n g = Inr None \<and> acyclic (phase_edges g)) \<or>
         (\<exists>p. has_cycle n g = Inr (Some p) \<and> closes_cycle g p \<and> \<not> acyclic (phase_edges g))"
proof -
  let ?st = "\<lparr>visited = {}, rec_stack = {}, dfs_path = []\<rparr>"
  have st: "dfs_ok g ?st" "frames_for g n ?st" "\<forall>x \<in> set (map fst g). has_key g x"
    using assms by (auto simp: dfs_ok_def finished_def edge_path_def frames_for_def has_key_def)
  have "acyclic (phase_edges g)" if "dfs_kept g ?st st'" "set (map fst g) \<subseteq> finished st'" for st'
  proof -
    have "(x, x) \<notin> (phase_edges g)\<^sup>+" if "x \<in> fst ` set g" for x
      using that \<open>dfs_kept g ?st st'\<close> \<open>set (map fst g) \<subseteq> finished st'\<close>
      by (auto simp: dfs_kept_def dfs_ok_def)
    moreover have "x \<in> fst ` set g" if "(x, x) \<in> (phase_edges g)\<^sup>+" for x
      using that by (auto simp: phase_edges_def has_key_def dest: tranclD)
    ultimately show ?thesis unfolding acyclic_def by blast
  qed
  with has_cycle_from_correct [OF st(1) _ st(2,3)] closes_cycle_not_acyclic show ?thesis
    by (auto simp: has_cycle_def)
qed

text \<open>C35.
  The cycle check of the linter, given a stack frame per phase: it answers \<open>None\<close> for exactly the
  acyclic prerequisite graphs, and otherwise returns a path along the prerequisites that ends at
  a phase it has already passed. It never raises.\<close>

theorem has_cycle_correct:
  assumes "card (fst ` set g) \<le> n"
  shows "(has_cycle n g = Inr None \<and> acyclic (phase_edges g)) \<or>
         (\<exists>p. has_cycle n g = Inr (Some p) \<and> closes_cycle g p \<and> \<not> acyclic (phase_edges g))"
  using assms by (rule has_cycle_search)

lemma has_cycle_correct_witness:
  "has_cycle 3 [(''a'', [''b'', ''x'']), (''b'', [''c'']), (''c'', [''b''])] =
     Inr (Some [''a'', ''b'', ''c'', ''b'']) \<and>
   \<not> acyclic (phase_edges [(''a'', [''b'', ''x'']), (''b'', [''c'']), (''c'', [''b''])])"
proof -
  let ?g = "[(''a'', [''b'', ''x'']), (''b'', [''c'']), (''c'', [''b''])]"
  have "card (fst ` set ?g) \<le> 3" by simp
  moreover have "has_cycle 3 ?g = Inr (Some [''a'', ''b'', ''c'', ''b''])" by code_simp
  ultimately show ?thesis using has_cycle_correct [of ?g 3] by auto
qed

end
