(* ===== verification/Workflow_Lint.thy ===== *)
theory Workflow_Lint
  imports Phase_Graph
begin

text \<open>
  The workflow linter (tools/workflow_lint.py): its frontmatter parser, the parser of STATE.md and
  the checks of an engagement. An engagement directory is its name, the files of \<open>phases/\<close> and the
  text of STATE.md; which cited paths exist is the parameter \<open>exists_path\<close>. The texts of the
  messages and the elapsed time are left out.
\<close>

section \<open>Issues\<close>

datatype severity = Err | Warn | Info

record lint_issue =
  li_severity :: severity
  li_engagement :: string
  li_phase_id :: "string option"
  li_check :: string

record lint_result =
  issues :: "lint_issue list"
  checks_run :: nat

definition report :: "severity \<Rightarrow> string \<Rightarrow> string option \<Rightarrow> string \<Rightarrow> lint_result \<Rightarrow> lint_result" where
  "report sev slug phase check r =
     r\<lparr>issues := issues r @ [\<lparr>li_severity = sev, li_engagement = slug, li_phase_id = phase,
                              li_check = check\<rparr>]\<rparr>"

definition ran :: "lint_result \<Rightarrow> lint_result" where
  "ran r = r\<lparr>checks_run := checks_run r + 1\<rparr>"

definition lint_errors :: "lint_result \<Rightarrow> lint_issue list" where
  "lint_errors r = filter (\<lambda>i. li_severity i = Err) (issues r)"

definition lint_warnings :: "lint_result \<Rightarrow> lint_issue list" where
  "lint_warnings r = filter (\<lambda>i. li_severity i = Warn) (issues r)"

section \<open>Lines\<close>

definition newline_char :: char where "newline_char = char_of (10 :: nat)"

definition is_line_break :: "char \<Rightarrow> bool" where
  "is_line_break c \<longleftrightarrow>
     (let n = of_char c :: nat in 10 \<le> n \<and> n \<le> 13 \<or> 28 \<le> n \<and> n \<le> 30 \<or> n = 133)"

text \<open>\<open>s.splitlines()\<close>: a carriage return and the line feed behind it are one break.\<close>

definition after_break :: "string \<Rightarrow> string" where
  "after_break s =
     (case s of [] \<Rightarrow> [] | c # t \<Rightarrow>
        if c = char_of (13 :: nat) \<and> t \<noteq> [] \<and> hd t = newline_char then tl t else t)"

lemma after_break_length: "length (after_break s) \<le> length s - 1"
  by (auto simp: after_break_def split: list.splits)

function splitlines :: "string \<Rightarrow> string list" where
  "splitlines s =
     (if s = [] then []
      else takeWhile (\<lambda>c. \<not> is_line_break c) s #
           splitlines (after_break (dropWhile (\<lambda>c. \<not> is_line_break c) s)))"
  by pat_completeness auto
termination
proof (relation "measure length", goal_cases)
  case (2 s)
  have "length (after_break (dropWhile (\<lambda>c. \<not> is_line_break c) s)) \<le> length s - 1"
    using after_break_length length_dropWhile_le by (meson diff_le_mono le_trans)
  with 2 show ?case by (cases s) auto
qed simp

declare splitlines.simps [simp del]

section \<open>Frontmatter\<close>

datatype fm_value = FmStr string | FmList "string list"

type_synonym frontmatter = "(string \<times> fm_value) list"

text \<open>\<open>s[1:-1]\<close>.\<close>

definition inside :: "string \<Rightarrow> string" where
  "inside s = butlast (tl s)"

definition ends_with_char :: "string \<Rightarrow> char \<Rightarrow> bool" where
  "ends_with_char s c \<longleftrightarrow> s \<noteq> [] \<and> last s = c"

definition starts_with_char :: "string \<Rightarrow> char \<Rightarrow> bool" where
  "starts_with_char s c \<longleftrightarrow> s \<noteq> [] \<and> hd s = c"

definition unquote :: "string \<Rightarrow> string" where
  "unquote s0 =
     (let s = strip s0;
          dq = CHR 0x22;
          sq = CHR 0x27
      in if starts_with_char s dq \<and> ends_with_char s dq \<or>
            starts_with_char s sq \<and> ends_with_char s sq
         then inside s else s)"

text \<open>\<open>re.split(r",\\s*", inner)\<close>.\<close>

definition split_commas :: "string \<Rightarrow> string list" where
  "split_commas s = (case split_on (CHR '','') s of [] \<Rightarrow> [] | p # ps \<Rightarrow> p # map lstrip ps)"

definition parse_inline_list :: "string \<Rightarrow> string list" where
  "parse_inline_list raw0 =
     (let raw = strip raw0
      in if raw = ''[]'' then []
         else let inner = (if starts_with_char raw (CHR ''['') \<and> ends_with_char raw (CHR '']'')
                           then inside raw else raw)
              in map unquote (filter (\<lambda>p. p \<noteq> []) (map strip (split_commas inner))))"

text \<open>The word characters of \<open>\\w\<close>, for code points below 256.\<close>

definition is_word_char :: "char \<Rightarrow> bool" where
  "is_word_char c \<longleftrightarrow>
     (let n = of_char c :: nat
      in 48 \<le> n \<and> n \<le> 57 \<or> 65 \<le> n \<and> n \<le> 90 \<or> n = 95 \<or> 97 \<le> n \<and> n \<le> 122 \<or>
         n \<in> {170, 178, 179, 181, 185, 186, 188, 189, 190} \<or>
         192 \<le> n \<and> n \<noteq> 215 \<and> n \<noteq> 247)"

definition is_key_char :: "char \<Rightarrow> bool" where
  "is_key_char c \<longleftrightarrow> is_word_char c \<or> c = CHR ''_'' \<or> c = CHR ''-''"

text \<open>The match of \<open>^(\\w[\\w_-]*):\\s*(.*)\<close>: the key and the text behind it.\<close>

definition match_key :: "string \<Rightarrow> (string \<times> string) option" where
  "match_key line =
     (let key = takeWhile is_key_char line; rest = dropWhile is_key_char line
      in if key \<noteq> [] \<and> is_word_char (hd key) \<and> starts_with_char rest (CHR '':'')
         then Some (key, lstrip (tl rest)) else None)"

definition is_indented :: "string \<Rightarrow> bool" where
  "is_indented line \<longleftrightarrow> starts_with line ''  '' \<or> starts_with_char line (char_of (9 :: nat))"

function parse_yaml_lines :: "string list \<Rightarrow> frontmatter \<Rightarrow> frontmatter" where
  "parse_yaml_lines [] result = result"
| "parse_yaml_lines (line # rest) result =
     (if strip line = [] \<or> starts_with_char (strip line) (CHR ''#'')
      then parse_yaml_lines rest result
      else case match_key line of
             None \<Rightarrow> parse_yaml_lines rest result
           | Some (key, raw0) \<Rightarrow>
               let raw = strip raw0
               in if starts_with_char raw (CHR ''['')
                  then parse_yaml_lines rest (dset result key (FmList (parse_inline_list raw)))
                  else if raw = [] \<or> raw = ''|'' \<or> raw = ''>''
                  then parse_yaml_lines (dropWhile is_indented rest)
                         (dset result key
                            (FmStr (join [newline_char] (map strip (takeWhile is_indented rest)))))
                  else parse_yaml_lines rest (dset result key (FmStr (unquote raw))))"
  by pat_completeness auto
termination
  by (relation "measure (\<lambda>(lines, result). length lines)")
    (auto simp: le_imp_less_Suc length_dropWhile_le)

declare parse_yaml_lines.simps(2) [simp del]

definition parse_yaml_simple :: "string list \<Rightarrow> frontmatter" where
  "parse_yaml_simple lines = parse_yaml_lines lines []"

definition is_fence :: "string \<Rightarrow> bool" where
  "is_fence line \<longleftrightarrow> strip line = ''---''"

definition parse_frontmatter :: "string \<Rightarrow> frontmatter option" where
  "parse_frontmatter txt =
     (case splitlines txt of
        [] \<Rightarrow> None
      | first # rest \<Rightarrow>
          if \<not> is_fence first then None
          else if \<not> list_ex is_fence rest then None
          else Some (parse_yaml_simple (takeWhile (\<lambda>l. \<not> is_fence l) rest)))"

section \<open>STATE.md\<close>

record state_row =
  row_phase_id :: string
  row_title :: string
  row_status :: string

record state_data =
  sd_frontmatter :: frontmatter
  sd_phase_rows :: "state_row list"
  sd_next_action :: "string option"

text \<open>\<open>re.search\<close>: the first position at which \<open>m\<close> matches.\<close>

fun search_first :: "(string \<Rightarrow> 'a option) \<Rightarrow> string \<Rightarrow> 'a option" where
  "search_first m [] = m []"
| "search_first m (c # cs) = (case m (c # cs) of Some x \<Rightarrow> Some x | None \<Rightarrow> search_first m cs)"

definition backtick :: char where "backtick = CHR 0x60"

text \<open>A word in backticks at the start of a text, and what follows.\<close>

definition backticked :: "string \<Rightarrow> (string \<times> string) option" where
  "backticked s =
     (if starts_with_char s backtick
      then let w = takeWhile (\<lambda>c. c \<noteq> backtick) (tl s); t = dropWhile (\<lambda>c. c \<noteq> backtick) (tl s)
           in if w \<noteq> [] \<and> t \<noteq> [] then Some (w, tl t) else None
      else None)"

definition parse_row :: "string list \<Rightarrow> state_row" where
  "parse_row cells =
     (let raw_status = cells ! 2;
          status = (case search_first backticked raw_status of
                      Some (w, _) \<Rightarrow> w | None \<Rightarrow> raw_status)
      in \<lparr>row_phase_id = cells ! 0, row_title = cells ! 1, row_status = status\<rparr>)"

definition is_separator :: "string \<Rightarrow> bool" where
  "is_separator cell \<longleftrightarrow> filter (\<lambda>c. c \<noteq> CHR ''-'' \<and> c \<noteq> CHR '':'') cell = []"

definition line_cells :: "string \<Rightarrow> string list" where
  "line_cells stripped =
     map strip (filter (\<lambda>c. strip c \<noteq> []) (split_on (CHR ''|'') stripped))"

fun phase_rows :: "bool \<Rightarrow> string list \<Rightarrow> state_row list" where
  "phase_rows in_table [] = []"
| "phase_rows in_table (line # rest) =
     (let stripped = strip line; cells = line_cells stripped
      in if CHR ''|'' \<notin> set stripped then phase_rows in_table rest
         else if cells = [] then phase_rows in_table rest
         else if lower (hd cells) \<in> {''phase'', ''phase_id''} then phase_rows True rest
         else if list_all is_separator cells then phase_rows in_table rest
         else if in_table \<and> 3 \<le> length cells
         then parse_row cells # phase_rows in_table rest
         else phase_rows in_table rest)"

definition action_states :: "string list" where
  "action_states = [''READY'', ''IN_PROGRESS'', ''REVIEW'', ''DONE'', ''BLOCKED'']"

text \<open>A phase in backticks, \<open>is\<close>, and one of the states in backticks.\<close>

definition action_at :: "string \<Rightarrow> string option" where
  "action_at s =
     (case backticked s of
        None \<Rightarrow> None
      | Some (w, t) \<Rightarrow>
          let t1 = lstrip t; t2 = drop 2 t1; t3 = lstrip t2
          in if t1 \<noteq> t \<and> starts_with t1 ''is'' \<and> t3 \<noteq> t2 \<and>
                list_ex (\<lambda>st. starts_with t3 ([backtick] @ st @ [backtick])) action_states
             then Some w else None)"

definition is_phase_char :: "char \<Rightarrow> bool" where
  "is_phase_char c \<longleftrightarrow>
     is_digit c \<or> (let n = of_char c :: nat in 97 \<le> n \<and> n \<le> 122) \<or> c = CHR ''-''"

text \<open>A line that starts with a phase id (two digits, a dash, a name) in backticks.\<close>

definition leading_phase :: "string \<Rightarrow> string option" where
  "leading_phase line =
     (let t = lstrip line; w = takeWhile is_phase_char (tl t); after = dropWhile is_phase_char (tl t)
      in if starts_with_char t backtick \<and> starts_with_char after backtick \<and> 4 \<le> length w \<and>
            is_digit (w ! 0) \<and> is_digit (w ! 1) \<and> w ! 2 = CHR ''-''
         then Some w else None)"

fun next_action :: "string list \<Rightarrow> string option" where
  "next_action [] = None"
| "next_action (line # rest) =
     (case search_first action_at line of
        Some w \<Rightarrow> Some w
      | None \<Rightarrow> (case leading_phase line of Some w \<Rightarrow> Some w | None \<Rightarrow> next_action rest))"

definition parse_state_md :: "string \<Rightarrow> state_data" where
  "parse_state_md txt =
     \<lparr>sd_frontmatter = (case parse_frontmatter txt of Some fm \<Rightarrow> fm | None \<Rightarrow> []),
      sd_phase_rows = phase_rows False (splitlines txt),
      sd_next_action = next_action (splitlines txt)\<rparr>"

end
