(* ===== verification/Engagement_Lint.thy ===== *)
theory Engagement_Lint
  imports Workflow_Lint
begin

text \<open>
  The checks of one engagement and of a workflow directory (tools/workflow_lint.py,
  \<open>lint_engagement\<close>, \<open>lint\<close>, \<open>main\<close>). The comments name the checks by the letters of the source.
\<close>

section \<open>The directory\<close>

record engagement_dir =
  ed_name :: string
  ed_phases :: "(string \<times> string) list option"   \<comment> \<open>file name and text; \<open>None\<close>: no \<open>phases/\<close>\<close>
  ed_state_md :: "string option"

definition required_keys :: "string list" where
  "required_keys =
     [''phase_id'', ''title'', ''agent'', ''profile'', ''estimated_effort'', ''prereqs'', ''unblocks'',
      ''parallelizable_with'', ''writes'', ''reads'', ''context_size'']"

definition valid_profiles :: "string list" where
  "valid_profiles =
     [''meta'', ''spec'', ''code-python'', ''code-typescript'', ''code-with-spec'', ''planning'',
      ''test-harness'', ''docs'', ''review'', ''release'']"

definition known_agents :: "string list" where
  "known_agents =
     [''python-pro'', ''api-designer'', ''test-automator'', ''content-marketer'', ''code-reviewer'',
      ''architect-reviewer'', ''sox-cto-system:planner'', ''workflow-architect'', ''qa-expert'',
      ''devops-engineer'', ''fullstack-developer'', ''frontend-developer'', ''backend-developer'',
      ''data-scientist'', ''rust-engineer'', ''golang-pro'', ''typescript-pro'']"

text \<open>\<open>p.stem\<close> of a path: the name without its last suffix.\<close>

definition stem :: "string \<Rightarrow> string" where
  "stem name =
     (let suffix_rev = takeWhile (\<lambda>c. c \<noteq> CHR ''.'') (rev name);
          front_rev = drop (Suc (length suffix_rev)) (rev name)
      in if CHR ''.'' \<in> set name \<and> front_rev \<noteq> [] \<and> suffix_rev \<noteq> [] then rev front_rev else name)"

definition is_phase_file :: "string \<Rightarrow> bool" where
  "is_phase_file name \<longleftrightarrow> suffix ''.md'' name \<and> \<not> contains_str name ''.feedback-''"

definition phase_files :: "(string \<times> string) list \<Rightarrow> (string \<times> string) list" where
  "phase_files files =
     fold (\<lambda>(name, txt) d. dset d (stem name) txt)
       (sort_key fst (filter (is_phase_file \<circ> fst) files)) []"

section \<open>The checks of a phase\<close>

fun fm_is_empty_list :: "fm_value \<Rightarrow> bool" where
  "fm_is_empty_list (FmList xs) = (xs = [])"
| "fm_is_empty_list (FmStr s) = False"

text \<open>(a) required keys\<close>

definition check_key :: "string \<Rightarrow> string \<Rightarrow> frontmatter \<Rightarrow> string \<Rightarrow> lint_result \<Rightarrow> lint_result" where
  "check_key slug ph fm key r =
     (if has_key fm key then r else report Err slug (Some ph) ''frontmatter_schema'' r)"

definition check_keys :: "string \<Rightarrow> string \<Rightarrow> frontmatter \<Rightarrow> lint_result \<Rightarrow> lint_result" where
  "check_keys slug ph fm r = ran (fold (check_key slug ph fm) required_keys r)"

text \<open>(b) the phase id is the file name\<close>

definition check_phase_id :: "string \<Rightarrow> string \<Rightarrow> frontmatter \<Rightarrow> lint_result \<Rightarrow> lint_result" where
  "check_phase_id slug ph fm r =
     ran (case map_of fm ''phase_id'' of
            None \<Rightarrow> r
          | Some v \<Rightarrow> if v \<noteq> FmStr ph
                      then report Err slug (Some ph) ''phase_id_filename_mismatch'' r else r)"

text \<open>(f) the profile; the set test raises for a list, which is not hashable\<close>

definition check_profile ::
    "string \<Rightarrow> string \<Rightarrow> frontmatter \<Rightarrow> lint_result \<Rightarrow> lint_result result" where
  "check_profile slug ph fm r =
     (case map_of fm ''profile'' of
        None \<Rightarrow> Inr (ran r)
      | Some (FmList vs) \<Rightarrow> Inl (TypeError ''unhashable type: list'')
      | Some (FmStr p) \<Rightarrow>
          Inr (ran (if p \<notin> set valid_profiles
                    then report Err slug (Some ph) ''invalid_profile'' r else r)))"

text \<open>(g) the agent\<close>

definition check_agent :: "string \<Rightarrow> string \<Rightarrow> frontmatter \<Rightarrow> lint_result \<Rightarrow> lint_result" where
  "check_agent slug ph fm r =
     ran (case map_of fm ''agent'' of
            None \<Rightarrow> r
          | Some (FmList vs) \<Rightarrow> report Err slug (Some ph) ''invalid_agent'' r
          | Some (FmStr a) \<Rightarrow>
              if strip a = [] then report Err slug (Some ph) ''invalid_agent'' r
              else if a \<notin> set known_agents then report Info slug (Some ph) ''unknown_agent'' r
              else r)"

text \<open>(h) \<open>writes\<close> and \<open>reads\<close> are lists; the items of a parsed list are always strings\<close>

definition check_array :: "string \<Rightarrow> string \<Rightarrow> frontmatter \<Rightarrow> string \<Rightarrow> lint_result \<Rightarrow> lint_result" where
  "check_array slug ph fm field r =
     ran (case map_of fm field of
            Some (FmStr s) \<Rightarrow> report Err slug (Some ph) (''invalid_'' @ field) r
          | _ \<Rightarrow> r)"

definition check_empty_writes :: "string \<Rightarrow> string \<Rightarrow> frontmatter \<Rightarrow> lint_result \<Rightarrow> lint_result" where
  "check_empty_writes slug ph fm r =
     ran (case (map_of fm ''writes'', map_of fm ''profile'') of
            (Some w, Some p) \<Rightarrow>
              if fm_is_empty_list w \<and> p \<notin> {FmStr ''review'', FmStr ''meta''}
              then report Warn slug (Some ph) ''empty_writes'' r else r
          | _ \<Rightarrow> r)"

definition check_phase ::
    "string \<Rightarrow> string \<Rightarrow> frontmatter \<Rightarrow> lint_result \<Rightarrow> lint_result result" where
  "check_phase slug ph fm r =
     bind_res (check_profile slug ph fm (check_phase_id slug ph fm (check_keys slug ph fm (ran r))))
       (\<lambda>r1. Inr (check_empty_writes slug ph fm
                    (fold (check_array slug ph fm) [''writes'', ''reads'']
                      (check_agent slug ph fm r1))))"

fun check_phases ::
    "string \<Rightarrow> (string \<times> string) list \<Rightarrow> (string \<times> frontmatter) list \<Rightarrow> lint_result \<Rightarrow>
     ((string \<times> frontmatter) list \<times> lint_result) result" where
  "check_phases slug [] fms r = Inr (fms, r)"
| "check_phases slug ((ph, txt) # rest) fms r =
     (case parse_frontmatter txt of
        None \<Rightarrow> check_phases slug rest fms
                  (ran (report Err slug (Some ph) ''frontmatter_missing'' r))
      | Some fm \<Rightarrow> bind_res (check_phase slug ph fm r) (\<lambda>r1.
                    check_phases slug rest (dset fms ph fm) r1))"

section \<open>The checks across phases\<close>

text \<open>(c), (d) references to phases\<close>

definition check_ref ::
    "string \<Rightarrow> string list \<Rightarrow> string \<Rightarrow> string \<Rightarrow> string \<Rightarrow> lint_result \<Rightarrow> lint_result" where
  "check_ref slug ids ph field ref r =
     (if ref \<in> set ids then r else report Err slug (Some ph) (''dangling_'' @ field) r)"

definition check_field ::
    "string \<Rightarrow> string list \<Rightarrow> string \<times> frontmatter \<Rightarrow> string \<Rightarrow> lint_result \<Rightarrow> lint_result" where
  "check_field slug ids = (\<lambda>(ph, fm) field r.
     case map_of fm field of
       Some (FmList refs) \<Rightarrow> ran (fold (check_ref slug ids ph field) refs r)
     | _ \<Rightarrow> r)"

definition check_refs ::
    "string \<Rightarrow> string list \<Rightarrow> string \<times> frontmatter \<Rightarrow> lint_result \<Rightarrow> lint_result" where
  "check_refs slug ids p = fold (check_field slug ids p) [''prereqs'', ''unblocks'']"

text \<open>(e) the prerequisite graph; a value that is a string is iterated over by its characters\<close>

definition prereqs_of :: "frontmatter \<Rightarrow> string list" where
  "prereqs_of fm =
     (case map_of fm ''prereqs'' of
        None \<Rightarrow> [] | Some (FmList refs) \<Rightarrow> refs | Some (FmStr s) \<Rightarrow> map (\<lambda>c. [c]) s)"

definition prereq_graph :: "(string \<times> frontmatter) list \<Rightarrow> phase_graph" where
  "prereq_graph fms = fold (\<lambda>(ph, fm) g. dset g ph (prereqs_of fm)) fms []"

definition check_dag ::
    "nat \<Rightarrow> string \<Rightarrow> (string \<times> frontmatter) list \<Rightarrow> lint_result \<Rightarrow> lint_result result" where
  "check_dag n slug fms r =
     bind_res (has_cycle n (prereq_graph fms)) (\<lambda>cycle.
       Inr (ran (case cycle of
                   None \<Rightarrow> r
                 | Some p \<Rightarrow> if p \<noteq> [] then report Err slug None ''cyclic_dependency'' r else r)))"

text \<open>(i), (j) STATE.md\<close>

definition ready_states :: "string list" where
  "ready_states = [''READY'', ''IN_PROGRESS'', ''REVIEW'']"

definition check_next_action :: "string \<Rightarrow> state_data \<Rightarrow> lint_result \<Rightarrow> lint_result" where
  "check_next_action slug sd r =
     (case sd_next_action sd of
        None \<Rightarrow> r
      | Some w \<Rightarrow>
          if w = [] then r
          else ran (if list_ex (\<lambda>row. row_phase_id row = w \<and> row_status row \<in> set ready_states)
                         (sd_phase_rows sd)
                    then r else report Err slug (Some w) ''next_action_not_ready'' r))"

definition check_state_rows :: "string \<Rightarrow> string list \<Rightarrow> state_data \<Rightarrow> lint_result \<Rightarrow> lint_result" where
  "check_state_rows slug ids sd r =
     (let table = map row_phase_id (sd_phase_rows sd);
          orphans = sort (remdups (filter (\<lambda>t. t \<notin> set ids) table));
          missing = sort (remdups (filter (\<lambda>i. i \<notin> set table) ids))
      in ran (fold (\<lambda>m. report Err slug (Some m) ''state_missing'') missing
               (fold (\<lambda>t. report Err slug (Some t) ''state_orphan'') orphans r)))"

definition check_state ::
    "string \<Rightarrow> string list \<Rightarrow> string option \<Rightarrow> lint_result \<Rightarrow> lint_result" where
  "check_state slug ids state_md r =
     (case state_md of
        None \<Rightarrow> ran (report Err slug None ''state_missing_file'' r)
      | Some txt \<Rightarrow>
          (let sd = parse_state_md txt
           in check_next_action slug sd (check_state_rows slug ids sd r)))"

text \<open>(k) paths cited in the Inputs section: informational\<close>

definition is_heading :: "string \<Rightarrow> bool" where
  "is_heading line \<longleftrightarrow>
     starts_with line ''##'' \<and> lstrip (drop 2 line) \<noteq> drop 2 line"

definition is_inputs_heading :: "string \<Rightarrow> bool" where
  "is_inputs_heading line \<longleftrightarrow> is_heading line \<and> starts_with (lstrip (drop 2 line)) ''Inputs''"

definition cited_at :: "string \<Rightarrow> (string \<times> string) option" where
  "cited_at s =
     (case backticked s of
        Some (w, t) \<Rightarrow> if hd w = CHR ''/'' \<and> 2 \<le> length w then Some (w, t) else None
      | None \<Rightarrow> None)"

lemma cited_at_shorter: "cited_at s = Some (w, t) \<Longrightarrow> length t < length s"
proof -
  assume "cited_at s = Some (w, t)"
  then have "s \<noteq> []" "t = tl (dropWhile (\<lambda>c. c \<noteq> backtick) (tl s))"
    by (auto simp: cited_at_def backticked_def starts_with_char_def Let_def
        split: option.splits if_splits)
  moreover have "length (tl (dropWhile (\<lambda>c. c \<noteq> backtick) (tl s))) \<le> length (tl s)"
    by (metis diff_le_self le_trans length_dropWhile_le length_tl)
  ultimately show ?thesis by (cases s) auto
qed

function cited_paths :: "string \<Rightarrow> string list" where
  "cited_paths s =
     (case s of [] \<Rightarrow> []
      | c # cs \<Rightarrow> (case cited_at s of Some (w, t) \<Rightarrow> w # cited_paths t | None \<Rightarrow> cited_paths cs))"
  by pat_completeness auto
termination
  by (relation "measure length") (use cited_at_shorter in force)+

declare cited_paths.simps [simp del]

fun check_inputs ::
    "(string \<Rightarrow> bool) \<Rightarrow> string \<Rightarrow> string \<Rightarrow> bool \<Rightarrow> string list \<Rightarrow> lint_result \<Rightarrow> lint_result" where
  "check_inputs exists_path slug ph in_inputs [] r = r"
| "check_inputs exists_path slug ph in_inputs (line # rest) r =
     (if is_inputs_heading line then check_inputs exists_path slug ph True rest r
      else if in_inputs \<and> is_heading line then check_inputs exists_path slug ph False rest r
      else if in_inputs
      then check_inputs exists_path slug ph in_inputs rest
             (fold (\<lambda>p r. ran (if exists_path p then r
                               else report Info slug (Some ph) ''input_path_missing'' r))
               (cited_paths line) r)
      else check_inputs exists_path slug ph in_inputs rest r)"

text \<open>(l) planning phases have a consumer\<close>

definition check_planning :: "string \<Rightarrow> string \<times> frontmatter \<Rightarrow> lint_result \<Rightarrow> lint_result" where
  "check_planning slug = (\<lambda>(ph, fm) r.
     if map_of fm ''profile'' \<noteq> Some (FmStr ''planning'') then r
     else ran (case map_of fm ''unblocks'' of
                 Some (FmList (x # xs)) \<Rightarrow> r
               | _ \<Rightarrow> report Warn slug (Some ph) ''planning_no_consumer'' r))"

section \<open>The engagement and the directory\<close>

definition lint_engagement ::
    "nat \<Rightarrow> (string \<Rightarrow> bool) \<Rightarrow> engagement_dir \<Rightarrow> lint_result \<Rightarrow> lint_result result" where
  "lint_engagement n exists_path ed r =
     (let slug = ed_name ed
      in case ed_phases ed of
           None \<Rightarrow> Inr (ran (report Info slug None ''analyzer_only_engagement'' r))
         | Some files \<Rightarrow>
             (let pf = phase_files files; ids = map fst pf
              in bind_res (check_phases slug pf [] r) (\<lambda>(fms, r1).
                 bind_res (check_dag n slug fms (fold (check_refs slug ids) fms r1)) (\<lambda>r2.
                 let r3 = check_state slug ids (ed_state_md ed) r2;
                     r4 = fold (\<lambda>(ph, txt). check_inputs exists_path slug ph False (splitlines txt)) pf r3
                 in Inr (fold (check_planning slug) fms r4)))))"

fun lint_all ::
    "nat \<Rightarrow> (string \<Rightarrow> bool) \<Rightarrow> string option \<Rightarrow> engagement_dir list \<Rightarrow> lint_result \<Rightarrow>
     lint_result result" where
  "lint_all n exists_path engagement_filter [] r = Inr r"
| "lint_all n exists_path engagement_filter (ed # rest) r =
     (if ed_name ed = ''README.md'' \<or>
         (case engagement_filter of None \<Rightarrow> False | Some f \<Rightarrow> f \<noteq> [] \<and> ed_name ed \<noteq> f)
      then lint_all n exists_path engagement_filter rest r
      else bind_res (lint_engagement n exists_path ed r)
             (lint_all n exists_path engagement_filter rest))"

text \<open>\<open>plans\<close> holds the subdirectories of \<open>plans/\<close>, \<open>None\<close> when there is no such directory.\<close>

definition lint ::
    "nat \<Rightarrow> (string \<Rightarrow> bool) \<Rightarrow> engagement_dir list option \<Rightarrow> string option \<Rightarrow> lint_result result" where
  "lint n exists_path plans engagement_filter =
     (let r = \<lparr>issues = [], checks_run = 0\<rparr>
      in case plans of
           None \<Rightarrow> Inr (report Err [] None ''plans_dir_missing'' r)
         | Some eds \<Rightarrow> lint_all n exists_path engagement_filter (sort_key ed_name eds) r)"

definition exit_status :: "bool \<Rightarrow> lint_result \<Rightarrow> int" where
  "exit_status strict r =
     (if length (lint_errors r) + (if strict then length (lint_warnings r) else 0) = 0
      then 0 else 1)"

end
