(* ===== verification/Lint_Properties.thy ===== *)
theory Lint_Properties
  imports Engagement_Lint
begin

text \<open>
  What a clean run of the workflow linter means. \<open>engagement_ok\<close> is the declarative condition on
  the files of an engagement; the linter reports an error or raises exactly when it fails.
\<close>

section \<open>Well-formed engagements\<close>

definition phase_ok :: "string \<Rightarrow> frontmatter \<Rightarrow> bool" where
  "phase_ok ph fm \<longleftrightarrow>
     (\<forall>key \<in> set required_keys. has_key fm key) \<and>
     map_of fm ''phase_id'' = Some (FmStr ph) \<and>
     (\<exists>p \<in> set valid_profiles. map_of fm ''profile'' = Some (FmStr p)) \<and>
     (\<exists>a. map_of fm ''agent'' = Some (FmStr a) \<and> strip a \<noteq> []) \<and>
     (\<forall>field \<in> {''writes'', ''reads''}. \<exists>ws. map_of fm field = Some (FmList ws))"

definition refs_ok :: "string list \<Rightarrow> frontmatter \<Rightarrow> bool" where
  "refs_ok ids fm \<longleftrightarrow>
     (\<forall>field \<in> {''prereqs'', ''unblocks''}. \<forall>refs. map_of fm field = Some (FmList refs) \<longrightarrow>
        set refs \<subseteq> set ids)"

definition state_ok :: "string list \<Rightarrow> state_data \<Rightarrow> bool" where
  "state_ok ids sd \<longleftrightarrow>
     row_phase_id ` set (sd_phase_rows sd) = set ids \<and>
     (\<forall>w. sd_next_action sd = Some w \<and> w \<noteq> [] \<longrightarrow>
        (\<exists>row \<in> set (sd_phase_rows sd). row_phase_id row = w \<and> row_status row \<in> set ready_states))"

definition parsed_phases :: "(string \<times> string) list \<Rightarrow> (string \<times> frontmatter) list" where
  "parsed_phases pf =
     concat (map (\<lambda>(ph, txt). case parse_frontmatter txt of None \<Rightarrow> [] | Some fm \<Rightarrow> [(ph, fm)]) pf)"

definition engagement_ok :: "engagement_dir \<Rightarrow> bool" where
  "engagement_ok ed \<longleftrightarrow>
     (case ed_phases ed of
        None \<Rightarrow> True
      | Some files \<Rightarrow>
          (let pf = phase_files files; ids = map fst pf; fms = parsed_phases pf
           in (\<forall>(ph, txt) \<in> set pf. \<exists>fm. parse_frontmatter txt = Some fm \<and> phase_ok ph fm) \<and>
              (\<forall>(ph, fm) \<in> set fms. refs_ok ids fm) \<and>
              acyclic (phase_edges (prereq_graph fms)) \<and>
              (\<exists>txt. ed_state_md ed = Some txt \<and> state_ok ids (parse_state_md txt))))"

section \<open>Verdicts of checks\<close>

text \<open>\<open>clean_iff f P\<close>: the check \<open>f\<close> only appends errors, and none exactly when \<open>P\<close> holds.\<close>

definition clean_iff :: "(lint_result \<Rightarrow> lint_result) \<Rightarrow> bool \<Rightarrow> bool" where
  "clean_iff f P \<longleftrightarrow>
     (\<forall>r. \<exists>new. lint_errors (f r) = lint_errors r @ new \<and> (new = [] \<longleftrightarrow> P))"

text \<open>
  The same for the outcome \<open>y\<close> of a check that may raise, started at \<open>r\<close>; \<open>result\<close> picks the lint
  result of what it returns.
\<close>

definition outcome :: "('a \<Rightarrow> lint_result) \<Rightarrow> lint_result \<Rightarrow> 'a result \<Rightarrow> bool \<Rightarrow> bool" where
  "outcome result r y P \<longleftrightarrow>
     (\<exists>e. y = Inl e \<and> \<not> P) \<or>
     (\<exists>x new. y = Inr x \<and> lint_errors (result x) = lint_errors r @ new \<and> (new = [] \<longleftrightarrow> P))"

lemma lint_errors_simps [simp]:
  "lint_errors (ran r) = lint_errors r"
  "lint_errors (report Warn slug ph c r) = lint_errors r"
  "lint_errors (report Info slug ph c r) = lint_errors r"
  "lint_errors (report Err slug ph c r) =
     lint_errors r @ [\<lparr>li_severity = Err, li_engagement = slug, li_phase_id = ph, li_check = c\<rparr>]"
  by (simp_all add: lint_errors_def ran_def report_def)

lemma clean_iff_cong: "clean_iff f P \<Longrightarrow> P \<longleftrightarrow> Q \<Longrightarrow> clean_iff f Q"
  by simp

lemma clean_iff_silent: "(\<And>r. lint_errors (f r) = lint_errors r) \<Longrightarrow> clean_iff f True"
  by (simp add: clean_iff_def)

lemma clean_iff_if:
  assumes "\<And>r. if P then lint_errors (f r) = lint_errors r
               else (\<exists>i. lint_errors (f r) = lint_errors r @ [i])"
  shows "clean_iff f P"
  using assms by (cases P) (auto simp: clean_iff_def)

lemma clean_iff_ran: "clean_iff f P \<Longrightarrow> clean_iff (\<lambda>r. ran (f r)) P"
  by (simp add: clean_iff_def)

lemma clean_iff_comp:
  assumes "clean_iff f P" "clean_iff g Q"
  shows "clean_iff (\<lambda>r. g (f r)) (P \<and> Q)"
  unfolding clean_iff_def
proof
  fix r
  obtain a where a: "lint_errors (f r) = lint_errors r @ a" "a = [] \<longleftrightarrow> P"
    using assms(1) by (auto simp: clean_iff_def)
  obtain b where b: "lint_errors (g (f r)) = lint_errors (f r) @ b" "b = [] \<longleftrightarrow> Q"
    using assms(2) unfolding clean_iff_def by blast
  from a b show "\<exists>new. lint_errors (g (f r)) = lint_errors r @ new \<and> (new = [] \<longleftrightarrow> P \<and> Q)"
    by (intro exI [of _ "a @ b"]) simp
qed

lemma clean_iff_fold:
  assumes "\<And>x. x \<in> set xs \<Longrightarrow> clean_iff (f x) (P x)"
  shows "clean_iff (fold f xs) (\<forall>x \<in> set xs. P x)"
  using assms
proof (induction xs)
  case Nil
  show ?case by (simp add: clean_iff_def)
next
  case (Cons x xs)
  have "clean_iff (\<lambda>r. fold f xs (f x r)) (P x \<and> (\<forall>x \<in> set xs. P x))"
    using Cons by (intro clean_iff_comp) auto
  then show ?case by (simp add: clean_iff_def)
qed

lemma outcome_clean: "clean_iff f P \<Longrightarrow> outcome (\<lambda>r. r) r (Inr (f r)) P"
  by (auto simp: clean_iff_def outcome_def)

lemma outcome_bind:
  assumes "outcome p r y P" "\<And>x. y = Inr x \<Longrightarrow> outcome q (p x) (g x) Q"
  shows "outcome q r (bind_res y g) (P \<and> Q)"
proof -
  consider e where "y = Inl e" "\<not> P"
    | x a where "y = Inr x" "lint_errors (p x) = lint_errors r @ a" "a = [] \<longleftrightarrow> P"
    using assms(1) unfolding outcome_def by blast
  then show ?thesis
  proof cases
    case (2 x a)
    then consider e where "g x = Inl e" "\<not> Q"
      | z b where "g x = Inr z" "lint_errors (q z) = lint_errors (p x) @ b" "b = [] \<longleftrightarrow> Q"
      using assms(2) unfolding outcome_def by blast
    then show ?thesis
      using 2 by cases (auto simp: outcome_def)
  qed (simp add: outcome_def)
qed

lemma outcome_before:
  assumes "clean_iff f P" "outcome q (f r) y Q"
  shows "outcome q r y (P \<and> Q)"
  using outcome_bind [OF outcome_clean [OF assms(1)], where q = q and g = "\<lambda>_. y" and Q = Q and r = r]
    assms(2) by simp

lemma outcome_cong: "outcome q r y P \<Longrightarrow> P \<longleftrightarrow> Q \<Longrightarrow> outcome q r y Q"
  by simp

section \<open>The checks of a phase\<close>

text \<open>What each check demands when its key is present.\<close>

definition id_ok :: "string \<Rightarrow> frontmatter \<Rightarrow> bool" where
  "id_ok ph fm \<longleftrightarrow> (case map_of fm ''phase_id'' of None \<Rightarrow> True | Some v \<Rightarrow> v = FmStr ph)"

definition profile_ok :: "frontmatter \<Rightarrow> bool" where
  "profile_ok fm \<longleftrightarrow>
     (case map_of fm ''profile'' of
        None \<Rightarrow> True | Some (FmStr p) \<Rightarrow> p \<in> set valid_profiles | Some v \<Rightarrow> False)"

definition agent_ok :: "frontmatter \<Rightarrow> bool" where
  "agent_ok fm \<longleftrightarrow>
     (case map_of fm ''agent'' of Some (FmStr a) \<Rightarrow> strip a \<noteq> [] | Some v \<Rightarrow> False | None \<Rightarrow> True)"

definition array_ok :: "frontmatter \<Rightarrow> string \<Rightarrow> bool" where
  "array_ok fm field \<longleftrightarrow> (case map_of fm field of Some (FmStr s) \<Rightarrow> False | _ \<Rightarrow> True)"

lemma phase_ok_checks:
  "phase_ok ph fm \<longleftrightarrow>
     ((\<forall>key \<in> set required_keys. has_key fm key) \<and> id_ok ph fm) \<and> profile_ok fm \<and>
     (agent_ok fm \<and> (\<forall>field \<in> set [''writes'', ''reads'']. array_ok fm field)) \<and> True"
  by (auto simp: phase_ok_def required_keys_def has_key_map_of id_ok_def profile_ok_def agent_ok_def
      array_ok_def split: option.splits fm_value.splits)

lemma check_keys_clean: "clean_iff (check_keys slug ph fm) (\<forall>key \<in> set required_keys. has_key fm key)"
  unfolding check_keys_def
  by (intro clean_iff_ran clean_iff_fold clean_iff_if) (simp add: check_key_def)

lemma check_phase_id_clean: "clean_iff (check_phase_id slug ph fm) (id_ok ph fm)"
  unfolding check_phase_id_def
  by (intro clean_iff_ran clean_iff_if) (simp add: id_ok_def split: option.splits)

lemma check_agent_clean: "clean_iff (check_agent slug ph fm) (agent_ok fm)"
  unfolding check_agent_def
  by (intro clean_iff_ran clean_iff_if) (simp add: agent_ok_def split: option.splits fm_value.splits)

lemma check_array_clean: "clean_iff (check_array slug ph fm field) (array_ok fm field)"
  unfolding check_array_def
  by (intro clean_iff_ran clean_iff_if) (simp add: array_ok_def split: option.splits fm_value.splits)

lemma check_empty_writes_clean: "clean_iff (check_empty_writes slug ph fm) True"
  unfolding check_empty_writes_def
  by (intro clean_iff_ran clean_iff_silent) (simp split: option.splits)

lemma check_profile_outcome: "outcome (\<lambda>r. r) r (check_profile slug ph fm r) (profile_ok fm)"
  by (auto simp: outcome_def check_profile_def profile_ok_def split: option.splits fm_value.splits)

lemma check_phase_outcome: "outcome (\<lambda>r. r) r (check_phase slug ph fm r) (phase_ok ph fm)"
proof -
  have before: "clean_iff (\<lambda>r. check_phase_id slug ph fm (check_keys slug ph fm (ran r)))
    ((\<forall>key \<in> set required_keys. has_key fm key) \<and> id_ok ph fm)"
    by (intro clean_iff_comp [OF _ check_phase_id_clean] clean_iff_comp [OF _ check_keys_clean,
          where P = True, simplified] clean_iff_silent) simp
  have after: "outcome (\<lambda>r. r) r1 (Inr (check_empty_writes slug ph fm
      (fold (check_array slug ph fm) [''writes'', ''reads''] (check_agent slug ph fm r1))))
    ((agent_ok fm \<and> (\<forall>field \<in> set [''writes'', ''reads'']. array_ok fm field)) \<and> True)" for r1
    by (intro outcome_clean clean_iff_comp [OF _ check_empty_writes_clean]
        clean_iff_comp [OF check_agent_clean] clean_iff_fold check_array_clean)
  show ?thesis
    unfolding check_phase_def phase_ok_checks
    by (rule outcome_before [OF before outcome_bind [OF check_profile_outcome after]])
qed

section \<open>The phases of an engagement\<close>

lemma dset_new: "\<not> has_key d k \<Longrightarrow> dset d k v = d @ [(k, v)]"
  by (induction d) (auto simp: has_key_def)

lemma parsed_phases_Cons:
  "parsed_phases ((ph, txt) # pf) =
     (case parse_frontmatter txt of None \<Rightarrow> [] | Some fm \<Rightarrow> [(ph, fm)]) @ parsed_phases pf"
  by (simp add: parsed_phases_def)

lemma parsed_phases_keys: "fst ` set (parsed_phases pf) \<subseteq> fst ` set pf"
  by (auto simp: parsed_phases_def split: option.splits) force

lemma parsed_phases_distinct: "distinct (map fst pf) \<Longrightarrow> distinct (map fst (parsed_phases pf))"
proof (induction pf)
  case (Cons p pf)
  then show ?case
    using parsed_phases_keys [of pf] by (cases p) (auto simp: parsed_phases_Cons split: option.splits)
qed (simp add: parsed_phases_def)

definition phase_text_ok :: "string \<times> string \<Rightarrow> bool" where
  "phase_text_ok = (\<lambda>(ph, txt). \<exists>fm. parse_frontmatter txt = Some fm \<and> phase_ok ph fm)"

lemma check_phases_outcome:
  assumes "distinct (map fst pf)" "\<forall>ph \<in> fst ` set pf. \<not> has_key fms ph"
  shows "outcome snd r (check_phases slug pf fms r) (\<forall>p \<in> set pf. phase_text_ok p)"
    and "check_phases slug pf fms r = Inr (fms', r') \<Longrightarrow> fms' = fms @ parsed_phases pf"
  using assms
proof (induction pf arbitrary: fms r)
  case Nil
  {
    case 1
    show ?case by (simp add: outcome_def)
  next
    case 2
    then show ?case by (simp add: parsed_phases_def)
  }
next
  case (Cons p pf)
  obtain ph body where p: "p = (ph, body)" by (cases p)
  have more: "\<forall>ph \<in> fst ` set pf. \<not> has_key (dset fms ph' fm) ph"
    if "distinct (map fst (p # pf))" "\<forall>ph \<in> fst ` set (p # pf). \<not> has_key fms ph" "ph' = ph"
    for ph' fm and fms :: "(string \<times> frontmatter) list"
    using that p by auto
  {
    case 1
    show ?case
    proof (cases "parse_frontmatter body")
      case None
      then have "\<not> (\<forall>p \<in> set (p # pf). phase_text_ok p)" by (simp add: p phase_text_ok_def)
      moreover have "outcome snd (ran (report Err slug (Some ph) ''frontmatter_missing'' r))
        (check_phases slug pf fms (ran (report Err slug (Some ph) ''frontmatter_missing'' r)))
        (\<forall>p \<in> set pf. phase_text_ok p)"
        using 1 by (intro Cons.IH(1)) auto
      ultimately show ?thesis by (auto simp: outcome_def p None)
    next
      case (Some fm)
      have "outcome snd r1 (check_phases slug pf (dset fms ph fm) r1)
        (\<forall>p \<in> set pf. phase_text_ok p)" for r1
        using 1 more [OF 1 refl] by (intro Cons.IH(1)) auto
      from outcome_bind [OF check_phase_outcome this]
      have "outcome snd r (check_phases slug (p # pf) fms r)
        (phase_ok ph fm \<and> (\<forall>p \<in> set pf. phase_text_ok p))"
        by (simp add: p Some)
      then show ?thesis by (rule outcome_cong) (simp add: p phase_text_ok_def Some)
    qed
  next
    case 2
    show ?case
    proof (cases "parse_frontmatter body")
      case None
      then show ?thesis
        using 2 Cons.IH(2) [of fms] by (simp add: p parsed_phases_Cons)
    next
      case (Some fm)
      with 2(1) obtain r1 where "check_phases slug pf (dset fms ph fm) r1 = Inr (fms', r')"
        by (auto simp: p bind_res_eq_Inr)
      then have "fms' = dset fms ph fm @ parsed_phases pf"
        using 2(2,3) more [OF 2(2,3) refl] by (intro Cons.IH(2)) auto
      then show ?thesis
        using 2(3) by (simp add: p parsed_phases_Cons Some dset_new)
    qed
  }
qed

section \<open>The checks across phases\<close>

lemma check_field_clean:
  "clean_iff (check_field slug ids (ph, fm) field)
     (\<forall>refs. map_of fm field = Some (FmList refs) \<longrightarrow> set refs \<subseteq> set ids)"
proof (cases "map_of fm field")
  case (Some v)
  then show ?thesis
  proof (cases v)
    case (FmList refs)
    have "clean_iff (\<lambda>r. ran (fold (check_ref slug ids ph field) refs r)) (\<forall>x \<in> set refs. x \<in> set ids)"
      by (intro clean_iff_ran clean_iff_fold clean_iff_if) (simp add: check_ref_def)
    with Some FmList show ?thesis by (simp add: check_field_def subset_eq)
  qed (simp add: check_field_def clean_iff_def)
qed (simp add: check_field_def clean_iff_def)

lemma check_refs_clean:
  "clean_iff (fold (check_refs slug ids) fms) (\<forall>(ph, fm) \<in> set fms. refs_ok ids fm)"
proof (rule clean_iff_fold)
  fix p :: "string \<times> frontmatter"
  obtain ph fm where p: "p = (ph, fm)" by (cases p)
  have "clean_iff (fold (check_field slug ids (ph, fm)) [''prereqs'', ''unblocks''])
    (\<forall>field \<in> set [''prereqs'', ''unblocks'']. \<forall>refs. map_of fm field = Some (FmList refs) \<longrightarrow>
      set refs \<subseteq> set ids)"
    by (intro clean_iff_fold check_field_clean)
  then show "clean_iff (check_refs slug ids p) (case p of (ph, fm) \<Rightarrow> refs_ok ids fm)"
    by (simp add: p check_refs_def refs_ok_def)
qed

lemma prereq_graph_keys: "fst ` set (prereq_graph fms) = fst ` set fms"
proof -
  have "fst ` set (fold (\<lambda>(ph, fm) g. dset g ph (prereqs_of fm)) fms g) = fst ` set g \<union> fst ` set fms"
    for g
  proof (induction fms arbitrary: g)
    case (Cons p fms)
    then show ?case by (cases p) (simp only: fold_simps prod.case keys_dset; auto)
  qed simp
  then show ?thesis by (simp add: prereq_graph_def)
qed

lemma check_dag_outcome:
  assumes "length fms \<le> n"
  shows "outcome (\<lambda>r. r) r (check_dag n slug fms r) (acyclic (phase_edges (prereq_graph fms)))"
proof -
  have "card (fst ` set (prereq_graph fms)) \<le> n"
    using assms card_length [of "map fst fms"] by (simp add: prereq_graph_keys)
  from has_cycle_search [OF this] show ?thesis
    by (elim disjE exE conjE) (auto simp: check_dag_def outcome_def closes_cycle_def)
qed

lemma check_state_clean:
  "clean_iff (check_state slug ids state_md)
     (\<exists>body. state_md = Some body \<and> state_ok ids (parse_state_md body))"
proof (cases state_md)
  case None
  have "clean_iff (\<lambda>r. ran (report Err slug None ''state_missing_file'' r)) False"
    by (intro clean_iff_ran clean_iff_if) simp
  with None show ?thesis unfolding check_state_def by simp
next
  case (Some body)
  let ?sd = "parse_state_md body"
  have reports: "clean_iff (fold (\<lambda>x. report Err slug (Some x) c) xs) (xs = [])" for c xs
  proof -
    have "clean_iff (fold (\<lambda>x. report Err slug (Some x) c) xs) (\<forall>x \<in> set xs. False)"
      by (intro clean_iff_fold clean_iff_if) simp
    then show ?thesis by (rule clean_iff_cong) (cases xs; auto)
  qed
  have rows: "clean_iff (check_state_rows slug ids ?sd)
    (row_phase_id ` set (sd_phase_rows ?sd) = set ids)"
    unfolding check_state_rows_def Let_def
    by (rule clean_iff_cong [OF clean_iff_ran [OF clean_iff_comp [OF reports reports]]])
      (auto simp: sort_key_def [symmetric] filter_empty_conv simp flip: set_empty)
  have act: "clean_iff (check_next_action slug ?sd)
    (\<forall>w. sd_next_action ?sd = Some w \<and> w \<noteq> [] \<longrightarrow>
      (\<exists>row \<in> set (sd_phase_rows ?sd). row_phase_id row = w \<and> row_status row \<in> set ready_states))"
    unfolding check_next_action_def
    by (intro clean_iff_if) (auto simp: list_ex_iff split: option.splits)
  from clean_iff_comp [OF rows act] show ?thesis
    unfolding check_state_def Some by (simp add: Let_def state_ok_def)
qed

text \<open>The informational checks and the check of the planning phases report no errors.\<close>

lemma check_inputs_errors [simp]:
  "lint_errors (check_inputs exists_path slug ph in_inputs lines r) = lint_errors r"
proof -
  have cited: "lint_errors (fold (\<lambda>p r. ran (if exists_path p then r
      else report Info slug (Some ph) ''input_path_missing'' r)) ps r) = lint_errors r" for ps r
    by (induction ps arbitrary: r) simp_all
  show ?thesis
    by (induction lines arbitrary: in_inputs r) (simp_all add: cited del: fold_simps)
qed

lemma check_planning_errors [simp]: "lint_errors (check_planning slug p r) = lint_errors r"
  by (cases p) (simp add: check_planning_def split: option.splits fm_value.splits list.splits)

lemma phase_files_distinct: "distinct (map fst (phase_files files))"
proof -
  have "distinct (map fst (fold (\<lambda>(name, body) d. dset d (stem name) body) xs d))"
    if "distinct (map fst d)" for xs :: "(string \<times> string) list" and d
    using that by (induction xs arbitrary: d) (auto simp: distinct_update)
  then show ?thesis by (simp add: phase_files_def)
qed

lemma phase_files_length: "length (phase_files files) \<le> length files"
proof -
  have "length (fold (\<lambda>(name, body) d. dset d (stem name) body) xs d) \<le> length d + length xs"
    for xs :: "(string \<times> string) list" and d
  proof (induction xs arbitrary: d)
    case (Cons x xs)
    have "length (dset d k v) \<le> Suc (length d)" for k and v :: string
      by (induction d) auto
    with Cons [of "dset d (stem (fst x)) (snd x)"] show ?case
      by (cases x) (auto intro: order_trans)
  qed simp
  from this [of "sort_key fst (filter (is_phase_file \<circ> fst) files)" "[]"] show ?thesis
    by (simp add: phase_files_def) (meson length_filter_le order_trans)
qed

lemma parsed_phases_length: "length (parsed_phases pf) \<le> length pf"
  by (induction pf) (auto simp: parsed_phases_def split: option.splits)

lemma lint_engagement_outcome:
  assumes "\<And>files. ed_phases ed = Some files \<Longrightarrow> length files \<le> n"
  shows "outcome (\<lambda>r. r) r (lint_engagement n exists_path ed r) (engagement_ok ed)"
proof (cases "ed_phases ed")
  case None
  then show ?thesis
    by (simp add: lint_engagement_def engagement_ok_def outcome_def)
next
  case (Some files)
  let ?slug = "ed_name ed" and ?pf = "phase_files files"
  let ?ids = "map fst ?pf" and ?fms = "parsed_phases ?pf"
  have frames: "length ?fms \<le> n"
    using assms [OF Some] phase_files_length [of files] parsed_phases_length [of ?pf] by simp
  let ?rest = "\<lambda>(fms, r1).
    bind_res (check_dag n ?slug fms (fold (check_refs ?slug ?ids) fms r1)) (\<lambda>r2.
      Inr (fold (check_planning ?slug) fms
        (fold (\<lambda>(ph, body). check_inputs exists_path ?slug ph False (splitlines body)) ?pf
          (check_state ?slug ?ids (ed_state_md ed) r2))))"
  have silent: "clean_iff (\<lambda>r. fold (check_planning ?slug) ?fms
      (fold (\<lambda>(ph, body). check_inputs exists_path ?slug ph False (splitlines body)) ?pf r))
      ((\<forall>p \<in> set ?pf. True) \<and> (\<forall>p \<in> set ?fms. True))"
    by (intro clean_iff_comp clean_iff_fold clean_iff_silent) auto
  have last: "outcome (\<lambda>r. r) r2 (Inr (fold (check_planning ?slug) ?fms
      (fold (\<lambda>(ph, body). check_inputs exists_path ?slug ph False (splitlines body)) ?pf
        (check_state ?slug ?ids (ed_state_md ed) r2))))
    ((\<exists>body. ed_state_md ed = Some body \<and> state_ok ?ids (parse_state_md body)) \<and>
     (\<forall>p \<in> set ?pf. True) \<and> (\<forall>p \<in> set ?fms. True))" for r2
    by (rule outcome_clean [OF clean_iff_comp [OF check_state_clean silent]])
  have rest: "outcome (\<lambda>r. r) (snd x) (?rest x)
    ((\<forall>(ph, fm) \<in> set ?fms. refs_ok ?ids fm) \<and> acyclic (phase_edges (prereq_graph ?fms)) \<and>
     (\<exists>body. ed_state_md ed = Some body \<and> state_ok ?ids (parse_state_md body)) \<and>
     (\<forall>p \<in> set ?pf. True) \<and> (\<forall>p \<in> set ?fms. True))"
    if "check_phases ?slug ?pf [] r = Inr x" for x
  proof -
    have "fst x = ?fms"
      using check_phases_outcome(2) [OF phase_files_distinct, where fms = "[]" and fms' = "fst x"
          and r' = "snd x"] that by (simp add: has_key_def)
    then have "x = (?fms, snd x)" by (metis prod.collapse)
    moreover have "outcome (\<lambda>r. r) (snd x) (?rest (?fms, snd x))
      ((\<forall>(ph, fm) \<in> set ?fms. refs_ok ?ids fm) \<and> acyclic (phase_edges (prereq_graph ?fms)) \<and>
     (\<exists>body. ed_state_md ed = Some body \<and> state_ok ?ids (parse_state_md body)) \<and>
     (\<forall>p \<in> set ?pf. True) \<and> (\<forall>p \<in> set ?fms. True))"
      unfolding prod.case
      by (rule outcome_before [OF check_refs_clean outcome_bind [OF check_dag_outcome [OF frames] last]])
    ultimately show ?thesis by simp
  qed
  have "outcome snd r (check_phases ?slug ?pf [] r) (\<forall>p \<in> set ?pf. phase_text_ok p)"
    by (intro check_phases_outcome phase_files_distinct) (simp add: has_key_def)
  from outcome_bind [OF this rest] show ?thesis
    unfolding lint_engagement_def engagement_ok_def Let_def Some option.case
    by (rule outcome_cong) (auto simp: phase_text_ok_def)
qed

section \<open>The run of the linter\<close>

text \<open>Which engagements a run looks at.\<close>

definition linted :: "string option \<Rightarrow> engagement_dir \<Rightarrow> bool" where
  "linted engagement_filter ed \<longleftrightarrow>
     ed_name ed \<noteq> ''README.md'' \<and>
     (case engagement_filter of None \<Rightarrow> True | Some f \<Rightarrow> f = [] \<or> ed_name ed = f)"

lemma lint_all_outcome:
  assumes "\<And>ed files. ed \<in> set eds \<Longrightarrow> ed_phases ed = Some files \<Longrightarrow> length files \<le> n"
  shows "outcome (\<lambda>r. r) r (lint_all n exists_path filt eds r)
    (\<forall>ed \<in> {ed \<in> set eds. linted filt ed}. engagement_ok ed)"
  using assms
proof (induction eds arbitrary: r)
  case Nil
  then show ?case by (simp add: outcome_def)
next
  case (Cons ed eds)
  have rest: "outcome (\<lambda>r. r) r1 (lint_all n exists_path filt eds r1)
    (\<forall>ed \<in> {ed \<in> set eds. linted filt ed}. engagement_ok ed)" for r1
    using Cons.prems by (intro Cons.IH) auto
  show ?case
  proof (cases "linted filt ed")
    case True
    have "outcome (\<lambda>r. r) r (bind_res (lint_engagement n exists_path ed r)
        (lint_all n exists_path filt eds))
      (engagement_ok ed \<and> (\<forall>ed \<in> {ed \<in> set eds. linted filt ed}. engagement_ok ed))"
      using Cons.prems by (intro outcome_bind [OF lint_engagement_outcome rest]) auto
    then show ?thesis
      using True by (auto simp: linted_def split: option.splits elim!: outcome_cong)
  next
    case False
    then have "lint_all n exists_path filt (ed # eds) r = lint_all n exists_path filt eds r"
      by (auto simp: linted_def split: option.splits)
    with rest [of r] False show ?thesis by (auto elim!: outcome_cong)
  qed
qed

text \<open>C36.
  The workflow linter exits with status 0 exactly when every engagement it looks at is well
  formed: each phase file has a frontmatter with the required keys, its own name as id, a known
  profile, a non-empty agent and lists of reads and writes; all listed references exist; the
  prerequisites form no cycle; STATE.md lists exactly the phases and its next action is ready. One stack
  frame per file is enough, so it always ends with an answer, or with the exception of an
  ill-formed profile.\<close>

theorem lint_exit_status:
  assumes "\<And>ed files. ed \<in> set eds \<Longrightarrow> ed_phases ed = Some files \<Longrightarrow> length files \<le> n"
  shows "(\<exists>r. lint n exists_path (Some eds) filt = Inr r \<and> exit_status False r = 0) \<longleftrightarrow>
         (\<forall>ed \<in> {ed \<in> set eds. linted filt ed}. engagement_ok ed)"
proof -
  have "outcome (\<lambda>r. r) \<lparr>issues = [], checks_run = 0\<rparr> (lint n exists_path (Some eds) filt)
    (\<forall>ed \<in> {ed \<in> set (sort_key ed_name eds). linted filt ed}. engagement_ok ed)"
    unfolding lint_def Let_def option.case using assms by (intro lint_all_outcome) auto
  moreover have "lint_errors \<lparr>issues = [], checks_run = 0\<rparr> = []"
    by (simp add: lint_errors_def)
  ultimately show ?thesis
    by (auto simp: outcome_def exit_status_def)
qed

definition empty_engagement :: engagement_dir where
  "empty_engagement = \<lparr>ed_name = ''e'', ed_phases = Some [], ed_state_md = Some ''# State''\<rparr>"

definition broken_engagement :: engagement_dir where
  "broken_engagement =
     \<lparr>ed_name = ''f'', ed_phases = Some [(''01-a.md'', ''# A'')], ed_state_md = Some ''# State''\<rparr>"

definition toy_exit :: "engagement_dir list \<Rightarrow> int option" where
  "toy_exit eds = (case lint 2 (\<lambda>p. True) (Some eds) None of
     Inr r \<Rightarrow> Some (exit_status False r) | Inl e \<Rightarrow> None)"

lemma toy_exits:
  "toy_exit [empty_engagement] = Some 0"
  "toy_exit [empty_engagement, broken_engagement] = Some 1"
  by code_simp+

lemma toy_exit_iff:
  "(\<exists>r. lint 2 (\<lambda>p. True) (Some eds) None = Inr r \<and> exit_status False r = 0) \<longleftrightarrow>
   toy_exit eds = Some 0"
  by (auto simp: toy_exit_def split: sum.splits)

lemma lint_exit_status_witness:
  "engagement_ok empty_engagement \<and> \<not> engagement_ok broken_engagement"
proof -
  let ?one = "[empty_engagement]" and ?two = "[empty_engagement, broken_engagement]"
  have "(\<exists>r. lint 2 (\<lambda>p. True) (Some ?one) None = Inr r \<and> exit_status False r = 0) \<longleftrightarrow>
    (\<forall>ed \<in> {ed \<in> set ?one. linted None ed}. engagement_ok ed)"
    by (rule lint_exit_status) (auto simp: empty_engagement_def)
  moreover have "linted None empty_engagement"
    by (simp add: linted_def empty_engagement_def)
  ultimately have ok: "engagement_ok empty_engagement"
    unfolding toy_exit_iff toy_exits by auto
  have "(\<exists>r. lint 2 (\<lambda>p. True) (Some ?two) None = Inr r \<and> exit_status False r = 0) \<longleftrightarrow>
    (\<forall>ed \<in> {ed \<in> set ?two. linted None ed}. engagement_ok ed)"
    by (rule lint_exit_status) (auto simp: empty_engagement_def broken_engagement_def)
  then have "\<not> (\<forall>ed \<in> {ed \<in> set ?two. linted None ed}. engagement_ok ed)"
    unfolding toy_exit_iff toy_exits by simp
  with ok show ?thesis by auto
qed

text \<open>
  A block list is read as one string: its references are not checked, and the cycle they form is
  not seen.
\<close>

lemma block_list_is_text:
  "parse_frontmatter (join [newline_char] [''---'', ''prereqs:'', ''  - 01-a'', ''---'']) =
     Some [(''prereqs'', FmStr ''- 01-a'')]"
  by code_simp

text \<open>A profile that is a list ends the whole run with an exception.\<close>

lemma list_profile_raises:
  "map_of fm ''profile'' = Some (FmList vs) \<Longrightarrow> \<exists>m. check_profile slug ph fm r = Inl (TypeError m)"
  by (simp add: check_profile_def)

end
