(* ===== verification/Conformance_Match.thy ===== *)
theory Conformance_Match
  imports Py_Values
begin

text \<open>
  The output matcher of the conformance runner (tools/conformance_runner.py): equality of Python
  values, wildcards, the subset match and captures. A match is a truth value; the text of its
  reason is left out. Dicts have distinct keys.
\<close>

section \<open>Equality of values\<close>

text \<open>\<open>True == 1 == 1.0\<close>: truth values and numbers are compared as numbers.\<close>

fun py_number :: "pyval \<Rightarrow> real option" where
  "py_number (PBool b) = Some (if b then 1 else 0)"
| "py_number (PInt i) = Some (of_int i)"
| "py_number (PFloat x) = Some x"
| "py_number v = None"

fun py_eq :: "pyval \<Rightarrow> pyval \<Rightarrow> bool"
and py_eq_list :: "pyval list \<Rightarrow> pyval list \<Rightarrow> bool"
and py_eq_dict :: "pydict \<Rightarrow> pydict \<Rightarrow> bool" where
  "py_eq (PStr s) v = (v = PStr s)"
| "py_eq PNone v = (v = PNone)"
| "py_eq (PSigned r) v = (v = PSigned r)"
| "py_eq (PList xs) v = (case v of PList ys \<Rightarrow> py_eq_list xs ys | _ \<Rightarrow> False)"
| "py_eq (PDict d) v = (case v of PDict e \<Rightarrow> length d = length e \<and> py_eq_dict d e | _ \<Rightarrow> False)"
| "py_eq (PBool b) v = (py_number v = Some (if b then 1 else 0))"
| "py_eq (PInt i) v = (py_number v = Some (of_int i))"
| "py_eq (PFloat x) v = (py_number v = Some x)"
| "py_eq_list [] ys = (ys = [])"
| "py_eq_list (x # xs) ys = (case ys of [] \<Rightarrow> False | y # ys' \<Rightarrow> py_eq x y \<and> py_eq_list xs ys')"
| "py_eq_dict [] e = True"
| "py_eq_dict ((k, v) # d) e =
     ((case dget e k of None \<Rightarrow> False | Some w \<Rightarrow> py_eq v w) \<and> py_eq_dict d e)"

section \<open>Wildcards\<close>

datatype wildcard = AnyString | AnyNumber | AnyArray | AnyObject | AnyBool | Capture string

definition is_capture_char :: "char \<Rightarrow> bool" where
  "is_capture_char c \<longleftrightarrow>
     (let n = of_char c :: nat in 48 \<le> n \<and> n \<le> 57 \<or> 65 \<le> n \<and> n \<le> 90 \<or> 97 \<le> n \<and> n \<le> 122) \<or>
     c \<in> {CHR ''_'', CHR ''-'', CHR ''.''}"

definition wildcard_of_name :: "string \<Rightarrow> wildcard option" where
  "wildcard_of_name w =
     (if w = ''any_string'' then Some AnyString
      else if w = ''any_number'' then Some AnyNumber
      else if w = ''any_array'' then Some AnyArray
      else if w = ''any_object'' then Some AnyObject
      else if w = ''any_bool'' then Some AnyBool
      else if starts_with w ''capture:'' \<and> drop 8 w \<noteq> [] \<and> list_all is_capture_char (drop 8 w)
      then Some (Capture (drop 8 w)) else None)"

text \<open>\<open>_WILDCARD_PATTERN.match\<close>; the \<open>$\<close> also stands before a newline that ends the text.\<close>

definition parse_wildcard :: "string \<Rightarrow> wildcard option" where
  "parse_wildcard s =
     (let t = (if s \<noteq> [] \<and> last s = char_of (10 :: nat) then butlast s else s)
      in if starts_with t ''{{'' \<and> suffix ''}}'' t \<and> 4 \<le> length t
         then wildcard_of_name (take (length t - 4) (drop 2 t)) else None)"

type_synonym captures = "(string \<times> pyval) list"

fun is_py_bool :: "pyval \<Rightarrow> bool" where
  "is_py_bool (PBool b) = True"
| "is_py_bool v = False"

fun wildcard_matches :: "captures \<Rightarrow> wildcard \<Rightarrow> pyval \<Rightarrow> bool" where
  "wildcard_matches caps AnyString v = is_str v"
| "wildcard_matches caps AnyNumber v = is_num v"
| "wildcard_matches caps AnyArray v = is_list v"
| "wildcard_matches caps AnyObject v = is_dict v"
| "wildcard_matches caps AnyBool v = is_py_bool v"
| "wildcard_matches caps (Capture key) v =
     (case dget caps key of None \<Rightarrow> False | Some c \<Rightarrow> c \<noteq> PNone \<and> py_eq v c)"

section \<open>The subset match\<close>

fun matches :: "captures \<Rightarrow> pyval \<Rightarrow> pyval \<Rightarrow> bool"
and matches_items :: "captures \<Rightarrow> pydict \<Rightarrow> pydict \<Rightarrow> bool"
and matches_prefix :: "captures \<Rightarrow> pyval list \<Rightarrow> pyval list \<Rightarrow> bool" where
  "matches caps (PStr s) actual =
     (case parse_wildcard s of Some w \<Rightarrow> wildcard_matches caps w actual
      | None \<Rightarrow> py_eq actual (PStr s))"
| "matches caps (PDict d) actual =
     (case actual of PDict e \<Rightarrow> matches_items caps d e | _ \<Rightarrow> False)"
| "matches caps (PList xs) actual =
     (case actual of PList ys \<Rightarrow> length xs \<le> length ys \<and> matches_prefix caps xs ys | _ \<Rightarrow> False)"
| "matches caps PNone actual = py_eq actual PNone"
| "matches caps (PBool b) actual = py_eq actual (PBool b)"
| "matches caps (PInt i) actual = py_eq actual (PInt i)"
| "matches caps (PFloat x) actual = py_eq actual (PFloat x)"
| "matches caps (PSigned r) actual = py_eq actual (PSigned r)"
| "matches_items caps [] e = True"
| "matches_items caps ((k, v) # d) e =
     (case dget e k of None \<Rightarrow> False | Some w \<Rightarrow> matches caps v w \<and> matches_items caps d e)"
| "matches_prefix caps [] ys = True"
| "matches_prefix caps (x # xs) ys =
     (case ys of [] \<Rightarrow> False | y # ys' \<Rightarrow> matches caps x y \<and> matches_prefix caps xs ys')"

section \<open>Captures\<close>

fun resolve_captures :: "captures \<Rightarrow> pyval \<Rightarrow> pyval" where
  "resolve_captures caps (PStr s) =
     (case parse_wildcard s of Some (Capture key) \<Rightarrow> dget_default caps key (PStr s) | _ \<Rightarrow> PStr s)"
| "resolve_captures caps (PDict d) = PDict (map (\<lambda>(k, v). (k, resolve_captures caps v)) d)"
| "resolve_captures caps (PList xs) = PList (map (resolve_captures caps) xs)"
| "resolve_captures caps v = v"

text \<open>Every top-level field of an output is captured as \<open>step.field\<close>.\<close>

definition extract_capture :: "string \<Rightarrow> pyval \<Rightarrow> captures" where
  "extract_capture step_id output =
     (case output of
        PDict d \<Rightarrow> fold (\<lambda>(k, v) caps. dset caps (step_id @ ''.'' @ k) v) d []
      | _ \<Rightarrow> [])"

definition update_captures :: "captures \<Rightarrow> captures \<Rightarrow> captures" where
  "update_captures caps new = fold (\<lambda>(k, v) c. dset c k v) new caps"

section \<open>What the matcher accepts\<close>

text \<open>
  The match as a relation: a dict may have further keys and a list further elements at its end;
  everything else is a wildcard or equal.
\<close>

inductive satisfies :: "captures \<Rightarrow> pyval \<Rightarrow> pyval \<Rightarrow> bool" for caps where
  wild: "parse_wildcard s = Some w \<Longrightarrow> wildcard_matches caps w v \<Longrightarrow> satisfies caps (PStr s) v"
| str: "parse_wildcard s = None \<Longrightarrow> satisfies caps (PStr s) (PStr s)"
| scalar: "e \<in> {PNone} \<union> range PBool \<union> range PInt \<union> range PFloat \<union> range PSigned \<Longrightarrow> py_eq v e \<Longrightarrow>
    satisfies caps e v"
| dict: "(\<And>k x. (k, x) \<in> set d \<Longrightarrow> \<exists>y. dget e k = Some y \<and> satisfies caps x y) \<Longrightarrow>
    satisfies caps (PDict d) (PDict e)"
| list: "length xs \<le> length ys \<Longrightarrow> (\<And>i. i < length xs \<Longrightarrow> satisfies caps (xs ! i) (ys ! i)) \<Longrightarrow>
    satisfies caps (PList xs) (PList ys)"

inductive_cases satisfies_strE: "satisfies caps (PStr s) v"
inductive_cases satisfies_dictE: "satisfies caps (PDict d) v"
inductive_cases satisfies_listE: "satisfies caps (PList xs) v"

inductive_simps satisfies_scalar:
  "satisfies caps PNone v" "satisfies caps (PBool b) v" "satisfies caps (PInt i) v"
  "satisfies caps (PFloat x) v" "satisfies caps (PSigned r) v"

lemma py_eq_PStr: "py_eq v (PStr s) \<longleftrightarrow> v = PStr s"
  by (cases v) auto

lemma matches_items_iff:
  "matches_items caps d e \<longleftrightarrow> (\<forall>(k, v) \<in> set d. \<exists>w. dget e k = Some w \<and> matches caps v w)"
  by (induction d) (auto split: option.splits)

lemma matches_prefix_iff:
  "matches_prefix caps xs ys \<longleftrightarrow>
     length xs \<le> length ys \<and> (\<forall>i < length xs. matches caps (xs ! i) (ys ! i))"
proof (induction xs arbitrary: ys)
  case (Cons x xs)
  then show ?case by (cases ys) (auto simp: All_less_Suc2)
qed simp

lemma matches_satisfies: "matches caps e v \<longleftrightarrow> satisfies caps e v"
proof
  show "matches caps e v \<Longrightarrow> satisfies caps e v"
  proof (induction e arbitrary: v)
    case (PStr s)
    then show ?case
      by (auto simp: py_eq_PStr split: option.splits intro: satisfies.wild satisfies.str)
  next
    case (PList xs)
    then show ?case
      by (auto simp: matches_prefix_iff split: pyval.splits intro!: satisfies.list)
  next
    case (PDict d)
    then show ?case
      by (fastforce simp: matches_items_iff split: pyval.splits intro!: satisfies.dict)
  qed (auto intro: satisfies.scalar)
  show "satisfies caps e v \<Longrightarrow> matches caps e v"
  proof (induction rule: satisfies.induct)
    case (dict d e)
    then show ?case by (auto simp: matches_items_iff)
  next
    case (list xs ys)
    then show ?case by (auto simp: matches_prefix_iff)
  qed auto
qed

end
