(* ===== verification/Conformance_Runner.thy ===== *)
theory Conformance_Runner
  imports Conformance_Match Server_Chain
begin

text \<open>
  Fixtures and their execution (tools/conformance_runner.py): loading, the assertions, the step
  loop and the result of a run. A target is the record of its methods over a state. Fields of a
  fixture have the types of the source's annotations; the texts of errors and diffs are left out,
  an assertion error is the name of its assertion.
\<close>

section \<open>Data model\<close>

record fixture =
  fx_path :: "string list"
  fx_name :: pyval
  fx_pending :: bool
  fx_agents :: "pydict list"
  fx_setup :: "pydict list"
  fx_sequence :: "pydict list"
  fx_assertions :: "pydict list"

record step_result =
  sr_step_id :: string
  sr_ok :: bool
  sr_output :: pyval

record fixture_result =
  fr_passed :: bool
  fr_skipped :: bool
  fr_step_results :: "step_result list"
  fr_assertion_errors :: "string list"
  fr_error :: bool

definition run_passed :: "fixture_result list \<Rightarrow> nat" where
  "run_passed frs = length (filter (\<lambda>r. fr_passed r \<and> \<not> fr_skipped r) frs)"

definition run_failed :: "fixture_result list \<Rightarrow> nat" where
  "run_failed frs = length (filter (\<lambda>r. \<not> fr_passed r \<and> \<not> fr_skipped r) frs)"

definition run_skipped :: "fixture_result list \<Rightarrow> nat" where
  "run_skipped frs = length (filter fr_skipped frs)"

definition run_total :: "fixture_result list \<Rightarrow> nat" where
  "run_total frs = length frs"

definition exit_code :: "fixture_result list \<Rightarrow> int" where
  "exit_code frs = (if run_failed frs = 0 then 0 else 1)"

section \<open>Loading\<close>

definition required_fixture_keys :: "string list" where
  "required_fixture_keys = [''name'', ''spec_ref'', ''description'', ''sequence'']"

definition dicts_at :: "pydict \<Rightarrow> string \<Rightarrow> pydict list" where
  "dicts_at raw k = map as_dict (as_list (dget_default raw k (PList [])))"

definition load_fixture :: "string list \<Rightarrow> pyval \<Rightarrow> fixture result" where
  "load_fixture path raw0 =
     (case raw0 of
        PDict raw \<Rightarrow>
          if \<not> list_all (has_key raw) required_fixture_keys
          then Inl (ValueError ''missing required keys'')
          else if \<not> is_list (dget_default raw ''sequence'' (PList []))
          then Inl (ValueError ''sequence must be a list'')
          else Inr \<lparr>fx_path = path, fx_name = dget_default raw ''name'' PNone,
                    fx_pending = truthy (dget_default raw ''pending'' (PBool False)),
                    fx_agents = dicts_at raw ''agents'', fx_setup = dicts_at raw ''setup'',
                    fx_sequence = dicts_at raw ''sequence'',
                    fx_assertions = dicts_at raw ''assertions''\<rparr>
      | _ \<Rightarrow> Inl (ValueError ''fixture must be a YAML mapping''))"

text \<open>The files are given by the parts of their paths and their parsed contents.\<close>

fun load_all :: "(string list \<times> pyval) list \<Rightarrow> fixture list result" where
  "load_all [] = Inr []"
| "load_all ((path, raw) # rest) =
     (case load_fixture path raw of
        Inl e \<Rightarrow> Inl (ValueError ''Failed to load fixture'')
      | Inr fx \<Rightarrow> bind_res (load_all rest) (\<lambda>fxs. Inr (fx # fxs)))"

definition load_fixtures ::
    "(string list \<times> pyval) list \<Rightarrow> string option \<Rightarrow> fixture list result" where
  "load_fixtures files category =
     (let paths = sort_key fst files
      in case category of
           None \<Rightarrow> load_all paths
         | Some c \<Rightarrow>
             if c = [] then load_all paths
             else (let cats = map strip (split_on (CHR '','') c)
                   in load_all (filter (\<lambda>(path, raw). list_ex (\<lambda>cat. cat \<in> set path) cats) paths)))"

section \<open>Assertions\<close>

type_synonym step_results = "(string \<times> step_result) list"

text \<open>
  The items that \<open>len\<close> and iteration see: the characters of a string, the keys of an object; any other
  \<open>messages\<close> or \<open>members\<close> field makes the assertion raise.
\<close>

definition sized_items :: "pyval \<Rightarrow> pyval list result" where
  "sized_items v = (case v of
     PList vs \<Rightarrow> Inr vs
   | PStr s \<Rightarrow> Inr (map (\<lambda>c. PStr [c]) s)
   | PDict d \<Rightarrow> Inr (map (\<lambda>(k, _). PStr k) d)
   | _ \<Rightarrow> Inl (TypeError ''len''))"


definition get_messages :: "step_results \<Rightarrow> string \<Rightarrow> pyval list result" where
  "get_messages srs step_id =
     (case dget srs step_id of
        None \<Rightarrow> Inr []
      | Some sr \<Rightarrow>
          (case sr_output sr of
             PDict out \<Rightarrow>
               (case dget out ''messages'' of
                  Some v \<Rightarrow> sized_items v
                | None \<Rightarrow> (case dget out ''members'' of Some v \<Rightarrow> sized_items v | None \<Rightarrow> Inr []))
           | _ \<Rightarrow> Inr []))"

text \<open>\<open>assertion[k]\<close> and the messages of the step it names.\<close>

definition required_field :: "pydict \<Rightarrow> string \<Rightarrow> pyval result" where
  "required_field d k = (case dget d k of Some v \<Rightarrow> Inr v | None \<Rightarrow> Inl (KeyError k))"

definition messages_of_step :: "py_env \<Rightarrow> step_results \<Rightarrow> pydict \<Rightarrow> pyval list result" where
  "messages_of_step env srs a =
     bind_res (required_field a ''recv_step'') (\<lambda>v. get_messages srs (py_str (pe_repr env) v))"

definition dict_items :: "pyval list \<Rightarrow> pydict list" where
  "dict_items ms = map as_dict (filter is_dict ms)"

definition on_channel :: "pyval \<Rightarrow> pydict list \<Rightarrow> pydict list" where
  "on_channel channel ms =
     (if truthy channel
      then filter (\<lambda>m. py_eq (dget_default m ''channel'' PNone) channel) ms else ms)"

text \<open>Elements of a set must be hashable; \<open>py_distinct\<close> is \<open>len(ids) == len(set(ids))\<close>.\<close>

definition hashable :: "pyval \<Rightarrow> bool" where
  "hashable v \<longleftrightarrow> \<not> is_list v \<and> \<not> is_dict v"

fun py_distinct :: "pyval list \<Rightarrow> bool" where
  "py_distinct [] = True"
| "py_distinct (x # xs) = (\<not> list_ex (py_eq x) xs \<and> py_distinct xs)"

text \<open>
  \<open>values == sorted(values)\<close> on numbers or on strings; \<open>sorted\<close> raises on a mixture. Lists of
  lists are not modelled.
\<close>

definition ascending :: "pyval list \<Rightarrow> bool result" where
  "ascending vs =
     (if list_all is_num vs then Inr (sorted (map (the \<circ> py_number) vs))
      else if list_all is_str vs then Inr (sorted (map (py_str (\<lambda>v. [])) vs))
      else if length vs \<le> 1 then Inr True
      else Inl (TypeError ''not comparable''))"

definition body_value :: "string \<Rightarrow> pydict \<Rightarrow> pyval result" where
  "body_value field m =
     (case dget_default m ''body'' (PDict []) of
        PDict d \<Rightarrow> Inr (dget_default d field PNone)
      | _ \<Rightarrow> Inl (AttributeError ''get''))"

fun map_res :: "('a \<Rightarrow> 'b result) \<Rightarrow> 'a list \<Rightarrow> 'b list result" where
  "map_res f [] = Inr []"
| "map_res f (x # xs) = bind_res (f x) (\<lambda>y. bind_res (map_res f xs) (\<lambda>ys. Inr (y # ys)))"

definition fails_if :: "string \<Rightarrow> bool \<Rightarrow> string list result" where
  "fails_if name b = Inr (if b then [name] else [])"

definition count_of :: "pydict \<Rightarrow> string \<Rightarrow> int \<Rightarrow> int" where
  "count_of a k dflt = (case dget_default a k (PInt dflt) of PInt i \<Rightarrow> i | _ \<Rightarrow> dflt)"

definition str_field :: "py_env \<Rightarrow> pydict \<Rightarrow> string \<Rightarrow> string \<Rightarrow> string" where
  "str_field env a k dflt = py_str (pe_repr env) (dget_default a k (PStr dflt))"

definition assert_min :: "py_env \<Rightarrow> string \<Rightarrow> step_results \<Rightarrow> pydict \<Rightarrow> string list result" where
  "assert_min env name srs a =
     bind_res (messages_of_step env srs a) (\<lambda>ms. fails_if name (int (length ms) < count_of a ''min'' 1))"

definition assert_no_duplication :: "py_env \<Rightarrow> step_results \<Rightarrow> pydict \<Rightarrow> string list result" where
  "assert_no_duplication env srs a =
     bind_res (messages_of_step env srs a) (\<lambda>ms.
       let ids = map (\<lambda>m. dget_default m ''message_id'' PNone) (dict_items ms)
       in if \<not> list_all hashable ids then Inl (TypeError ''unhashable type'')
          else fails_if ''no_duplication'' (\<not> py_distinct ids))"

definition assert_no_redelivery :: "py_env \<Rightarrow> step_results \<Rightarrow> pydict \<Rightarrow> string list result" where
  "assert_no_redelivery env srs a =
     bind_res (messages_of_step env srs a) (\<lambda>ms.
       fails_if ''no_redelivery'' (int (length ms) \<noteq> count_of a ''expected_count'' 0))"

definition assert_ordering :: "py_env \<Rightarrow> step_results \<Rightarrow> pydict \<Rightarrow> string list result" where
  "assert_ordering env srs a =
     bind_res (messages_of_step env srs a) (\<lambda>ms.
       let vs = map (\<lambda>m. dget_default m (str_field env a ''by'' ''seq'') PNone)
                  (on_channel (dget_default a ''channel'' PNone) (dict_items ms))
       in bind_res (ascending (filter (\<lambda>v. v \<noteq> PNone) vs)) (\<lambda>asc.
            fails_if ''ordering'' (\<not> (asc \<and> PNone \<notin> set vs))))"

definition assert_body_seq_ascending ::
    "py_env \<Rightarrow> step_results \<Rightarrow> pydict \<Rightarrow> string list result" where
  "assert_body_seq_ascending env srs a =
     bind_res (messages_of_step env srs a) (\<lambda>ms.
       bind_res (map_res (body_value (str_field env a ''body_field'' ''seq''))
           (on_channel (dget_default a ''channel'' PNone) (dict_items ms))) (\<lambda>vs.
         bind_res (ascending (filter (\<lambda>v. case v of PInt i \<Rightarrow> True | PBool b \<Rightarrow> True | _ \<Rightarrow> False) vs))
           (\<lambda>asc. fails_if ''body_seq_ascending'' (\<not> asc))))"

definition assert_received_count :: "py_env \<Rightarrow> step_results \<Rightarrow> pydict \<Rightarrow> string list result" where
  "assert_received_count env srs a =
     bind_res (messages_of_step env srs a) (\<lambda>ms.
       fails_if ''received_count''
         (\<not> (count_of a ''min'' 0 \<le> int (length ms) \<and> int (length ms) \<le> count_of a ''max'' 999999)))"

definition assert_no_channel_leak :: "py_env \<Rightarrow> step_results \<Rightarrow> pydict \<Rightarrow> string list result" where
  "assert_no_channel_leak env srs a =
     bind_res (required_field a ''recv_step'') (\<lambda>v.
     bind_res (required_field a ''forbidden_channel'') (\<lambda>forbidden.
     bind_res (get_messages srs (py_str (pe_repr env) v)) (\<lambda>ms.
       fails_if ''no_channel_leak''
         (list_ex (\<lambda>m. py_eq (dget_default m ''channel'' PNone) forbidden) (dict_items ms)))))"

definition assert_channels_match :: "py_env \<Rightarrow> step_results \<Rightarrow> pydict \<Rightarrow> string list result" where
  "assert_channels_match env srs a =
     bind_res (required_field a ''recv_step'') (\<lambda>v.
     bind_res (required_field a ''pattern'') (\<lambda>pattern.
     bind_res (get_messages srs (py_str (pe_repr env) v)) (\<lambda>ms.
       fails_if ''all_channels_match_pattern''
         (list_ex (\<lambda>m. \<not> fnmatchcase (str_field env m ''channel'' []) (py_str (pe_repr env) pattern))
           (dict_items ms)))))"

definition assert_all_receivers :: "py_env \<Rightarrow> step_results \<Rightarrow> pydict \<Rightarrow> string list result" where
  "assert_all_receivers env srs a =
     bind_res (map_res (\<lambda>rs. get_messages srs (py_str (pe_repr env) rs))
                (as_list (dget_default a ''recv_steps'' (PList [])))) (\<lambda>mss.
       Inr (map (\<lambda>ms. ''all_receivers_got_message'') (filter (\<lambda>ms. ms = []) mss)))"

definition assert_all_writers :: "py_env \<Rightarrow> step_results \<Rightarrow> pydict \<Rightarrow> string list result" where
  "assert_all_writers env srs a =
     bind_res (messages_of_step env srs a) (\<lambda>ms.
     bind_res (map_res (body_value (str_field env a ''body_field'' ''writer'')) (dict_items ms)) (\<lambda>vs.
       let seen = filter (\<lambda>v. v \<noteq> PNone) vs; writers = as_list (dget_default a ''writers'' (PList []))
       in if \<not> list_all hashable (seen @ writers) then Inl (TypeError ''unhashable type'')
          else fails_if ''all_writers_represented''
                 (list_ex (\<lambda>w. \<not> list_ex (py_eq w) seen) writers)))"

definition assert_message_id_present :: "py_env \<Rightarrow> step_results \<Rightarrow> pydict \<Rightarrow> string list result" where
  "assert_message_id_present env srs a =
     bind_res (messages_of_step env srs a) (\<lambda>ms. fails_if ''message_id_present'' (ms = []))"

definition assert_contains_agent :: "py_env \<Rightarrow> step_results \<Rightarrow> pydict \<Rightarrow> string list result" where
  "assert_contains_agent env srs a =
     bind_res (required_field a ''step'') (\<lambda>step.
     bind_res (required_field a ''agent_id'') (\<lambda>target.
       case dget srs (py_str (pe_repr env) step) of
         None \<Rightarrow> Inr [''contains_agent'']
       | Some sr \<Rightarrow>
           if truthy (sr_output sr) \<and> \<not> is_dict (sr_output sr) then Inl (AttributeError ''get'')
           else (let agents = as_list (dget_default (as_dict (sr_output sr)) ''agents'' (PList []));
                     matching = filter (\<lambda>d. py_eq (dget_default d ''agent_id'' PNone) target)
                                  (dict_items agents);
                     expected = dget_default a ''presence_state'' PNone
                 in case matching of
                      [] \<Rightarrow> if list_all is_dict agents then Inr [''contains_agent'']
                             else Inl (AttributeError ''get'')
                    | d # _ \<Rightarrow> fails_if ''contains_agent''
                        (expected \<noteq> PNone \<and>
                         \<not> py_eq (dget_default d ''presence_state'' PNone) expected))))"

definition eval_one_assertion :: "py_env \<Rightarrow> step_results \<Rightarrow> pydict \<Rightarrow> string list result" where
  "eval_one_assertion env srs a =
     (case dget_default a ''type'' PNone of
        PStr t \<Rightarrow>
          if t = ''no_loss'' \<or> t = ''independent_delivery'' then assert_min env t srs a
          else if t = ''no_duplication'' then assert_no_duplication env srs a
          else if t = ''no_redelivery'' then assert_no_redelivery env srs a
          else if t = ''ordering'' then assert_ordering env srs a
          else if t = ''body_seq_ascending'' then assert_body_seq_ascending env srs a
          else if t = ''received_count'' then assert_received_count env srs a
          else if t = ''no_channel_leak'' then assert_no_channel_leak env srs a
          else if t = ''all_channels_match_pattern'' then assert_channels_match env srs a
          else if t = ''all_receivers_got_message'' then assert_all_receivers env srs a
          else if t = ''all_writers_represented'' then assert_all_writers env srs a
          else if t = ''message_id_present'' then assert_message_id_present env srs a
          else if t = ''schema_valid'' then Inr []
          else if t = ''contains_agent'' then assert_contains_agent env srs a
          else Inr [''Unknown assertion type'']
      | _ \<Rightarrow> Inr [''Unknown assertion type''])"

definition evaluate_assertions :: "py_env \<Rightarrow> step_results \<Rightarrow> pydict list \<Rightarrow> string list result" where
  "evaluate_assertions env srs as =
     bind_res (map_res (eval_one_assertion env srs) as) (\<lambda>errs. Inr (concat errs))"

section \<open>Targets\<close>

record 's target =
  tg_init :: 's
  tg_preregister :: "(string list \<Rightarrow> 's \<Rightarrow> 's) option"
  tg_start :: "string \<Rightarrow> 's \<Rightarrow> unit result \<times> 's"
  tg_register :: "(pydict list \<Rightarrow> 's \<Rightarrow> unit result \<times> 's) option"
  tg_call :: "string \<Rightarrow> string \<Rightarrow> pyval \<Rightarrow> 's \<Rightarrow> pyval result \<times> 's"

section \<open>The steps of a fixture\<close>

record 's run_state =
  rn_target :: 's
  rn_results :: step_results
  rn_captures :: captures
  rn_all_passed :: bool

definition record_step :: "string \<Rightarrow> bool \<Rightarrow> pyval \<Rightarrow> 's run_state \<Rightarrow> 's run_state" where
  "record_step step_id ok output rn =
     rn\<lparr>rn_results := dset (rn_results rn) step_id
            \<lparr>sr_step_id = step_id, sr_ok = ok, sr_output = output\<rparr>,
        rn_all_passed := rn_all_passed rn \<and> ok\<rparr>"

definition is_error :: "pyval \<Rightarrow> bool" where
  "is_error result = (case result of
     PDict d \<Rightarrow> has_key d ''_rpc_error'' \<or> has_key d ''error_code'' | _ \<Rightarrow> False)"

text \<open>Whether a result is what the step expects.\<close>

definition step_ok :: "captures \<Rightarrow> pydict \<Rightarrow> pyval \<Rightarrow> bool" where
  "step_ok caps step result =
     (let expected_output = dget_default step ''expected_output'' PNone;
          expected_error = dget_default step ''expected_error'' PNone
      in if expected_error \<noteq> PNone
         then is_error result \<and>
              matches caps expected_error (dget_default (as_dict result) ''_rpc_error'' result)
         else if is_error result \<and> expected_output \<noteq> PNone then False
         else if expected_output \<noteq> PNone then matches caps expected_output result
         else True)"

definition run_step ::
    "py_env \<Rightarrow> 's target \<Rightarrow> string \<Rightarrow> pydict \<Rightarrow> 's run_state \<Rightarrow> 's run_state" where
  "run_step env tg primary step rn =
     (if dget_default step ''type'' PNone = PStr ''sleep''
      then record_step (str_field env step ''id'' ''sleep'') True PNone rn
      else
        (let step_id = str_field env step ''id'' [];
             inp = resolve_captures (rn_captures rn) (dget_default step ''input'' (PDict []))
         in case tg_call tg (str_field env step ''as_agent'' primary)
                 (str_field env step ''operation'' []) inp (rn_target rn) of
              (Inl e, s) \<Rightarrow> record_step step_id False PNone (rn\<lparr>rn_target := s\<rparr>)
            | (Inr result, s) \<Rightarrow>
                (let caps = update_captures (rn_captures rn) (extract_capture step_id result)
                 in record_step step_id (step_ok caps step result) result
                      (rn\<lparr>rn_target := s, rn_captures := caps\<rparr>))))"

text \<open>The setup; no captures exist yet. \<open>Inl\<close>: a call raised.\<close>

fun run_setup ::
    "py_env \<Rightarrow> 's target \<Rightarrow> string \<Rightarrow> pydict list \<Rightarrow> 's \<Rightarrow> bool \<times> 's" where
  "run_setup env tg primary [] s = (True, s)"
| "run_setup env tg primary (step # rest) s =
     (case tg_call tg (str_field env step ''as_agent'' primary) (str_field env step ''operation'' [])
             (resolve_captures [] (dget_default step ''input'' (PDict []))) s of
        (Inl e, s') \<Rightarrow> (False, s')
      | (Inr result, s') \<Rightarrow> run_setup env tg primary rest s')"

definition failed_fixture :: fixture_result where
  "failed_fixture =
     \<lparr>fr_passed = False, fr_skipped = False, fr_step_results = [], fr_assertion_errors = [],
      fr_error = True\<rparr>"

definition skipped_fixture :: fixture_result where
  "skipped_fixture =
     \<lparr>fr_passed = True, fr_skipped = True, fr_step_results = [], fr_assertion_errors = [],
      fr_error = False\<rparr>"

definition agent_ids :: "py_env \<Rightarrow> fixture \<Rightarrow> string list result" where
  "agent_ids env fx =
     (if fx_agents fx = [] then Inr [''test-agent'']
      else map_res (\<lambda>a. bind_res (required_field a ''id'') (\<lambda>v. Inr (py_str (pe_repr env) v)))
             (fx_agents fx))"

definition registered_ids :: "py_env \<Rightarrow> fixture \<Rightarrow> string list" where
  "registered_ids env fx =
     map (\<lambda>a. str_field env a ''id'' [])
       (filter (\<lambda>a. has_key a ''id'' \<and> truthy (dget_default a ''registered'' (PBool True)))
         (fx_agents fx))"

text \<open>
  The target that a fixture starts with; \<open>False\<close>: its start raised. An exception of
  \<open>register_agents\<close> is not caught.
\<close>

definition opened_target ::
    "py_env \<Rightarrow> 's target \<Rightarrow> fixture \<Rightarrow> string \<Rightarrow> bool result \<times> 's" where
  "opened_target env tg fx primary =
     (let s0 = (case tg_preregister tg of
                  Some f \<Rightarrow> if fx_agents fx \<noteq> [] then f (registered_ids env fx) (tg_init tg)
                             else tg_init tg
                | None \<Rightarrow> tg_init tg)
      in case tg_start tg primary s0 of
           (Inl e, s1) \<Rightarrow> (Inr False, s1)
         | (Inr _, s1) \<Rightarrow>
             (case tg_register tg of
                Some f \<Rightarrow>
                  if fx_agents fx \<noteq> []
                  then (case f (fx_agents fx) s1 of (r, s2) \<Rightarrow> (bind_res r (\<lambda>_. Inr True), s2))
                  else (Inr True, s1)
              | None \<Rightarrow> (Inr True, s1)))"

definition run_sequence ::
    "py_env \<Rightarrow> 's target \<Rightarrow> string \<Rightarrow> fixture \<Rightarrow> 's \<Rightarrow> 's run_state" where
  "run_sequence env tg primary fx s =
     fold (run_step env tg primary) (fx_sequence fx)
       \<lparr>rn_target = s, rn_results = [], rn_captures = [], rn_all_passed = True\<rparr>"

definition run_fixture :: "py_env \<Rightarrow> 's target \<Rightarrow> bool \<Rightarrow> fixture \<Rightarrow> fixture_result result" where
  "run_fixture env tg strict fx =
     (if fx_pending fx \<and> strict then Inr skipped_fixture
      else bind_res (agent_ids env fx) (\<lambda>ids.
        let primary = hd ids
        in case opened_target env tg fx primary of
             (Inl e, s) \<Rightarrow> Inl e
           | (Inr False, s) \<Rightarrow> Inr failed_fixture
           | (Inr True, s) \<Rightarrow>
               (case run_setup env tg primary (fx_setup fx) s of
                  (False, s') \<Rightarrow> Inr failed_fixture
                | (True, s') \<Rightarrow>
                    (let rn = run_sequence env tg primary fx s'
                     in bind_res (evaluate_assertions env (rn_results rn) (fx_assertions fx)) (\<lambda>errs.
                          Inr \<lparr>fr_passed = rn_all_passed rn \<and> errs = [], fr_skipped = False,
                               fr_step_results = map snd (rn_results rn),
                               fr_assertion_errors = errs, fr_error = False\<rparr>)))))"

definition run_conformance ::
    "py_env \<Rightarrow> 's target \<Rightarrow> bool \<Rightarrow> fixture list \<Rightarrow> fixture_result list result" where
  "run_conformance env tg strict fxs = map_res (run_fixture env tg strict) fxs"

end
