(* ===== verification/Conformance_Properties.thy ===== *)
theory Conformance_Properties
  imports Conformance_Runner
begin

text \<open>
  When the conformance runner reports success: what a passing fixture says about the target, step
  by step, and when the exit code is 0.
\<close>

section \<open>A step that passes\<close>

definition is_sleep :: "pydict \<Rightarrow> bool" where
  "is_sleep step \<longleftrightarrow> dget_default step ''type'' PNone = PStr ''sleep''"

definition step_call ::
    "py_env \<Rightarrow> 's target \<Rightarrow> string \<Rightarrow> pydict \<Rightarrow> 's run_state \<Rightarrow> pyval result \<times> 's" where
  "step_call env tg primary step rn =
     tg_call tg (str_field env step ''as_agent'' primary) (str_field env step ''operation'' [])
       (resolve_captures (rn_captures rn) (dget_default step ''input'' (PDict []))) (rn_target rn)"

definition step_passes :: "py_env \<Rightarrow> 's target \<Rightarrow> string \<Rightarrow> pydict \<Rightarrow> 's run_state \<Rightarrow> bool" where
  "step_passes env tg primary step rn \<longleftrightarrow>
     is_sleep step \<or>
     (\<exists>result s. step_call env tg primary step rn = (Inr result, s) \<and>
        step_ok (update_captures (rn_captures rn)
          (extract_capture (str_field env step ''id'' []) result)) step result)"

lemma run_step_all_passed:
  "rn_all_passed (run_step env tg primary step rn) \<longleftrightarrow>
     rn_all_passed rn \<and> step_passes env tg primary step rn"
  by (auto simp: run_step_def step_passes_def step_call_def is_sleep_def record_step_def Let_def
      split: prod.splits sum.splits)

lemma run_steps_all_passed:
  "rn_all_passed (fold (run_step env tg primary) steps rn) \<longleftrightarrow>
     rn_all_passed rn \<and>
     (\<forall>i < length steps. step_passes env tg primary (steps ! i)
        (fold (run_step env tg primary) (take i steps) rn))"
proof (induction steps arbitrary: rn)
  case (Cons step steps)
  show ?case
    by (auto simp: Cons.IH run_step_all_passed All_less_Suc2)
qed simp

section \<open>A fixture that passes\<close>

definition sequence_start :: "'s \<Rightarrow> 's run_state" where
  "sequence_start s = \<lparr>rn_target = s, rn_results = [], rn_captures = [], rn_all_passed = True\<rparr>"

text \<open>
  The target starts, no setup call raises, every step passes in the state the earlier steps have
  left, and no assertion fails on the results.
\<close>

definition fixture_passes :: "py_env \<Rightarrow> 's target \<Rightarrow> fixture \<Rightarrow> bool" where
  "fixture_passes env tg fx \<longleftrightarrow>
     (\<exists>ids s s'. agent_ids env fx = Inr ids \<and> opened_target env tg fx (hd ids) = (Inr True, s) \<and>
        run_setup env tg (hd ids) (fx_setup fx) s = (True, s') \<and>
        (\<forall>i < length (fx_sequence fx). step_passes env tg (hd ids) (fx_sequence fx ! i)
           (fold (run_step env tg (hd ids)) (take i (fx_sequence fx)) (sequence_start s'))) \<and>
        evaluate_assertions env (rn_results (run_sequence env tg (hd ids) fx s'))
          (fx_assertions fx) = Inr [])"

lemma run_sequence_passed:
  "rn_all_passed (run_sequence env tg primary fx s) \<longleftrightarrow>
     (\<forall>i < length (fx_sequence fx). step_passes env tg primary (fx_sequence fx ! i)
        (fold (run_step env tg primary) (take i (fx_sequence fx)) (sequence_start s)))"
  by (simp add: run_sequence_def run_steps_all_passed sequence_start_def)

lemma run_fixture_passed:
  assumes "run_fixture env tg strict fx = Inr fr"
  shows "fr_passed fr \<or> fr_skipped fr \<longleftrightarrow> fx_pending fx \<and> strict \<or> fixture_passes env tg fx"
proof (cases "fx_pending fx \<and> strict")
  case True
  with assms show ?thesis by (auto simp: run_fixture_def skipped_fixture_def)
next
  case False
  then obtain ids where ids: "agent_ids env fx = Inr ids"
    using assms by (auto simp: run_fixture_def bind_res_eq_Inr)
  obtain r s where op: "opened_target env tg fx (hd ids) = (r, s)" by force
  obtain b s' where su: "run_setup env tg (hd ids) (fx_setup fx) s = (b, s')" by force
  have "fr_skipped fr = False"
    using assms False ids op su
    by (auto simp: run_fixture_def failed_fixture_def bind_res_eq_Inr Let_def
        split: sum.splits bool.splits)
  moreover have "fr_passed fr \<longleftrightarrow> r = Inr True \<and> b \<and> rn_all_passed (run_sequence env tg (hd ids) fx s') \<and>
    evaluate_assertions env (rn_results (run_sequence env tg (hd ids) fx s')) (fx_assertions fx) = Inr []"
    using assms False ids op su
    by (auto simp: run_fixture_def failed_fixture_def bind_res_eq_Inr Let_def
        split: sum.splits bool.splits)
  ultimately show ?thesis
    using False ids op su by (auto simp: fixture_passes_def run_sequence_passed)
qed

lemma map_res_Inr: "map_res f xs = Inr ys \<longleftrightarrow> list_all2 (\<lambda>x y. f x = Inr y) xs ys"
  by (induction xs arbitrary: ys) (auto simp: bind_res_eq_Inr list_all2_Cons1)

text \<open>C37.
  The conformance runner exits with code 0 exactly when every fixture that is not skipped passes: its
  target starts, no setup call raises, each step in turn gets the answer it expects in the state
  the steps before it have left (with the captures so far), and every assertion holds of the
  recorded results.\<close>

theorem conformance_exit_code:
  assumes "run_conformance env tg strict fxs = Inr frs"
  shows "exit_code frs = 0 \<longleftrightarrow>
    (\<forall>fx \<in> {fx \<in> set fxs. \<not> (fx_pending fx \<and> strict)}. fixture_passes env tg fx)"
proof -
  have "list_all2 (\<lambda>fx fr. run_fixture env tg strict fx = Inr fr) fxs frs"
    using assms by (simp add: run_conformance_def map_res_Inr)
  then have "(\<forall>fr \<in> set frs. fr_passed fr \<or> fr_skipped fr) \<longleftrightarrow>
    (\<forall>fx \<in> set fxs. fx_pending fx \<and> strict \<or> fixture_passes env tg fx)"
    by (induction rule: list_all2_induct) (simp_all add: run_fixture_passed)
  then show ?thesis
    by (auto simp: exit_code_def run_failed_def filter_empty_conv)
qed

definition toy_conformance_env :: py_env where
  "toy_conformance_env = \<lparr>pe_repr = (\<lambda>v. []), pe_float = (\<lambda>s. Inr 0)\<rparr>"

definition echo_target :: "nat target" where
  "echo_target =
     \<lparr>tg_init = 0, tg_preregister = None, tg_start = (\<lambda>a s. (Inr (), s)), tg_register = None,
      tg_call = (\<lambda>a op inp s. (Inr (PDict [(''echo'', inp), (''count'', PInt (int s))]), Suc s))\<rparr>"

definition echo_fixture :: fixture where
  "echo_fixture =
     \<lparr>fx_path = [''echo.yaml''], fx_name = PStr ''echo'', fx_pending = False, fx_agents = [],
      fx_setup = [[(''operation'', PStr ''ping'')]],
      fx_sequence =
        [[(''id'', PStr ''first''), (''operation'', PStr ''ping''), (''input'', PStr ''a'')],
         [(''id'', PStr ''second''), (''operation'', PStr ''ping''),
          (''input'', PStr ''{{capture:first.echo}}''),
          (''expected_output'', PDict [(''echo'', PStr ''a''), (''count'', PStr ''{{any_number}}'')])]],
      fx_assertions = []\<rparr>"

lemma conformance_exit_code_witness:
  "(\<exists>frs. run_conformance toy_conformance_env echo_target True [echo_fixture] = Inr frs \<and>
     exit_code frs = 0) \<and>
   fixture_passes toy_conformance_env echo_target echo_fixture"
proof -
  have "case run_conformance toy_conformance_env echo_target True [echo_fixture] of
    Inr frs \<Rightarrow> exit_code frs = 0 | Inl e \<Rightarrow> False"
    by code_simp
  then obtain frs where frs: "run_conformance toy_conformance_env echo_target True [echo_fixture] = Inr frs"
    "exit_code frs = 0"
    by (auto split: sum.splits)
  then have "\<forall>fx \<in> {fx \<in> set [echo_fixture]. \<not> (fx_pending fx \<and> True)}.
    fixture_passes toy_conformance_env echo_target fx"
    using conformance_exit_code [OF frs(1)] by simp
  with frs show ?thesis by (simp add: echo_fixture_def)
qed

text \<open>A step without expectations passes whatever the target answers, errors included.\<close>

lemma step_without_expectation:
  "dget step ''expected_output'' = None \<Longrightarrow> dget step ''expected_error'' = None \<Longrightarrow>
   step_ok caps step result"
  by (simp add: step_ok_def dget_default_def)

text \<open>C38.
  The matcher accepts exactly what its description says: a wildcard stands for its type or its
  captured value, a dict may have further keys, a list further elements at its end, and
  everything else is equal.\<close>

theorem matches_iff_satisfies: "matches caps expected actual \<longleftrightarrow> satisfies caps expected actual"
  by (rule matches_satisfies)

end
