(* ===== verification/Conformance_Target.thy ===== *)
theory Conformance_Target
  imports Conformance_Runner Mcp_Server
begin

text \<open>
  The in-process target of the conformance runner (\<open>SharedMemoryTarget\<close>): an in-memory store
  behind a pipeline of the auth middleware alone, whose terminal has its own translation of
  the operations. Key pairs, nonces, correlation ids and clock readings are drawn by the number of
  the call. Arguments that the store takes unchecked have the types of its annotations.
\<close>

section \<open>State\<close>

record draws =
  dr_nonce :: "nat \<Rightarrow> string"
  dr_fresh :: "nat \<Rightarrow> string"
  dr_keypair :: "nat \<Rightarrow> bytes \<times> bytes"
  dr_now :: "nat \<Rightarrow> time"

record shared_target =
  sm_world :: "memory_store world option"
  sm_agent_keys :: "(agent \<times> bytes) list"
  sm_strict_mode :: bool
  sm_count :: nat

definition shared_init :: shared_target where
  "shared_init = \<lparr>sm_world = None, sm_agent_keys = [], sm_strict_mode = False, sm_count = 0\<rparr>"

section \<open>Operations of the terminal\<close>

text \<open>\<open>_handle_group\<close>, on the group table and the subscriptions of the store itself.\<close>

definition harness_group_create ::
    "py_env \<Rightarrow> time \<Rightarrow> agent \<Rightarrow> pydict \<Rightarrow> memory_store \<Rightarrow> pyval \<times> memory_store" where
  "harness_group_create env now a args s =
     (let group_id = py_str (pe_repr env)
            (dget_default args ''group_id'' (PStr (''grp-'' @ str_int (trunc_real now))));
          full_id = ''group/'' @ group_id;
          s1 = s\<lparr>ms_groups := dset (ms_groups s) full_id
                   [\<lparr>gm_agent_id = a, gm_status = ''active'', gm_joined_at = now\<rparr>]\<rparr>
      in (PDict [(''group_id'', PStr full_id), (''created_at'', PFloat now)],
          mem_add_pattern a full_id s1))"

definition harness_group_invite ::
    "py_env \<Rightarrow> time \<Rightarrow> agent \<Rightarrow> pydict \<Rightarrow> memory_store \<Rightarrow> pyval \<times> memory_store" where
  "harness_group_invite env now a args s =
     (let group_id = get_str env args ''group_id'' []; invitee = get_str env args ''agent_id'' [];
          members = dget_default (ms_groups s) group_id []
      in if \<not> list_ex (\<lambda>m. gm_agent_id m = a \<and> gm_status m = ''active'') members
         then (PDict [(''_rpc_error'', PDict [(''message'', PStr ''GROUP_MEMBERSHIP_REQUIRED'')])], s)
         else (let members' =
                     (if list_ex (\<lambda>m. gm_agent_id m = invitee) members then members
                      else members @ [\<lparr>gm_agent_id = invitee, gm_status = ''invited'', gm_joined_at = now\<rparr>])
               in (PDict [(''invited'', PBool True), (''agent_id'', PStr invitee), (''invited_at'', PFloat now)],
                   s\<lparr>ms_groups := dset (ms_groups s) group_id members'\<rparr>)))"

definition harness_group_join ::
    "py_env \<Rightarrow> time \<Rightarrow> agent \<Rightarrow> pydict \<Rightarrow> memory_store \<Rightarrow> pyval \<times> memory_store" where
  "harness_group_join env now a args s =
     (let group_id = get_str env args ''group_id'' [];
          s1 = (if has_key (ms_groups s) group_id
                then s\<lparr>ms_groups := dset (ms_groups s) group_id
                         (activate_first a now (dget_default (ms_groups s) group_id []))\<rparr>
                else s)
      in (PDict [(''group_id'', PStr group_id), (''joined_at'', PFloat now)],
          mem_add_pattern a group_id s1))"

definition harness_group_leave ::
    "py_env \<Rightarrow> time \<Rightarrow> agent \<Rightarrow> pydict \<Rightarrow> memory_store \<Rightarrow> pyval \<times> memory_store" where
  "harness_group_leave env now a args s =
     (let group_id = get_str env args ''group_id'' [];
          members = dget_default (ms_groups s) group_id []
      in (PDict [(''group_id'', PStr group_id), (''left_at'', PFloat now)],
          s\<lparr>ms_groups := dset (ms_groups s) group_id (filter (\<lambda>m. gm_agent_id m \<noteq> a) members),
            ms_subscriptions := dset (ms_subscriptions s) a
              (filter (\<lambda>p. p \<noteq> group_id) (mem_patterns_for s a))\<rparr>))"

definition harness_group_list_members ::
    "py_env \<Rightarrow> pydict \<Rightarrow> memory_store \<Rightarrow> pyval \<times> memory_store" where
  "harness_group_list_members env args s =
     (PDict [(''members'', PList (map member_value
        (dget_default (ms_groups s) (get_str env args ''group_id'' []) [])))], s)"

definition typed_int :: "pydict \<Rightarrow> string \<Rightarrow> int \<Rightarrow> int" where
  "typed_int args k dflt = (case dget_default args k (PInt dflt) of PInt i \<Rightarrow> i | _ \<Rightarrow> dflt)"

definition rpc_error :: "string \<Rightarrow> pyval" where
  "rpc_error m = PDict [(''_rpc_error'', PDict [(''message'', PStr m)])]"

definition harness_send ::
    "py_env \<Rightarrow> time \<Rightarrow> agent \<Rightarrow> pydict \<Rightarrow> memory_store \<Rightarrow> pyval result \<times> memory_store" where
  "harness_send env now a args s =
     (case (dget args ''channel'', dget args ''body'') of
        (None, _) \<Rightarrow> (Inl (KeyError ''channel''), s)
      | (_, None) \<Rightarrow> (Inl (KeyError ''body''), s)
      | (Some ch, Some body) \<Rightarrow>
          (let ((message_id, sent_at, seq, bp), s') =
                 mem_send now (py_str (pe_repr env) ch) a (as_dict body)
                   (get_opt_str env args ''correlation_id'') (get_opt_str env args ''reply_to'') s
           in (Inr (PDict [(''sent_at'', PFloat sent_at), (''message_id'', PStr message_id),
                 (''seq'', PInt seq),
                 (''backpressure'', PDict [(''queue_depth'', PInt (bp_queue_depth bp)),
                    (''threshold'', PInt (bp_threshold bp)), (''state'', PStr (bp_state bp))])]), s')))"

definition harness_replay :: "py_env \<Rightarrow> pydict \<Rightarrow> memory_store \<Rightarrow> pyval result" where
  "harness_replay env args s =
     bind_res (case dget args ''channel'' of None \<Rightarrow> Inl (KeyError ''channel'') | Some ch \<Rightarrow> Inr ch) (\<lambda>ch.
     bind_res (py_int (dget_default args ''since'' (PInt 0))) (\<lambda>since.
     bind_res (opt_num (dget_default args ''until'' PNone)) (\<lambda>til.
     bind_res (py_int (dget_default args ''limit'' (PInt 100))) (\<lambda>limit.
       let (ms, more) = mem_replay (py_str (pe_repr env) ch) since til limit s
       in Inr (PDict [(''messages'', msgs_value ms), (''has_more'', PBool more)])))))"

definition harness_heartbeat ::
    "py_env \<Rightarrow> time \<Rightarrow> agent \<Rightarrow> pydict \<Rightarrow> memory_store \<Rightarrow> pyval result \<times> memory_store" where
  "harness_heartbeat env now a args s =
     (let ttl = dget_default args ''ttl'' PNone
      in case (if ttl = PNone then Inr None else bind_res (py_int ttl) (\<lambda>i. Inr (Some i))) of
           Inl e \<Rightarrow> (Inl e, s)
         | Inr t \<Rightarrow>
             (let ((b, st, t0, t1), s') = mem_heartbeat now a (get_str env args ''status'' ''online'') t s
              in (Inr (PDict [(''agent_id'', PStr b), (''status'', PStr st), (''recorded_at'', PFloat t0),
                    (''expires_at'', PFloat t1)]), s')))"

definition harness_unsubscribe ::
    "py_env \<Rightarrow> agent \<Rightarrow> pydict \<Rightarrow> memory_store \<Rightarrow> pyval \<times> memory_store" where
  "harness_unsubscribe env a args s =
     (let pats = (case get_str_list env (dget_default args ''channels''
                          (dget_default args ''patterns'' (PList []))) of Some ps \<Rightarrow> ps | None \<Rightarrow> []);
          ((removed, cleared), s') = mem_unsubscribe a pats s
      in (PDict [(''unsubscribed'', PList (map PStr removed)), (''pending_cleared'', PInt cleared)], s'))"

section \<open>The terminal (_dispatch)\<close>

definition harness_dispatch ::
    "py_env \<Rightarrow> time \<Rightarrow> agent \<Rightarrow> string \<Rightarrow> pydict \<Rightarrow> memory_store \<Rightarrow> pyval result \<times> memory_store" where
  "harness_dispatch env now a op args s =
     (if op = ''subscribe'' then
        (case dget args ''pattern'' of
           None \<Rightarrow> (Inl (KeyError ''pattern''), s)
         | Some p \<Rightarrow>
             (let (chs, s') = mem_subscribe a (py_str (pe_repr env) p) s
              in (Inr (PDict [(''subscribed'', PList (map PStr chs))]), s')))
      else if op = ''unsubscribe'' then
        (let (v, s') = harness_unsubscribe env a args s in (Inr v, s'))
      else if op = ''send'' then harness_send env now a args s
      else if op = ''recv'' then
        (let (ms, s') = mem_recv a (get_str_list env (dget_default args ''channels'' PNone))
               (typed_int args ''max_messages'' 50) s
         in (Inr (PDict [(''drained_at'', PFloat now), (''messages'', msgs_value ms)]), s'))
      else if op = ''list_channels'' then
        (Inr (PDict [(''channels'', PList (map (\<lambda>(n, k).
               PDict [(''name'', PStr n), (''subscriber_count'', PInt k)]) (mem_list_channels now None s))),
           (''_sox_protocol'', sox_protocol_block)]), s)
      else if op = ''channels_ack'' then
        (Inr (PDict [(''acked_at'', PFloat now),
           (''status'', dget_default args ''status'' (PStr ''received''))]), s)
      else if op = ''channels_heartbeat'' then harness_heartbeat env now a args s
      else if op = ''replay'' then (harness_replay env args s, s)
      else if op = ''list_agents'' then
        (Inr (PDict [(''agents'', PList (map entry_of_agent (mem_list_agents now
           (get_str_list env (dget_default args ''status_filter'' PNone))
           (get_opt_str env args ''namespace'') s)))]), s)
      else if op = ''group_create'' then
        (let (v, s') = harness_group_create env now a args s in (Inr v, s'))
      else if op = ''group_invite'' then
        (let (v, s') = harness_group_invite env now a args s in (Inr v, s'))
      else if op = ''group_join'' then
        (let (v, s') = harness_group_join env now a args s in (Inr v, s'))
      else if op = ''group_leave'' then
        (let (v, s') = harness_group_leave env now a args s in (Inr v, s'))
      else if op = ''group_list_members'' then
        (let (v, s') = harness_group_list_members env args s in (Inr v, s'))
      else (Inr (rpc_error (''Unknown operation: '' @ op)), s))"

definition harness_terminal :: "py_env \<Rightarrow> memory_store world terminal" where
  "harness_terminal env ctx w =
     (let a = (case cx_agent_id ctx of Some a \<Rightarrow> if a \<noteq> [] then a else cx_connection_id ctx
               | None \<Rightarrow> cx_connection_id ctx);
          (r, s') = harness_dispatch env (wd_now w) a (cx_operation ctx) (cx_input ctx) (wd_store w)
      in (bind_res r (\<lambda>v. Inr (as_dict v)), ctx, w\<lparr>wd_store := s'\<rparr>))"

definition harness_pipeline ::
    "py_env \<Rightarrow> (bytes \<Rightarrow> bytes \<Rightarrow> bytes \<Rightarrow> bool) \<Rightarrow> memory_store world pipeline" where
  "harness_pipeline env vs =
     \<lparr>pl_middlewares = [auth_middleware env vs], pl_terminal = harness_terminal env\<rparr>"

section \<open>The target\<close>

definition shared_start :: "draws \<Rightarrow> string \<Rightarrow> shared_target \<Rightarrow> unit result \<times> shared_target" where
  "shared_start dr a st =
     (Inr (), st\<lparr>sm_world := Some \<lparr>wd_now = dr_now dr (sm_count st), wd_verifier = verifier_init 300,
                wd_store = memory_init, wd_log = []\<rparr>\<rparr>)"

text \<open>A new key pair for an agent: the private key is kept, the public key registered.\<close>

definition provision_agent :: "draws \<Rightarrow> agent \<Rightarrow> shared_target \<Rightarrow> bytes result \<times> shared_target" where
  "provision_agent dr a st =
     (let (private_key, public_key) = dr_keypair dr (sm_count st);
          st1 = st\<lparr>sm_agent_keys := dset (sm_agent_keys st) a private_key,
                   sm_count := Suc (sm_count st)\<rparr>
      in case sm_world st1 of
           None \<Rightarrow> (Inr private_key, st1)
         | Some w \<Rightarrow>
             (case cred_register (dr_now dr (sm_count st)) a public_key (vf_registry (wd_verifier w)) of
                (Inl e, regs) \<Rightarrow> (Inl e, st1)
              | (Inr _, regs) \<Rightarrow>
                  (Inr private_key,
                   st1\<lparr>sm_world := Some (w\<lparr>wd_verifier := (wd_verifier w)\<lparr>vf_registry := regs\<rparr>\<rparr>)\<rparr>)))"

fun register_each ::
    "py_env \<Rightarrow> draws \<Rightarrow> pydict list \<Rightarrow> shared_target \<Rightarrow> unit result \<times> shared_target" where
  "register_each env dr [] st = (Inr (), st)"
| "register_each env dr (a # rest) st =
     (let aid = dget_default a ''id'' PNone
      in if \<not> truthy aid \<or> \<not> truthy (dget_default a ''registered'' (PBool True))
         then register_each env dr rest st
         else (case provision_agent dr (py_str (pe_repr env) aid) st of
                 (Inl e, st1) \<Rightarrow> (Inl e, st1)
               | (Inr _, st1) \<Rightarrow> register_each env dr rest st1))"

definition register_agents ::
    "py_env \<Rightarrow> draws \<Rightarrow> pydict list \<Rightarrow> shared_target \<Rightarrow> unit result \<times> shared_target" where
  "register_agents env dr agents st =
     (let st1 = st\<lparr>sm_strict_mode := True\<rparr>
      in if sm_world st1 = None then (Inr (), st1) else register_each env dr agents st1)"

definition signing_key :: "draws \<Rightarrow> agent \<Rightarrow> shared_target \<Rightarrow> bytes option result \<times> shared_target" where
  "signing_key dr a st =
     (case dget (sm_agent_keys st) a of
        Some k \<Rightarrow> (Inr (Some k), st)
      | None \<Rightarrow>
          if sm_strict_mode st then (Inr None, st)
          else (case provision_agent dr a st of (r, st1) \<Rightarrow> (bind_res r (\<lambda>k. Inr (Some k)), st1)))"

definition shared_call ::
    "py_env \<Rightarrow> (bytes \<Rightarrow> bytes \<Rightarrow> bytes \<Rightarrow> bool) \<Rightarrow> signer \<Rightarrow> draws \<Rightarrow> agent \<Rightarrow> string \<Rightarrow> pyval \<Rightarrow>
     shared_target \<Rightarrow> pyval result \<times> shared_target" where
  "shared_call env vs sg dr a operation args0 st =
     (if sm_world st = None then (Inl (RuntimeError ''SharedMemoryTarget not started''), st)
      else case signing_key dr a st of
        (Inl e, st1) \<Rightarrow> (Inl e, st1)
      | (Inr key, st1) \<Rightarrow>
          (case (sm_world st1, args0) of
             (Some w, PDict args) \<Rightarrow>
               (let n = sm_count st1; now = dr_now dr n;
                    metadata = (case key of
                        None \<Rightarrow> []
                      | Some k \<Rightarrow> [(''_connection_credential'',
                          PSigned (resolve_signed_request sg (dr_nonce dr n) now a k operation (Some args)))]);
                    (result, trace, w') = dispatch (harness_pipeline env vs) (dr_fresh dr n) operation args a
                      (Some metadata) (w\<lparr>wd_now := now\<rparr>)
                in (Inr (PDict result), st1\<lparr>sm_world := Some w', sm_count := Suc n\<rparr>))
           | _ \<Rightarrow> (Inl (TypeError ''arguments''), st1)))"

definition shared_memory_target ::
    "py_env \<Rightarrow> (bytes \<Rightarrow> bytes \<Rightarrow> bytes \<Rightarrow> bool) \<Rightarrow> signer \<Rightarrow> draws \<Rightarrow> shared_target target" where
  "shared_memory_target env vs sg dr =
     \<lparr>tg_init = shared_init, tg_preregister = None, tg_start = shared_start dr,
      tg_register = Some (register_agents env dr), tg_call = shared_call env vs sg dr\<rparr>"

section \<open>Names and answers of the other targets\<close>

definition op_to_tool :: "string \<Rightarrow> string" where
  "op_to_tool operation =
     dget_default
       [(''send'', ''channels__send''), (''recv'', ''channels__recv''),
        (''subscribe'', ''channels__subscribe''), (''unsubscribe'', ''channels__unsubscribe''),
        (''list_channels'', ''channels__list_channels''), (''channels_ack'', ''channels__ack''),
        (''channels_heartbeat'', ''channels__heartbeat''), (''replay'', ''channels__replay''),
        (''group_create'', ''channels__group_create''), (''group_invite'', ''channels__group_invite''),
        (''group_join'', ''channels__group_join''), (''group_leave'', ''channels__group_leave''),
        (''group_list_members'', ''channels__group_list_members''),
        (''channels_collect'', ''channels__collect'')]
       operation (''channels__'' @ operation)"

text \<open>
  What \<open>HttpTarget.call_tool\<close> makes of an answer: its status and JSON content, \<open>None\<close> when the
  content is no JSON; the texts of the synthesised errors are left out.
\<close>

definition http_answer :: "int \<Rightarrow> pyval option \<Rightarrow> pyval" where
  "http_answer status content =
     (if status \<ge> 400
      then (case content of
              Some (PDict d) \<Rightarrow> if has_key d ''error_code'' then PDict d else rpc_error ''HTTP''
            | _ \<Rightarrow> rpc_error ''HTTP'')
      else (case content of Some v \<Rightarrow> v | None \<Rightarrow> rpc_error ''JSON''))"

text \<open>What \<open>StdioTarget.call_tool\<close> makes of the result of \<open>tools/call\<close>.\<close>

definition stdio_answer :: "(string \<Rightarrow> pyval option) \<Rightarrow> pyval \<Rightarrow> pyval" where
  "stdio_answer json_loads result =
     (case result of
        PNone \<Rightarrow> PDict []
      | PDict d \<Rightarrow>
          (case dget d ''content'' of
             Some (PList (PDict item # _)) \<Rightarrow>
               (case dget item ''text'' of
                  Some (PStr s) \<Rightarrow> (case json_loads s of Some v \<Rightarrow> v | None \<Rightarrow> PStr s)
                | Some v \<Rightarrow> v
                | None \<Rightarrow> PDict d)
           | _ \<Rightarrow> PDict d)
      | v \<Rightarrow> v)"

end
