(* ===== verification/Conformance_Harness.thy ===== *)
theory Conformance_Harness
  imports Conformance_Target
begin

text \<open>
  What the in-process conformance target has to do with the server: its own translation of the
  operations leaves the store as \<open>store_dispatch\<close> does, and an agent that was not registered is
  refused.
\<close>

section \<open>The same effect on the store\<close>

text \<open>The operations that both the target and the server's store dispatch know.\<close>

definition harness_operations :: "string set" where
  "harness_operations =
     {''channels_ack'', ''send'', ''recv'', ''subscribe'', ''unsubscribe'', ''list_channels'', ''list_agents'',
      ''channels_heartbeat'', ''replay'', ''group_create'', ''group_invite'', ''group_join'',
      ''group_leave'', ''group_list_members''}"

text \<open>
  Arguments for which the two are compared: the required ones are there, integers are integers, the
  status of a heartbeat is given (the target has a default for it) and the caller is not named (the server
  lets \<open>agent_id\<close> and \<open>creator_id\<close> override it, the target does not).
\<close>

definition plain_args :: "agent \<Rightarrow> string \<Rightarrow> pydict \<Rightarrow> bool" where
  "plain_args a op args \<longleftrightarrow>
     (op = ''group_invite'' \<or> dget args ''agent_id'' = None) \<and>
     (if op = ''send''
      then dget args ''sender'' = Some (PStr a) \<and> dget args ''channel'' \<noteq> None \<and>
           (\<exists>d. dget args ''body'' = Some (PDict d))
      else if op = ''recv'' then \<exists>i. dget_default args ''max_messages'' (PInt 50) = PInt i
      else if op = ''subscribe'' then dget args ''pattern'' \<noteq> None
      else if op = ''list_channels'' then dget args ''since'' = None
      else if op = ''channels_heartbeat''
      then dget args ''status'' \<noteq> None \<and>
           (dget_default args ''ttl'' PNone = PNone \<or> (\<exists>i. dget args ''ttl'' = Some (PInt i)))
      else if op = ''group_create''
      then dget args ''creator_id'' = None \<and>
           (dget args ''group_id'' = None \<or> (\<exists>g. g \<noteq> [] \<and> dget args ''group_id'' = Some (PStr g)))
      else if op = ''group_invite''
      then dget args ''inviter_id'' = None \<and> dget args ''agent_id'' \<noteq> None
      else True)"

lemma number_messages_wire: "number_messages (map to_wire ms) = map to_wire ms"
proof -
  have "has_key (to_wire m) ''seq''" for m
    by (simp add: to_wire_def wire_message_def has_key_def)
  then have "map (\<lambda>(i, m). if has_key m ''seq'' then m else dset m ''seq'' (PInt (int i + 1)))
      (enumerate n (map to_wire ms)) = map to_wire ms" for n
    by (induction ms arbitrary: n) simp_all
  then show ?thesis by (simp add: number_messages_def)
qed

lemma resolved_agent:
  "dget args ''agent_id'' = None \<Longrightarrow> cx_agent_id ctx = Some a \<Longrightarrow> a \<noteq> [] \<Longrightarrow>
   resolve_agent_id env args ctx = a"
  by (simp add: resolve_agent_id_def)

lemma caller_is_agent:
  "dget (cx_input ctx) k = None \<Longrightarrow> cx_agent_id ctx = Some a \<Longrightarrow> a \<noteq> [] \<Longrightarrow>
   caller_id env k ctx = a"
  by (simp add: caller_id_def first_truthy_def opt_str_def dget_default_def)

lemma snd_respond [simp]: "snd (respond f r) = snd r"
  by (simp add: respond_def)

lemma op_replay_state: "snd (op_replay env port ctx s) = s"
  by (simp add: op_replay_def with_arg_def Let_def split: sum.splits)

lemma harness_effect:
  assumes "op \<in> harness_operations - {''channels_ack''}" "cx_operation ctx = op" "cx_input ctx = args"
    "cx_agent_id ctx = Some a" "a \<noteq> []" "plain_args a op args"
  shows "snd (harness_dispatch env now a op args s) = snd (store_call env memory_port now ctx s)"
proof -
  have known: "op \<in> harness_operations" "op \<noteq> ''channels_ack''" using assms(1) by blast+
  consider "op = ''send''" | "op = ''recv''" | "op = ''subscribe''" | "op = ''unsubscribe''"
    | "op = ''list_channels''" | "op = ''list_agents''" | "op = ''channels_heartbeat''"
    | "op = ''replay''" | "op = ''group_create''" | "op = ''group_invite''" | "op = ''group_join''"
    | "op = ''group_leave''" | "op = ''group_list_members''"
    using known unfolding harness_operations_def insert_iff empty_iff by (elim disjE FalseE) (simp_all only: simp_thms)
  note ops = this
  note sm = store_call_def harness_dispatch_def memory_port_def ok_call_def Let_def plain_args_def assms(2-5)
  have agent: "resolve_agent_id env args ctx = a" if "op \<noteq> ''group_invite''"
  proof -
    have "dget args ''agent_id'' = None"
      using that assms(6) unfolding plain_args_def by blast
    then show ?thesis using assms(4,5) by (rule resolved_agent)
  qed
  show ?thesis
  proof (cases rule: ops)
    case 1
    with assms(6) agent show ?thesis
      by (auto simp: sm harness_send_def op_send_def get_str_def dget_default_def split: prod.splits)
  next
    case 2
    with assms(6) agent show ?thesis
      by (auto simp: sm op_recv_def typed_int_def int_or_def with_arg_def split: prod.splits)
  next
    case 3
    with assms(6) agent show ?thesis
      by (auto simp: sm get_str_def dget_default_def split: prod.splits)
  next
    case 4
    with assms(6) agent show ?thesis
      by (auto simp: sm harness_unsubscribe_def split: prod.splits)
  next
    case 5
    with assms(6) show ?thesis by (simp add: sm with_arg_def dget_default_def)
  next
    case 6
    with assms(6) show ?thesis by (simp add: sm)
  next
    case 7
    with assms(6) agent show ?thesis
      by (auto simp: sm harness_heartbeat_def with_arg_def opt_num_def get_str_def dget_default_def
          split: prod.splits option.splits)
  next
    case 8
    with assms(6) show ?thesis
      by (simp add: sm op_replay_state)
  next
    case 9
    with assms(6) caller_is_agent [of ctx "''creator_id''" a env] assms(3-5) show ?thesis
      by (auto simp: sm harness_group_create_def mem_group_create_def get_opt_str_def dget_default_def
          split: prod.splits)
  next
    case 10
    with assms(6) obtain v where args: "dget args ''inviter_id'' = None" "dget args ''agent_id'' = Some v"
      by (auto simp: plain_args_def)
    from args(1) assms(3-5) have "caller_id env ''inviter_id'' ctx = a"
      by (intro caller_is_agent) simp_all
    with 10 assms(2,3) args(2) show ?thesis
      by (simp add: store_call_def harness_dispatch_def memory_port_def Let_def harness_group_invite_def
          mem_group_invite_def active_member_def get_str_def dget_default_def)
  next
    case 11
    with assms(6) agent show ?thesis
      by (auto simp: sm harness_group_join_def mem_group_join_def)
  next
    case 12
    with assms(6) agent show ?thesis
      by (auto simp: sm harness_group_leave_def mem_group_leave_def)
  next
    case 13
    with assms(6) agent show ?thesis
      by (auto simp: sm harness_group_list_members_def)
  qed
qed

lemma harness_recv_answer:
  assumes "cx_operation ctx = ''recv''" "cx_input ctx = args" "cx_agent_id ctx = Some a" "a \<noteq> []"
    "plain_args a ''recv'' args"
  shows "fst (harness_dispatch env now a ''recv'' args s) =
         map_sum id PDict (fst (store_call env memory_port now ctx s))"
proof -
  from assms(5) obtain i where i: "dget args ''agent_id'' = None"
      "dget_default args ''max_messages'' (PInt 50) = PInt i"
    by (auto simp: plain_args_def)
  show ?thesis
    using assms(1,2) resolved_agent [OF i(1) assms(3,4), of env] i(2)
    by (simp add: store_call_def harness_dispatch_def op_recv_def typed_int_def int_or_def with_arg_def
        memory_port_def ok_call_def respond_def recv_response_def mem_recv_def number_messages_wire Let_def)
qed

text \<open>
  The conformance target changes the store as the server does: for every operation that both know but
  \<open>channels_ack\<close>, its own code leaves the in-memory store exactly as the server's store dispatch leaves it
  for the same agent, and \<open>recv\<close> returns the same messages. An acknowledgement is answered without being
  recorded.
\<close>

theorem harness_agrees_with_server:
  assumes "op \<in> harness_operations" "cx_operation ctx = op" "cx_input ctx = args"
    "cx_agent_id ctx = Some a" "a \<noteq> []" "plain_args a op args"
  shows "snd (harness_dispatch env now a op args s) =
      (if op = ''channels_ack'' then s else snd (store_call env memory_port now ctx s)) \<and>
    (op = ''recv'' \<longrightarrow> fst (harness_dispatch env now a op args s) =
       map_sum id PDict (fst (store_call env memory_port now ctx s)))"
proof (cases "op = ''channels_ack''")
  case True
  then show ?thesis by (simp add: harness_dispatch_def)
next
  case False
  with assms harness_effect [of op ctx args a env now s] harness_recv_answer [OF _ assms(3-5)]
  show ?thesis by auto
qed

definition toy_group_ctx :: call_context where
  "toy_group_ctx =
     (new_context ''c'' ''group_create'' [(''group_id'', PStr ''g'')] ''conn'' None)\<lparr>cx_agent_id := Some ''ann''\<rparr>"

lemma harness_agrees_with_server_witness:
  "\<forall>env. snd (harness_dispatch env 5 ''ann'' ''group_create'' [(''group_id'', PStr ''g'')] memory_init) =
     snd (store_call env memory_port 5 toy_group_ctx memory_init) \<and>
   has_key (ms_groups (snd (harness_dispatch env 5 ''ann'' ''group_create''
     [(''group_id'', PStr ''g'')] memory_init))) ''group/g''"
proof
  fix env
  have "''group_create'' \<in> harness_operations" by (simp add: harness_operations_def)
  moreover have "cx_operation toy_group_ctx = ''group_create''"
    "cx_input toy_group_ctx = [(''group_id'', PStr ''g'')]" "cx_agent_id toy_group_ctx = Some ''ann''"
    by (simp_all add: toy_group_ctx_def new_context_def Let_def)
  moreover have "plain_args ''ann'' ''group_create'' [(''group_id'', PStr ''g'')]"
    by (simp add: plain_args_def)
  ultimately have "snd (harness_dispatch env 5 ''ann'' ''group_create'' [(''group_id'', PStr ''g'')] memory_init) =
     snd (store_call env memory_port 5 toy_group_ctx memory_init)"
    using harness_agrees_with_server [of "''group_create''" toy_group_ctx "[(''group_id'', PStr ''g'')]" "''ann''" env 5 memory_init]
    by simp
  moreover have "has_key (ms_groups (snd (harness_dispatch env 5 ''ann'' ''group_create''
     [(''group_id'', PStr ''g'')] memory_init))) ''group/g''"
    by (simp add: harness_dispatch_def harness_group_create_def mem_add_pattern_def Let_def
        dget_default_def)
  ultimately show "snd (harness_dispatch env 5 ''ann'' ''group_create'' [(''group_id'', PStr ''g'')] memory_init) =
     snd (store_call env memory_port 5 toy_group_ctx memory_init) \<and>
   has_key (ms_groups (snd (harness_dispatch env 5 ''ann'' ''group_create''
     [(''group_id'', PStr ''g'')] memory_init))) ''group/g''" ..
qed

section \<open>Agents that were not registered\<close>

text \<open>
  In the strict mode a fixture opts into by listing its agents, a call of an identity-enforced
  operation by any other agent is answered with \<open>identity_failure\<close> and leaves the store, the registry and
  the replay cache as they are.\<close>

theorem unregistered_agent_refused:
  assumes "sm_world st = Some w" "sm_strict_mode st" "dget (sm_agent_keys st) a = None"
    "op \<in> identity_enforced_operations" "dget args ''signed_request'' = None"
  shows "\<exists>d st'. shared_call env vs sg dr a op (PDict args) st = (Inr (PDict d), st') \<and>
    dget d ''error_code'' = Some (PStr ''identity_failure'') \<and>
    sm_world st' = Some (w\<lparr>wd_now := dr_now dr (sm_count st)\<rparr>) \<and> sm_agent_keys st' = sm_agent_keys st"
  using assms
  by (simp add: shared_call_def signing_key_def harness_pipeline_def dispatch_def auth_middleware_def
      auth_call_def resolve_credential_def new_context_def freeze_correlation_id_def Let_def recover_def
      attach_trace_def make_identity_error_def)

definition toy_draws :: draws where
  "toy_draws = \<lparr>dr_nonce = (\<lambda>n. []), dr_fresh = (\<lambda>n. []), dr_keypair = (\<lambda>n. ([], replicate 32 (CHR ''k''))),
     dr_now = (\<lambda>n. 0)\<rparr>"

definition toy_strict_target :: "py_env \<Rightarrow> shared_target" where
  "toy_strict_target env =
     snd (register_agents env toy_draws [[(''id'', PStr ''ann'')]] (snd (shared_start toy_draws ''ann'' shared_init)))"

lemma unregistered_agent_refused_witness:
  "\<forall>env vs sg. \<exists>d st'. shared_call env vs sg toy_draws ''bob'' ''recv'' (PDict []) (toy_strict_target env) =
     (Inr (PDict d), st') \<and> dget d ''error_code'' = Some (PStr ''identity_failure'')"
proof (intro allI)
  fix env vs sg
  obtain w where w: "sm_world (toy_strict_target env) = Some w"
    by (simp add: toy_strict_target_def register_agents_def shared_start_def shared_init_def toy_draws_def
        provision_agent_def cred_register_def dget_default_def Let_def)
  have "sm_strict_mode (toy_strict_target env)" "dget (sm_agent_keys (toy_strict_target env)) ''bob'' = None"
    by (simp_all add: toy_strict_target_def register_agents_def shared_start_def shared_init_def toy_draws_def
        provision_agent_def cred_register_def dget_default_def Let_def)
  from unregistered_agent_refused [OF w this, of "''recv''" "[]" env vs sg toy_draws] show "\<exists>d st'. shared_call env vs sg toy_draws ''bob'' ''recv'' (PDict []) (toy_strict_target env) =
     (Inr (PDict d), st') \<and> dget d ''error_code'' = Some (PStr ''identity_failure'')"
    by (auto simp: identity_enforced_operations_def)
qed

end
