(* ===== verification/Installer.thy ===== *)
theory Installer
  imports Py_Values
begin

text \<open>
  The installer of the Claude Code adapter (adapters/runtimes/claude_code/install.py). A project is
  the files the installer looks at, JSON files decoded (\<open>None\<close>: missing or blank). The bundled
  texts are a parameter. A section of settings.json of another type than expected
  raises; the few such values that Python lets pass are not modelled.
\<close>

section \<open>Constants\<close>

definition nl :: string where "nl = [char_of (10 :: nat)]"

definition bq :: string where "bq = [CHR 0x60]"

definition tool_substitutions :: "(string \<times> string) list" where
  "tool_substitutions =
     [(''{{send_tool}}'', ''mcp__sox__channels__send''), (''{{recv_tool}}'', ''mcp__sox__channels__recv''),
      (''{{subscribe_tool}}'', ''mcp__sox__channels__subscribe''),
      (''{{list_tool}}'', ''mcp__sox__channels__list_channels'')]"

definition bootstrap_sentinel :: string where
  "bootstrap_sentinel = ''load the '' @ bq @ ''inter-agent-channels'' @ bq @ '' skill''"

definition bootstrap_line :: string where
  "bootstrap_line =
     ''For coordination with other agents (clarification, broadcasts, peer questions), '' @
     bootstrap_sentinel @ '' when blocked, broadcasting, or seeking peer input.''"

definition mcp_server_name :: string where "mcp_server_name = ''sox''"

definition hook_events :: "string list" where
  "hook_events = [''PostToolUse'', ''Stop'', ''SubagentStop'']"

definition sox_mcp_tool_names :: "string list" where
  "sox_mcp_tool_names =
     [''mcp__sox__channels__send'', ''mcp__sox__channels__recv'', ''mcp__sox__channels__subscribe'',
      ''mcp__sox__channels__unsubscribe'', ''mcp__sox__channels__ack'', ''mcp__sox__channels__heartbeat'',
      ''mcp__sox__channels__list_agents'', ''mcp__sox__channels__list_channels'',
      ''mcp__sox__channels__replay'', ''mcp__sox__channels__collect'', ''mcp__sox__group__create'',
      ''mcp__sox__group__invite'', ''mcp__sox__group__join'', ''mcp__sox__group__leave'',
      ''mcp__sox__group__list_members'']"

section \<open>The project and the package\<close>

record hook_file =
  hf_content :: string
  hf_executable :: bool

record project =
  pj_dir :: string
  pj_skill :: "string option"
  pj_hooks :: "(string \<times> hook_file) list"
  pj_mcp_json :: "pyval option"
  pj_settings :: "pyval option"
  pj_agents :: "(string \<times> string) list option"

text \<open>
  The bundled files, the interpreter, and the fixed text of the activation block before and
  behind the line with the channels.
\<close>

record package =
  pk_discipline :: string
  pk_template :: string
  pk_hooks :: "(string \<times> hook_file) list"
  pk_executable :: string
  pk_activation :: "string \<times> string"

text \<open>The option \<open>--channel\<close> is \<open>None\<close> when it is not given.\<close>

record options =
  op_auto_subscribe :: bool
  op_default_channels :: "string list option"
  op_inject_permissions :: bool
  op_agent_id_source :: string

section \<open>SKILL.md\<close>

definition substitute_placeholders :: "string \<Rightarrow> string" where
  "substitute_placeholders txt = fold (\<lambda>(p, tool). str_replace p tool) tool_substitutions txt"

definition quoted :: "string \<Rightarrow> string" where
  "quoted s = [CHR 0x22] @ s @ [CHR 0x22]"

definition inbox_line :: "string list \<Rightarrow> string" where
  "inbox_line extras =
     (if extras = []
      then ''   '' @ bq @ ''mcp__sox__channels__subscribe(channels=['' @ quoted ''agent/<your-agent-id>'' @ ''])'' @ bq
      else ''   '' @ bq @ ''mcp__sox__channels__subscribe(channels=['' @
           join '', '' (quoted ''agent/<your-agent-id>'' # map quoted extras) @ ''])'' @ bq)"

definition render_activation_section :: "package \<Rightarrow> bool \<Rightarrow> string list option \<Rightarrow> string" where
  "render_activation_section pk auto_subscribe channels =
     (if \<not> auto_subscribe then []
      else fst (pk_activation pk) @ inbox_line (case channels of None \<Rightarrow> [] | Some cs \<Rightarrow> cs) @
           snd (pk_activation pk))"

definition render_skill_md :: "package \<Rightarrow> bool \<Rightarrow> string list option \<Rightarrow> string" where
  "render_skill_md pk auto_subscribe channels =
     str_replace ''{{activation_section}}'' (render_activation_section pk auto_subscribe channels)
       (str_replace ''{{discipline_body}}'' (substitute_placeholders (pk_discipline pk)) (pk_template pk))"

text \<open>A step tells whether something changed; with \<open>dry_run\<close> it writes nothing.\<close>

definition write_skill :: "package \<Rightarrow> bool \<Rightarrow> options \<Rightarrow> project \<Rightarrow> bool result \<times> project" where
  "write_skill pk dry_run opts pj =
     (let content = render_skill_md pk (op_auto_subscribe opts) (op_default_channels opts)
      in if pj_skill pj = Some content then (Inr False, pj)
         else (Inr True, if dry_run then pj else pj\<lparr>pj_skill := Some content\<rparr>))"

section \<open>Hook scripts\<close>

fun write_hook_files ::
    "bool \<Rightarrow> (string \<times> hook_file) list \<Rightarrow> bool \<Rightarrow> (string \<times> hook_file) list \<Rightarrow>
     bool \<times> (string \<times> hook_file) list" where
  "write_hook_files dry_run [] changed dst = (changed, dst)"
| "write_hook_files dry_run ((name, src) # rest) changed dst =
     (if (case dget dst name of Some f \<Rightarrow> hf_content f = hf_content src | None \<Rightarrow> False)
      then write_hook_files dry_run rest changed dst
      else write_hook_files dry_run rest True
             (if dry_run then dst
              else dset dst name \<lparr>hf_content = hf_content src, hf_executable = True\<rparr>))"

definition write_hooks :: "package \<Rightarrow> bool \<Rightarrow> project \<Rightarrow> bool result \<times> project" where
  "write_hooks pk dry_run pj =
     (let (changed, dst) = write_hook_files dry_run (pk_hooks pk) False (pj_hooks pj)
      in (Inr changed, pj\<lparr>pj_hooks := dst\<rparr>))"

section \<open>Sections of a JSON object\<close>

text \<open>
  \<open>d.setdefault(k, default)\<close> followed by an update \<open>g\<close> of the value that is now there; several
  such updates in turn.
\<close>

type_synonym section_update = "string \<times> pyval \<times> (pyval \<Rightarrow> pyval result)"

definition update_section :: "section_update \<Rightarrow> pydict \<Rightarrow> pydict result" where
  "update_section = (\<lambda>(k, default, g) d.
     bind_res (g (dget_default d k default)) (\<lambda>v. Inr (dset d k v)))"

fun update_sections :: "section_update list \<Rightarrow> pydict \<Rightarrow> pydict result" where
  "update_sections [] d = Inr d"
| "update_sections (u # us) d = bind_res (update_section u d) (update_sections us)"

definition on_dict :: "(pydict \<Rightarrow> pydict result) \<Rightarrow> pyval \<Rightarrow> pyval result" where
  "on_dict f v = (case v of
     PDict d \<Rightarrow> bind_res (f d) (\<lambda>d'. Inr (PDict d'))
   | _ \<Rightarrow> Inl (AttributeError ''setdefault''))"

text \<open>\<open>json.dumps(v, sort_keys=True)\<close> is compared: equality up to the order of keys.\<close>

fun canonical :: "pyval \<Rightarrow> pyval" where
  "canonical (PDict d) = PDict (sort_key fst (map (\<lambda>(k, v). (k, canonical v)) d))"
| "canonical (PList vs) = PList (map canonical vs)"
| "canonical v = v"

definition rewrite_json ::
    "bool \<Rightarrow> (pydict \<Rightarrow> pydict result) \<Rightarrow> pyval option \<Rightarrow> bool result \<times> pyval option" where
  "rewrite_json dry_run f file =
     (let original = (case file of None \<Rightarrow> PDict [] | Some v \<Rightarrow> v)
      in case on_dict f original of
           Inl e \<Rightarrow> (Inl e, file)
         | Inr updated \<Rightarrow>
             if canonical updated = canonical original then (Inr False, file)
             else (Inr True, if dry_run then file else Some updated))"

section \<open>.mcp.json and settings.json\<close>

definition path_join :: "string \<Rightarrow> string \<Rightarrow> string" where
  "path_join dir rel = (if dir \<noteq> [] \<and> last dir = CHR ''/'' then dir @ rel else dir @ ''/'' @ rel)"

definition server_entry :: "package \<Rightarrow> options \<Rightarrow> string \<Rightarrow> pyval" where
  "server_entry pk opts dir =
     PDict [(''type'', PStr ''stdio''), (''command'', PStr (pk_executable pk)),
       (''args'', PList [PStr ''-m'', PStr ''sox_protocol.core.mcp_server'']),
       (''env'', PDict [(''SOX_BACKING_STORE'', PStr (''sqlite:///'' @ path_join dir ''.sox/messages.db'')),
          (''SOX_AGENT_ID_SOURCE'', PStr (op_agent_id_source opts))])]"

definition add_server :: "pyval \<Rightarrow> pyval \<Rightarrow> pyval result" where
  "add_server entry v = (case v of
     PDict servers \<Rightarrow>
       Inr (PDict (if has_key servers mcp_server_name then servers else dset servers mcp_server_name entry))
   | _ \<Rightarrow> Inl (TypeError ''mcpServers''))"

definition update_mcp_json :: "package \<Rightarrow> bool \<Rightarrow> options \<Rightarrow> project \<Rightarrow> bool result \<times> project" where
  "update_mcp_json pk dry_run opts pj =
     (let (r, file) = rewrite_json dry_run
            (update_sections [(''mcpServers'', PDict [], add_server (server_entry pk opts (pj_dir pj)))])
            (pj_mcp_json pj)
      in (r, pj\<lparr>pj_mcp_json := file\<rparr>))"

definition event_to_script_name :: "string \<Rightarrow> string" where
  "event_to_script_name event =
     dget_default [(''PostToolUse'', ''post_tool_use.sh''), (''Stop'', ''stop.sh''),
       (''SubagentStop'', ''stop.sh'')] event (lower event @ ''.sh'')"

definition hook_command :: "string \<Rightarrow> string \<Rightarrow> string" where
  "hook_command dir event = path_join dir (''tools/sox-hooks/'' @ event_to_script_name event)"

definition build_hook_entry :: "string \<Rightarrow> string \<Rightarrow> pyval" where
  "build_hook_entry dir event =
     PDict [(''matcher'', PStr []),
       (''hooks'', PList [PDict [(''type'', PStr ''command''), (''command'', PStr (hook_command dir event))]])]"

text \<open>\<open>any(...)\<close> over values on which a test may raise.\<close>

fun any_res :: "('a \<Rightarrow> bool result) \<Rightarrow> 'a list \<Rightarrow> bool result" where
  "any_res f [] = Inr False"
| "any_res f (x # xs) = bind_res (f x) (\<lambda>b. if b then Inr True else any_res f xs)"

definition items_of :: "pyval \<Rightarrow> pyval list result" where
  "items_of v = (case v of PList vs \<Rightarrow> Inr vs | _ \<Rightarrow> Inl (TypeError ''list''))"

text \<open>\<open>h.get(k) == s\<close>.\<close>

definition field_is :: "string \<Rightarrow> string \<Rightarrow> pyval \<Rightarrow> bool result" where
  "field_is k s h = (case h of
     PDict d \<Rightarrow> Inr (dget d k = Some (PStr s)) | _ \<Rightarrow> Inl (AttributeError ''get''))"

definition runs_command :: "string \<Rightarrow> pyval \<Rightarrow> bool result" where
  "runs_command cmd h = (case h of
     PDict d \<Rightarrow> bind_res (items_of (dget_default d ''hooks'' (PList []))) (any_res (field_is ''command'' cmd))
   | _ \<Rightarrow> Inl (AttributeError ''get''))"

text \<open>Entries of the old format for the script are dropped, then the new one is added once.\<close>

definition register_hook :: "string \<Rightarrow> string \<Rightarrow> pyval \<Rightarrow> pyval result" where
  "register_hook dir event v =
     bind_res (items_of v) (\<lambda>raw.
       if \<not> list_all is_dict raw then Inl (AttributeError ''get'')
       else (let cmd = hook_command dir event;
                 hooks = filter (\<lambda>h. field_is ''command'' cmd h \<noteq> Inr True) raw
             in bind_res (any_res (runs_command cmd) hooks) (\<lambda>already.
                  Inr (PList (if already then hooks else hooks @ [build_hook_entry dir event])))))"

definition allow_server :: "pyval \<Rightarrow> pyval result" where
  "allow_server v =
     bind_res (items_of v) (\<lambda>allowed.
     bind_res (any_res (field_is ''serverName'' mcp_server_name) allowed) (\<lambda>found.
       Inr (PList (if found then allowed
                   else allowed @ [PDict [(''serverName'', PStr mcp_server_name)]]))))"

definition allow_tools :: "pyval \<Rightarrow> pyval result" where
  "allow_tools v = (case v of
     PList allow \<Rightarrow> Inr (PList (allow @ map PStr (filter (\<lambda>t. PStr t \<notin> set allow) sox_mcp_tool_names)))
   | _ \<Rightarrow> Inr v)"

definition settings_sections :: "package \<Rightarrow> options \<Rightarrow> string \<Rightarrow> section_update list" where
  "settings_sections pk opts dir =
     [(''hooks'', PDict [], on_dict (update_sections
         (map (\<lambda>event. (event, PList [], register_hook dir event)) hook_events))),
      (''mcpServers'', PDict [], add_server (server_entry pk opts dir)),
      (''allowedMcpServers'', PList [], allow_server)] @
     (if op_inject_permissions opts
      then [(''permissions'', PDict [], on_dict (update_sections [(''allow'', PList [], allow_tools)]))]
      else [])"

definition update_settings :: "package \<Rightarrow> bool \<Rightarrow> options \<Rightarrow> project \<Rightarrow> bool result \<times> project" where
  "update_settings pk dry_run opts pj =
     (let (r, file) = rewrite_json dry_run (update_sections (settings_sections pk opts (pj_dir pj)))
            (pj_settings pj)
      in (r, pj\<lparr>pj_settings := file\<rparr>))"

section \<open>Bootstrap lines\<close>

definition with_bootstrap :: "string \<Rightarrow> string" where
  "with_bootstrap content =
     (let separator = (if content \<noteq> [] \<and> \<not> suffix (nl @ nl) content then nl @ nl else nl);
          stripped = rev (dropWhile (\<lambda>c. c = char_of (10 :: nat)) (rev content))
      in stripped @ separator @ bootstrap_line @ nl)"

definition needs_bootstrap :: "string \<times> string \<Rightarrow> bool" where
  "needs_bootstrap = (\<lambda>(name, content). suffix ''.md'' name \<and> \<not> contains_str content bootstrap_sentinel)"

definition insert_bootstrap :: "bool \<Rightarrow> project \<Rightarrow> string list result \<times> project" where
  "insert_bootstrap dry_run pj =
     (case pj_agents pj of
        None \<Rightarrow> (Inr [], pj)
      | Some files \<Rightarrow>
          (Inr (sort (map fst (filter needs_bootstrap files))),
           if dry_run then pj
           else pj\<lparr>pj_agents := Some (map (\<lambda>f. if needs_bootstrap f then (fst f, with_bootstrap (snd f)) else f)
                                       files)\<rparr>))"

section \<open>install\<close>

text \<open>One step after the other; a step that raises ends the installation.\<close>

definition then_step ::
    "'a result \<times> project \<Rightarrow> ('a \<Rightarrow> project \<Rightarrow> 'b result \<times> project) \<Rightarrow> 'b result \<times> project" where
  "then_step r f = (case r of (Inl e, pj) \<Rightarrow> (Inl e, pj) | (Inr x, pj) \<Rightarrow> f x pj)"

record install_report =
  rp_skill :: bool
  rp_hooks :: bool
  rp_mcp_json :: bool
  rp_settings :: bool
  rp_agents :: "string list"

definition install :: "package \<Rightarrow> options \<Rightarrow> project \<Rightarrow> install_report result \<times> project" where
  "install pk opts pj =
     then_step (write_skill pk False opts pj) (\<lambda>a pj1.
     then_step (write_hooks pk False pj1) (\<lambda>b pj2.
     then_step (update_mcp_json pk False opts pj2) (\<lambda>c pj3.
     then_step (update_settings pk False opts pj3) (\<lambda>d pj4.
     then_step (insert_bootstrap False pj4) (\<lambda>e pj5.
       (Inr \<lparr>rp_skill = a, rp_hooks = b, rp_mcp_json = c, rp_settings = d, rp_agents = e\<rparr>, pj5))))))"

end
