(* ===== verification/Installer_Properties.thy ===== *)
theory Installer_Properties
  imports Installer
begin

text \<open>
  Installing twice is installing once, a dry run predicts a real one, and what the user had in
  settings.json stays.
\<close>

section \<open>Sections\<close>

definition idem :: "('a \<Rightarrow> 'a result) \<Rightarrow> bool" where
  "idem g \<longleftrightarrow> (\<forall>v v'. g v = Inr v' \<longrightarrow> g v' = Inr v')"

lemma idemI: "(\<And>v v'. g v = Inr v' \<Longrightarrow> g v' = Inr v') \<Longrightarrow> idem g"
  by (simp add: idem_def)

lemma idemD: "idem g \<Longrightarrow> g v = Inr v' \<Longrightarrow> g v' = Inr v'"
  by (simp add: idem_def)

lemma dset_same: "dget d k = Some v \<Longrightarrow> dset d k v = d"
  by (induction d) (auto split: if_splits)

text \<open>A section is settled when its key is there and its update changes nothing.\<close>

definition settled :: "section_update \<Rightarrow> pydict \<Rightarrow> bool" where
  "settled = (\<lambda>(k, default, g) d. \<exists>v. dget d k = Some v \<and> g v = Inr v)"

lemma update_sections_settled:
  "\<forall>u \<in> set us. settled u d \<Longrightarrow> update_sections us d = Inr d"
  by (induction us) (auto simp: settled_def update_section_def dget_default_def dset_same)

lemma update_sections_result:
  assumes "update_sections us d = Inr d'" "distinct (map fst us)"
    "\<forall>(k, default, g) \<in> set us. idem g"
  shows "(\<forall>u \<in> set us. settled u d') \<and> (\<forall>k. k \<notin> fst ` set us \<longrightarrow> dget d' k = dget d k)"
  using assms
proof (induction us arbitrary: d)
  case (Cons u us)
  obtain k default g where u: "u = (k, default, g)" by (cases u)
  from Cons.prems(1) obtain v where v: "g (dget_default d k default) = Inr v"
    "update_sections us (dset d k v) = Inr d'"
    by (auto simp: u update_section_def bind_res_eq_Inr)
  have IH: "\<forall>u \<in> set us. settled u d'" "\<forall>k'. k' \<notin> fst ` set us \<longrightarrow> dget d' k' = dget (dset d k v) k'"
    using Cons.IH [OF v(2)] Cons.prems(2,3) by auto
  have "dget d' k = Some v" "g v = Inr v"
    using IH(2) Cons.prems(2,3) v(1) by (auto simp: u dest: idemD)
  then show ?case using IH by (auto simp: u settled_def)
qed simp

lemma update_sections_idem:
  "distinct (map fst us) \<Longrightarrow> \<forall>(k, default, g) \<in> set us. idem g \<Longrightarrow> idem (update_sections us)"
  by (rule idemI) (blast intro: update_sections_settled dest: update_sections_result)

lemma on_dict_idem: "idem f \<Longrightarrow> idem (on_dict f)"
  by (rule idemI) (auto simp: on_dict_def bind_res_eq_Inr split: pyval.splits dest: idemD)

lemma rewrite_json_idem:
  assumes "idem f" "rewrite_json False f file = (Inr c, file')"
  shows "rewrite_json False f file' = (Inr False, file')"
proof -
  let ?v = "case file of None \<Rightarrow> PDict [] | Some v \<Rightarrow> v"
  obtain u where u: "on_dict f ?v = Inr u"
    using assms(2) by (auto simp: rewrite_json_def Let_def split: sum.splits)
  show ?thesis
  proof (cases "canonical u = canonical ?v")
    case True
    with assms(2) u show ?thesis by (auto simp: rewrite_json_def Let_def)
  next
    case False
    then have "file' = Some u" using assms(2) u by (simp add: rewrite_json_def Let_def)
    moreover have "on_dict f u = Inr u" using idemD [OF on_dict_idem [OF assms(1)] u] .
    ultimately show ?thesis by (simp add: rewrite_json_def Let_def)
  qed
qed

section \<open>The updates of the installer\<close>

lemma add_server_idem: "idem (add_server entry)"
  by (rule idemI) (auto simp: add_server_def split: pyval.splits)

lemma any_res_append:
  "any_res f xs = Inr False \<Longrightarrow> any_res f (xs @ ys) = any_res f ys"
  by (induction xs) (auto simp: bind_res_eq_Inr split: if_splits)

lemma items_of_PList [simp]: "items_of (PList vs) = Inr vs"
  by (simp add: items_of_def)

lemma allow_server_idem: "idem allow_server"
proof (rule idemI)
  fix v v' assume "allow_server v = Inr v'"
  then obtain vs b where "v = PList vs" and b: "any_res (field_is ''serverName'' mcp_server_name) vs = Inr b"
    and v': "v' = PList (if b then vs else vs @ [PDict [(''serverName'', PStr mcp_server_name)]])"
    by (auto simp: allow_server_def items_of_def bind_res_eq_Inr split: pyval.splits)
  have "any_res (field_is ''serverName'' mcp_server_name) (as_list v') = Inr True"
    using b by (cases b) (simp_all add: v' any_res_append field_is_def)
  then show "allow_server v' = Inr v'" by (simp add: v' allow_server_def)
qed

lemma allow_tools_idem: "idem allow_tools"
  by (rule idemI) (auto simp: allow_tools_def filter_empty_conv split: pyval.splits)

lemma new_entry_kept: "field_is ''command'' cmd (build_hook_entry dir event) = Inr False"
  by (simp add: field_is_def build_hook_entry_def)

lemma new_entry_runs: "runs_command (hook_command dir event) (build_hook_entry dir event) = Inr True"
  by (simp add: runs_command_def build_hook_entry_def dget_default_def field_is_def)

lemma register_hook_idem: "idem (register_hook dir event)"
proof (rule idemI)
  fix v v' assume run: "register_hook dir event v = Inr v'"
  let ?cmd = "hook_command dir event" and ?entry = "build_hook_entry dir event"
  from run obtain raw b where raw: "v = PList raw" "list_all is_dict raw"
    and b: "any_res (runs_command ?cmd) (filter (\<lambda>h. field_is ''command'' ?cmd h \<noteq> Inr True) raw) = Inr b"
    and v': "v' = PList (if b then filter (\<lambda>h. field_is ''command'' ?cmd h \<noteq> Inr True) raw
                  else filter (\<lambda>h. field_is ''command'' ?cmd h \<noteq> Inr True) raw @ [?entry])"
    by (auto simp: register_hook_def items_of_def bind_res_eq_Inr Let_def split: pyval.splits if_splits)
  let ?hooks = "if b then filter (\<lambda>h. field_is ''command'' ?cmd h \<noteq> Inr True) raw
                else filter (\<lambda>h. field_is ''command'' ?cmd h \<noteq> Inr True) raw @ [?entry]"
  have "list_all is_dict ?hooks"
    using raw(2) by (auto simp: list_all_iff build_hook_entry_def)
  moreover have "filter (\<lambda>h. field_is ''command'' ?cmd h \<noteq> Inr True) ?hooks = ?hooks"
    by (simp add: new_entry_kept)
  moreover have "any_res (runs_command ?cmd) ?hooks = Inr True"
    using b by (cases b) (simp_all add: any_res_append new_entry_runs)
  ultimately show "register_hook dir event v' = Inr v'"
    unfolding v' by (simp only: register_hook_def items_of_PList bind_res_simps Let_def if_True if_False not_True_eq_False)
qed

lemma settings_idem: "idem (update_sections (settings_sections pk opts dir))"
proof (rule update_sections_idem)
  have "idem (on_dict (update_sections (map (\<lambda>event. (event, PList [], register_hook dir event)) hook_events)))"
    by (intro on_dict_idem update_sections_idem)
      (auto simp: hook_events_def register_hook_idem)
  moreover have "idem (on_dict (update_sections [(''allow'', PList [], allow_tools)]))"
    by (intro on_dict_idem update_sections_idem) (auto simp: allow_tools_idem)
  ultimately show "\<forall>(k, default, g) \<in> set (settings_sections pk opts dir). idem g"
    by (auto simp: settings_sections_def add_server_idem allow_server_idem split: if_splits)
qed (simp add: settings_sections_def)

section \<open>Files\<close>

lemma write_hook_files_changed: "write_hook_files dry srcs c dst = (c', dst') \<Longrightarrow> c \<Longrightarrow> c'"
  by (induction dry srcs c dst rule: write_hook_files.induct) (auto split: if_splits)

lemma write_hook_files_done:
  assumes "write_hook_files False srcs c dst = (c', dst')" "distinct (map fst srcs)"
  shows "(\<forall>(name, src) \<in> set srcs. \<exists>f. dget dst' name = Some f \<and> hf_content f = hf_content src) \<and>
    (\<forall>name. name \<notin> fst ` set srcs \<longrightarrow> dget dst' name = dget dst name)"
  using assms
proof (induction srcs arbitrary: c dst)
  case (Cons p srcs)
  obtain name src where p: "p = (name, src)" by (cases p)
  show ?case
  proof (cases "case dget dst name of Some f \<Rightarrow> hf_content f = hf_content src | None \<Rightarrow> False")
    case True
    with Cons.prems have "write_hook_files False srcs c dst = (c', dst')" "distinct (map fst srcs)"
      by (simp_all add: p)
    note IH = Cons.IH [OF this]
    moreover have "dget dst' name = dget dst name" using IH Cons.prems(2) by (simp add: p)
    ultimately show ?thesis using True by (auto simp: p split: option.splits)
  next
    case False
    with Cons.prems have "write_hook_files False srcs True
        (dset dst name \<lparr>hf_content = hf_content src, hf_executable = True\<rparr>) = (c', dst')"
        "distinct (map fst srcs)"
      by (auto simp: p split: option.splits)
    note IH = Cons.IH [OF this]
    moreover have "dget dst' name = Some \<lparr>hf_content = hf_content src, hf_executable = True\<rparr>"
      using IH Cons.prems(2) by (simp add: p)
    ultimately show ?thesis by (auto simp: p)
  qed
qed simp

lemma write_hook_files_again:
  assumes "\<forall>(name, src) \<in> set srcs. \<exists>f. dget dst name = Some f \<and> hf_content f = hf_content src"
  shows "write_hook_files dry srcs c dst = (c, dst)"
  using assms by (induction srcs) auto

lemma contains_middle: "p \<noteq> [] \<Longrightarrow> contains_str (a @ p @ b) p"
  unfolding contains_str_def list_ex_iff
  by (rule bexI [of _ "length a"]) auto

lemma with_bootstrap_done: "\<not> needs_bootstrap (name, with_bootstrap content)"
proof -
  have "with_bootstrap content = (rev (dropWhile (\<lambda>c. c = char_of (10 :: nat)) (rev content)) @
      (if content \<noteq> [] \<and> \<not> suffix (nl @ nl) content then nl @ nl else nl) @
      ''For coordination with other agents (clarification, broadcasts, peer questions), '') @
    bootstrap_sentinel @ '' when blocked, broadcasting, or seeking peer input.'' @ nl"
    unfolding with_bootstrap_def bootstrap_line_def Let_def by simp
  moreover have "bootstrap_sentinel \<noteq> []" by (simp add: bootstrap_sentinel_def)
  ultimately show ?thesis
    unfolding needs_bootstrap_def prod.case by (simp only: contains_middle simp_thms not_False_eq_True)
qed

section \<open>Installing again\<close>

text \<open>Nothing is left to do in a project.\<close>

definition installed :: "package \<Rightarrow> options \<Rightarrow> project \<Rightarrow> bool" where
  "installed pk opts pj \<longleftrightarrow>
     pj_skill pj = Some (render_skill_md pk (op_auto_subscribe opts) (op_default_channels opts)) \<and>
     (\<forall>(name, src) \<in> set (pk_hooks pk). \<exists>f. dget (pj_hooks pj) name = Some f \<and>
        hf_content f = hf_content src) \<and>
     update_mcp_json pk False opts pj = (Inr False, pj) \<and>
     update_settings pk False opts pj = (Inr False, pj) \<and>
     (\<forall>files. pj_agents pj = Some files \<longrightarrow> (\<forall>f \<in> set files. \<not> needs_bootstrap f))"

lemma installed_install:
  assumes "installed pk opts pj"
  shows "install pk opts pj = (Inr \<lparr>rp_skill = False, rp_hooks = False, rp_mcp_json = False,
    rp_settings = False, rp_agents = []\<rparr>, pj)"
proof -
  have "write_skill pk False opts pj = (Inr False, pj)" "write_hooks pk False pj = (Inr False, pj)"
    using assms write_hook_files_again [of "pk_hooks pk" "pj_hooks pj" False False]
    by (simp_all add: installed_def write_skill_def write_hooks_def)
  moreover have "insert_bootstrap False pj = (Inr [], pj)"
  proof (cases "pj_agents pj")
    case (Some files)
    then have "\<forall>f \<in> set files. \<not> needs_bootstrap f" using assms by (simp add: installed_def)
    then have "filter needs_bootstrap files = []"
      "map (\<lambda>f. if needs_bootstrap f then (fst f, with_bootstrap (snd f)) else f) files = files"
      by (simp_all add: filter_empty_conv map_idI)
    with Some show ?thesis by (simp add: insert_bootstrap_def)
  qed (simp add: insert_bootstrap_def)
  ultimately show ?thesis
    using assms by (simp add: install_def then_step_def installed_def)
qed

lemma then_step_Inr:
  "then_step r f = (Inr y, pj') \<longleftrightarrow> (\<exists>x pj. r = (Inr x, pj) \<and> f x pj = (Inr y, pj'))"
  by (auto simp: then_step_def split: prod.splits sum.splits)

lemma insert_bootstrap_settled:
  assumes "insert_bootstrap False pj = (Inr names, pj')" "pj_agents pj' = Some files" "f \<in> set files"
  shows "\<not> needs_bootstrap f"
  using assms with_bootstrap_done
  by (auto simp: insert_bootstrap_def split: option.splits)

lemma install_installed:
  assumes "install pk opts pj = (Inr rep, pj')" "distinct (map fst (pk_hooks pk))"
  shows "installed pk opts pj'"
proof -
  let ?skill = "render_skill_md pk (op_auto_subscribe opts) (op_default_channels opts)"
  from assms(1) obtain a pj1 b pj2 c pj3 d pj4 e where steps:
    "write_skill pk False opts pj = (Inr a, pj1)" "write_hooks pk False pj1 = (Inr b, pj2)"
    "update_mcp_json pk False opts pj2 = (Inr c, pj3)" "update_settings pk False opts pj3 = (Inr d, pj4)"
    "insert_bootstrap False pj4 = (Inr e, pj')"
    by (auto simp: install_def then_step_Inr)
  have s1: "pj1 = pj\<lparr>pj_skill := Some ?skill\<rparr>"
    using steps(1) by (auto simp: write_skill_def Let_def split: if_splits)
  obtain dst where s2: "pj2 = pj1\<lparr>pj_hooks := dst\<rparr>"
    "write_hook_files False (pk_hooks pk) False (pj_hooks pj1) = (b, dst)"
    using steps(2) by (auto simp: write_hooks_def split: prod.splits)
  obtain mcp where s3: "pj3 = pj2\<lparr>pj_mcp_json := mcp\<rparr>"
    "rewrite_json False (update_sections [(''mcpServers'', PDict [],
       add_server (server_entry pk opts (pj_dir pj2)))]) (pj_mcp_json pj2) = (Inr c, mcp)"
    using steps(3) by (auto simp: update_mcp_json_def split: prod.splits)
  obtain settings where s4: "pj4 = pj3\<lparr>pj_settings := settings\<rparr>"
    "rewrite_json False (update_sections (settings_sections pk opts (pj_dir pj3))) (pj_settings pj3) =
       (Inr d, settings)"
    using steps(4) by (auto simp: update_settings_def split: prod.splits)
  have "pj' = pj4\<lparr>pj_agents := pj_agents pj'\<rparr>"
    using steps(5) by (cases "pj_agents pj4") (auto simp: insert_bootstrap_def)
  then obtain agents where s5: "pj' = pj4\<lparr>pj_agents := agents\<rparr>" ..
  have mcp: "rewrite_json False (update_sections [(''mcpServers'', PDict [],
       add_server (server_entry pk opts (pj_dir pj)))]) mcp = (Inr False, mcp)"
    using s3(2) by (intro rewrite_json_idem [OF update_sections_idem])
      (auto simp: add_server_idem s2(1) s1)
  have settings: "rewrite_json False (update_sections (settings_sections pk opts (pj_dir pj))) settings =
       (Inr False, settings)"
    using s4(2) by (intro rewrite_json_idem [OF settings_idem]) (auto simp: s3(1) s2(1) s1)
  show ?thesis
    unfolding installed_def
    using mcp settings write_hook_files_done [OF s2(2) assms(2)] insert_bootstrap_settled [OF steps(5)]
    by (simp add: s5 s4(1) s3(1) s2(1) s1 update_mcp_json_def update_settings_def)
qed

text \<open>C39.
  Installing is idempotent: after an installation that did not raise, a second one with the same
  options finds every file up to date, writes nothing and leaves the project as it is; no hook,
  permission, server entry or bootstrap line is added twice.\<close>

theorem install_idempotent:
  assumes "install pk opts pj = (Inr rep, pj')" "distinct (map fst (pk_hooks pk))"
  shows "install pk opts pj' = (Inr \<lparr>rp_skill = False, rp_hooks = False, rp_mcp_json = False,
    rp_settings = False, rp_agents = []\<rparr>, pj')"
  using install_installed [OF assms] by (rule installed_install)

definition toy_package :: package where
  "toy_package = \<lparr>pk_discipline = ''use {{send_tool}}'', pk_template = ''# {{discipline_body}}'',
     pk_hooks = [(''stop.sh'', \<lparr>hf_content = ''exit 0'', hf_executable = True\<rparr>)],
     pk_executable = ''python3'', pk_activation = ([], [])\<rparr>"

definition toy_options :: options where
  "toy_options = \<lparr>op_auto_subscribe = False, op_default_channels = None, op_inject_permissions = True,
     op_agent_id_source = ''claude_code_agent_name''\<rparr>"

definition toy_project :: project where
  "toy_project = \<lparr>pj_dir = ''/p'', pj_skill = None, pj_hooks = [], pj_mcp_json = None,
     pj_settings = Some (PDict [(''theme'', PStr ''dark'')]), pj_agents = Some [(''a.md'', ''# A'')]\<rparr>"

lemma toy_installs: "case install toy_package toy_options toy_project of
    (Inr rep, pj') \<Rightarrow> rp_settings rep \<and> rp_agents rep = [''a.md''] | (Inl e, pj') \<Rightarrow> False"
  by code_simp

lemma install_idempotent_witness:
  "\<exists>rep pj'. install toy_package toy_options toy_project = (Inr rep, pj') \<and> rp_settings rep \<and>
     install toy_package toy_options pj' = (Inr \<lparr>rp_skill = False, rp_hooks = False, rp_mcp_json = False,
       rp_settings = False, rp_agents = []\<rparr>, pj')"
proof -
  obtain rep pj' where run: "install toy_package toy_options toy_project = (Inr rep, pj')" "rp_settings rep"
    using toy_installs by (auto split: prod.splits sum.splits)
  moreover have "distinct (map fst (pk_hooks toy_package))" by (simp add: toy_package_def)
  ultimately show ?thesis using install_idempotent by blast
qed

section \<open>Dry runs and the settings of the user\<close>

lemma write_hook_files_dry:
  assumes "distinct (map fst srcs)" "\<forall>name \<in> fst ` set srcs. dget dst name = dget dst' name"
  shows "write_hook_files True srcs c dst = (fst (write_hook_files False srcs c dst'), dst)"
  using assms
proof (induction srcs arbitrary: c dst')
  case (Cons p srcs)
  obtain name src where p: "p = (name, src)" by (cases p)
  have "name \<notin> fst ` set srcs" "distinct (map fst srcs)"
    "\<forall>name \<in> fst ` set srcs. dget dst name = dget dst' name" "dget dst name = dget dst' name"
    using Cons.prems by (auto simp: p)
  note rest = this
  have "\<forall>n \<in> fst ` set srcs. dget dst n =
      dget (dset dst' name \<lparr>hf_content = hf_content src, hf_executable = True\<rparr>) n"
    using rest(1,3) by auto
  then show ?case
    using Cons.IH [OF rest(2)] rest(3,4) by (simp add: p)
qed simp

lemma rewrite_json_dry: "rewrite_json True f file = (fst (rewrite_json False f file), file)"
  by (auto simp: rewrite_json_def Let_def split: sum.splits)

text \<open>
  A dry run predicts the installation: every step reports what the real step would report, and
  writes nothing.\<close>

theorem dry_run_predicts:
  assumes "distinct (map fst (pk_hooks pk))"
  shows "write_skill pk True opts pj = (fst (write_skill pk False opts pj), pj) \<and>
    write_hooks pk True pj = (fst (write_hooks pk False pj), pj) \<and>
    update_mcp_json pk True opts pj = (fst (update_mcp_json pk False opts pj), pj) \<and>
    update_settings pk True opts pj = (fst (update_settings pk False opts pj), pj) \<and>
    insert_bootstrap True pj = (fst (insert_bootstrap False pj), pj)"
  using write_hook_files_dry [OF assms, of "pj_hooks pj" "pj_hooks pj" False]
  by (simp add: write_skill_def write_hooks_def update_mcp_json_def update_settings_def
      insert_bootstrap_def rewrite_json_dry Let_def split: option.splits prod.splits)

lemma dry_run_predicts_witness:
  "update_settings toy_package True toy_options toy_project =
     (fst (update_settings toy_package False toy_options toy_project), toy_project)"
  using dry_run_predicts [of toy_package toy_options toy_project] by (simp add: toy_package_def)

lemma update_sections_other:
  "update_sections us d = Inr d' \<Longrightarrow> k \<notin> fst ` set us \<Longrightarrow> dget d' k = dget d k"
proof (induction us arbitrary: d)
  case (Cons u us)
  then show ?case by (cases u) (auto simp: update_section_def bind_res_eq_Inr)
qed simp

lemma update_sections_values:
  assumes "update_sections us d = Inr d'" "distinct (map fst us)" "(k, dflt, g) \<in> set us"
  shows "\<exists>v. g (dget_default d k dflt) = Inr v \<and> dget d' k = Some v"
  using assms
proof (induction us arbitrary: d)
  case (Cons u us)
  obtain k1 dflt1 g1 where u: "u = (k1, dflt1, g1)" by (cases u)
  from Cons.prems(1) obtain v where v: "g1 (dget_default d k1 dflt1) = Inr v"
    "update_sections us (dset d k1 v) = Inr d'"
    by (auto simp: u update_section_def bind_res_eq_Inr)
  show ?case
  proof (cases "(k, dflt, g) = u")
    case True
    with v update_sections_other [OF v(2), of k] Cons.prems(2) show ?thesis by (auto simp: u)
  next
    case False
    with Cons.prems(2,3) have k: "(k, dflt, g) \<in> set us" "k \<noteq> k1"
      by (auto simp: u rev_image_eqI)
    with Cons.IH [OF v(2)] Cons.prems(2) show ?thesis by simp
  qed
qed simp

text \<open>
  The update of settings.json keeps what the user has there: sections that are not SOX's stay, and
  so does every MCP server that is configured, a SOX entry included; the permission list is
  only extended at its end.\<close>

theorem update_settings_keeps:
  assumes "update_settings pk False opts pj = (Inr True, pj')" "pj_settings pj = Some (PDict d)"
  shows "\<exists>d'. pj_settings pj' = Some (PDict d') \<and>
    (\<forall>k. k \<notin> {''hooks'', ''mcpServers'', ''allowedMcpServers'', ''permissions''} \<longrightarrow> dget d' k = dget d k) \<and>
    (\<forall>servers k v. dget d ''mcpServers'' = Some (PDict servers) \<longrightarrow> dget servers k = Some v \<longrightarrow>
       (\<exists>servers'. dget d' ''mcpServers'' = Some (PDict servers') \<and> dget servers' k = Some v))"
proof -
  let ?us = "settings_sections pk opts (pj_dir pj)"
  obtain d' where d': "update_sections ?us d = Inr d'" "pj_settings pj' = Some (PDict d')"
    using assms
    by (auto simp: update_settings_def rewrite_json_def on_dict_def bind_res_eq_Inr Let_def
        split: prod.splits sum.splits if_splits)
  have us: "distinct (map fst ?us)"
      "(''mcpServers'', PDict [], add_server (server_entry pk opts (pj_dir pj))) \<in> set ?us"
    by (simp_all add: settings_sections_def)
  have keys: "fst ` set ?us \<subseteq> {''hooks'', ''mcpServers'', ''allowedMcpServers'', ''permissions''}"
    by (auto simp: settings_sections_def split: if_splits)
  have "dget d' k = dget d k"
    if "k \<notin> {''hooks'', ''mcpServers'', ''allowedMcpServers'', ''permissions''}" for k
    using update_sections_other [OF d'(1)] keys that by blast
  moreover obtain v where v: "add_server (server_entry pk opts (pj_dir pj))
      (dget_default d ''mcpServers'' (PDict [])) = Inr v" "dget d' ''mcpServers'' = Some v"
    using update_sections_values [OF d'(1) us] by blast
  then have "\<exists>servers'. dget d' ''mcpServers'' = Some (PDict servers') \<and> dget servers' k = Some x"
    if "dget d ''mcpServers'' = Some (PDict servers)" "dget servers k = Some x" for servers k x
    using that by (auto simp: add_server_def dget_default_def has_key_map_of)
  ultimately show ?thesis using d'(2) by blast
qed

lemma update_settings_keeps_witness:
  "\<exists>pj' d'. update_settings toy_package False toy_options toy_project = (Inr True, pj') \<and>
     pj_settings pj' = Some (PDict d') \<and> dget d' ''theme'' = Some (PStr ''dark'')"
proof -
  have "case update_settings toy_package False toy_options toy_project of
    (Inr b, pj') \<Rightarrow> b | (Inl e, pj') \<Rightarrow> False"
    by code_simp
  then obtain pj' where run: "update_settings toy_package False toy_options toy_project = (Inr True, pj')"
    by (auto split: prod.splits sum.splits)
  have json: "pj_settings toy_project = Some (PDict [(''theme'', PStr ''dark'')])"
    by (simp add: toy_project_def)
  from update_settings_keeps [OF run json] obtain d' where d': "pj_settings pj' = Some (PDict d')"
    and other: "\<forall>k. k \<notin> {''hooks'', ''mcpServers'', ''allowedMcpServers'', ''permissions''} \<longrightarrow>
      dget d' k = dget [(''theme'', PStr ''dark'')] k"
    by (elim exE conjE) (rule that; assumption)
  have "dget d' ''theme'' = Some (PStr ''dark'')" using spec [OF other, of "''theme''"] by simp
  with run d' show ?thesis by metis
qed

text \<open>
  A file that ends with a blank line loses it: the bootstrap line then continues the last paragraph.
\<close>

lemma bootstrap_after_blank_line:
  "with_bootstrap (''text'' @ nl @ nl) = ''text'' @ nl @ bootstrap_line @ nl"
  by code_simp

end
