(* ===== verification/Wire_Types.thy ===== *)
theory Wire_Types
  imports Store_Equivalence
begin

text \<open>
  The type of a message on the wire, after spec/schemas/message.schema.json: which fields there are and
  what each holds. The lengths of the names and the correlation id, which the caller chooses, are left out.
\<close>

section \<open>The schema of a message\<close>

fun is_null :: "pyval \<Rightarrow> bool" where
  "is_null PNone = True"
| "is_null v = False"

fun is_number :: "pyval \<Rightarrow> bool" where
  "is_number (PInt i) = True"
| "is_number (PFloat x) = True"
| "is_number v = False"

fun is_positive_int :: "pyval \<Rightarrow> bool" where
  "is_positive_int (PInt i) \<longleftrightarrow> 1 \<le> i"
| "is_positive_int v \<longleftrightarrow> False"

definition message_schema :: "(string \<times> (pyval \<Rightarrow> bool)) list" where
  "message_schema =
     [(''channel'', is_str), (''sender'', is_str), (''body'', is_dict),
      (''correlation_id'', \<lambda>v. is_str v \<or> is_null v), (''sent_at'', is_number),
      (''message_id'', \<lambda>v. is_str v \<and> v \<noteq> PStr []), (''seq'', is_positive_int), (''ts'', is_null),
      (''reply_to'', \<lambda>v. is_str v \<or> is_null v), (''delivered_to'', \<lambda>v. is_list v \<or> is_null v),
      (''origin_server'', \<lambda>v. is_str v \<or> is_null v), (''_meta'', \<lambda>v. is_dict v \<or> is_null v)]"

text \<open>No field twice, none the schema does not know, each of its type, the required ones there.\<close>

definition message_required :: "string list" where
  "message_required = [''channel'', ''sender'', ''body'', ''sent_at'', ''message_id'', ''seq'']"

definition message_typed :: "pydict \<Rightarrow> bool" where
  "message_typed m \<longleftrightarrow> distinct (map fst m) \<and>
     list_all (\<lambda>(k, v). case dget message_schema k of Some ty \<Rightarrow> ty v | None \<Rightarrow> False) m \<and>
     list_all (has_key m) message_required"

lemma wire_message_typed:
  "1 \<le> seq \<Longrightarrow> mid \<noteq> [] \<Longrightarrow> message_typed (wire_message mid ch sender body corr sent seq rt)"
  by (cases corr; cases rt)
    (simp_all add: message_typed_def wire_message_def message_schema_def message_required_def has_key_def opt_str_def)

section \<open>What the stores hand out\<close>

lemma gapless_positive:
  assumes "x \<in> set xs" and "xs = map int [1..<Suc (length xs)]" shows "1 \<le> x"
proof -
  have "set xs = int ` {1..<Suc (length xs)}" using arg_cong [OF assms(2), of set] by (metis list.set_map set_upt)
  then show ?thesis using assms(1) by auto
qed

lemma mem_seq_positive:
  assumes "m \<in> set (ms_messages (mem_run ops))" shows "1 \<le> mm_seq m"
proof (rule gapless_positive)
  show "mm_seq m \<in> set (log_seqs (mem_log (mem_run ops)) (mm_channel m))"
    using assms by (simp add: log_seqs_def mem_log_def filter_map comp_def)
  have "log_seqs (mem_log memory_init) c = []" for c by (simp add: memory_init_def mem_log_def log_seqs_def)
  then show "log_seqs (mem_log (mem_run ops)) (mm_channel m) =
      map int [1..<Suc (length (log_seqs (mem_log (mem_run ops)) (mm_channel m)))]"
    by (intro mem.numbered.gapless [OF mem_inv_init]) simp
qed

lemma sq_seq_positive:
  assumes "r \<in> set (sq_messages (sq_run ops))" shows "1 \<le> rw_seq r"
proof (rule gapless_positive)
  show "rw_seq r \<in> set (log_seqs (sq_log (sq_run ops)) (rw_channel r))"
    using assms by (auto simp: sq_log_seqs)
  show "log_seqs (sq_log (sq_run ops)) (rw_channel r) =
      map int [1..<Suc (length (log_seqs (sq_log (sq_run ops)) (rw_channel r)))]"
    using sq_run_inv [of ops] unfolding sq_inv_def by blast
qed

lemma sq_run_conn: "sq_conn s \<Longrightarrow> sq_conn (snd (run_ops sq_step ops s))"
  by (induction ops arbitrary: s) (simp_all only: run_ops.simps(1) run_ops_Cons snd_conv sq_step_open)

lemma sq_recv_open:
  assumes "sq_conn s"
  shows "\<exists>rs. fst (sq_recv a chans n s) = Inr (map build_message rs) \<and> set rs \<subseteq> set (sq_messages s)"
proof -
  have "set (eligible_rows a chans n pats (sq_messages s)) \<subseteq> set (sq_messages s)" for pats
    using set_eligible_rows by fastforce
  then show ?thesis
    using assms by (auto simp: sq_recv_def require_conn_def Let_def split: option.splits intro: exI [of _ "[]"])
qed

section \<open>Property\<close>

text \<open>
  C40. Whatever has been called before, \<open>recv\<close> of the in-memory and of the SQLite store returns messages of
  the type the protocol prescribes: exactly its fields, each of its type, a message id that is not empty and
  a channel number of at least one; an open SQLite store does not raise.
\<close>

theorem recv_messages_typed:
  "list_all message_typed (fst (mem_recv a chans n (mem_run ops))) \<and>
   (case fst (sq_recv a chans n (sq_run ops)) of
      Inl e \<Rightarrow> False
    | Inr ms \<Rightarrow> list_all message_typed ms)"
proof
  have "message_typed (to_wire m)" if "m \<in> set (mem_eligible a chans n (mem_run ops))" for m
  proof -
    have "m \<in> set (ms_messages (mem_run ops))" using that set_mem_eligible by blast
    then show ?thesis by (simp add: to_wire_def wire_message_typed mem_seq_positive)
  qed
  moreover have "fst (mem_recv a chans n (mem_run ops)) = map to_wire (mem_eligible a chans n (mem_run ops))"
    by (simp add: mem_recv_def Let_def)
  ultimately show "list_all message_typed (fst (mem_recv a chans n (mem_run ops)))"
    by (simp add: list_all_iff)
  have "sq_conn (sq_run ops)" by (rule sq_run_conn) (simp add: sq_initialize_def)
  from sq_recv_open [OF this] obtain rs where
    rs: "fst (sq_recv a chans n (sq_run ops)) = Inr (map build_message rs)"
      "set rs \<subseteq> set (sq_messages (sq_run ops))" by blast
  have "message_typed (build_message r)" if "r \<in> set rs" for r
    using that rs(2) sq_seq_positive by (auto simp: build_message_def intro!: wire_message_typed)
  with rs(1) show "case fst (sq_recv a chans n (sq_run ops)) of
      Inl e \<Rightarrow> False | Inr ms \<Rightarrow> list_all message_typed ms"
    by (simp add: list_all_iff)
qed

end
