(* ===== verification/Spec2Isabelle.thy ===== *)
theory Spec2Isabelle
  imports Store_Equivalence Server_Properties Enforcer_Proofs Migration_Proofs Filesystem_Properties Mcp_Recv Http_Collect Schema_Strict Chat_Client Lint_Properties Conformance_Properties Conformance_Harness Installer_Properties Wire_Types
begin

text \<open>
  A verification of the SOX protocol server: the message stores, the identity layer, the
  middleware pipeline, the MCP and HTTP transports, the cadence enforcer, the chat client,
  the schema-strict plugin and the Claude Code installer of the Python package \<open>sox_protocol\<close>
  (\<open>packages/python/src/sox_protocol\<close>, to which the paths below are relative), and of the workflow linter
  and the conformance runner under \<open>tools\<close> of the repository. The model is a
  translation of the source: one definition per function or method, records for objects, and a
  value for every exception.

  \<^bold>\<open>How the program works.\<close> Agents exchange messages over channels. A transport receives a call,
  signs or reads a credential and hands the operation to \<open>MiddlewarePipeline.dispatch\<close>. The
  pipeline runs the call through its chain: \<open>auth\<close> verifies the signed request against the
  credential registry, the replay cache and the clock and puts the verified agent into the
  context; plugins such as \<open>schema_strict\<close> look at the input; \<open>store_dispatch\<close> calls the
  configured backing store. A store keeps messages, subscriptions, groups and presence, and
  \<open>recv\<close> hands each subscriber each message at most once. The MCP server polls the store into a
  buffer between calls. The HTTP server answers bearer tokens with credentials it signs itself.
  The enforcer is a hook of the agent's runtime that reads the same SQLite database and reminds
  the agent to poll. The chat client talks JSON-RPC to an MCP server. The installer
  registers server and hooks in the configuration of a project. The linter checks the plan files of the
  repository, the conformance runner plays fixtures against a server or an in-process target.

  \<^bold>\<open>Theories and sources.\<close>
  \<^item> \<open>Prelude\<close>, \<open>Fnmatch\<close>, \<open>Py_Values\<close>: the Python features used everywhere (strings, lists, dicts,
    decimal numbers, results with exceptions), \<open>fnmatch.fnmatchcase\<close>, JSON values.
  \<^item> \<open>Backing_Store\<close> (core/ports/backing_store.py): the values of the port, and its contract as the
    locales \<open>mailbox\<close> (what a run has delivered and what is still pending) and \<open>sequenced\<close> (channel
    numbers). \<open>Message_Log\<close> is the abstract machine, a log of entries with the set of their
    readers; its locale \<open>message_log\<close> says when a store implements it and is a sublocale of both
    contracts. \<open>Store_Port\<close> is the port as a record of functions.
  \<^item> \<open>Memory_Store\<close>, \<open>Memory_Proofs\<close>, \<open>Memory_Properties\<close> (adapters/backing_stores/memory/store.py),
    \<open>Sqlite_Store\<close>, \<open>Sqlite_Proofs\<close>, \<open>Sqlite_Properties\<close> (adapters/backing_stores/sqlite/store.py) and
    \<open>Filesystem_Store\<close>, \<open>Filesystem_Proofs\<close>, \<open>Filesystem_Properties\<close>
    (adapters/backing_stores/filesystem/store.py): an adapter each, its invariant, and its
    interpretation of the contracts. \<open>Sqlite_Properties\<close> also has the relation \<open>overlapping\<close>, in which SQLite
    sends interleave at their awaits. \<open>Store_Equivalence\<close> relates the first two call by call,
    \<open>Wire_Types\<close> types the messages they hand out after spec/schemas/message.schema.json.
    \<open>Migration\<close>, \<open>Migration_Proofs\<close>: opening and migrating a database file.
  \<^item> \<open>Identity\<close>, \<open>Identity_Proofs\<close> (core/identity/): the credential registry, the signed bytes, the
    verifier with its replay cache, the audit log.
  \<^item> \<open>Pipeline\<close>, \<open>Pipeline_Proofs\<close>, \<open>Chain_Order\<close>, \<open>Plugin_Loader\<close>, \<open>Chain_Registry\<close>,
    \<open>Chain_Properties\<close>, \<open>Server_Chain\<close>, \<open>Server_Properties\<close> (core/middleware/): dispatch and its trace,
    the two topological sorts, manifests, the registry, the three middlewares of the default
    chain, and that chain as a whole over a store. \<open>Schema_Strict\<close> is the plugin
    (plugins/sox-plugin-schema-strict).
  \<^item> \<open>Mcp_Server\<close>, \<open>Mcp_Session\<close>, \<open>Mcp_Properties\<close>, \<open>Mcp_Send\<close>, \<open>Mcp_Recv\<close> (core/mcp_server/): the tools,
    the listener and the start-up; sessions in which tool calls, polls and other agents
    interleave. \<open>port_invariant\<close> and \<open>fresh_watch\<close> are what a session asks of a store; they are
    interpreted for the in-memory and the SQLite adapter.
  \<^item> \<open>Http_Parts\<close>, \<open>Http_Routes\<close>, \<open>Http_Properties\<close>, \<open>Http_Send\<close>, \<open>Http_Collect\<close>
    (adapters/transports/http/): every route as a sequence of dispatches, and the reachable states
    \<open>http_run\<close> of the application when requests interleave at their dispatches.
  \<^item> \<open>Enforcer\<close>, \<open>Enforcer_Proofs\<close> (core/enforcer/, enforcer/cli.py): the decision, the counters in
    the database and the hook command.
  \<^item> \<open>Chat_Store\<close>, \<open>Chat_Properties\<close>, \<open>Chat_Client\<close> (tui/): the chat state, which refines a log of
    messages with a reading position per channel; the command parser, the JSON-RPC client and the
    receive pump.
  \<^item> \<open>Phase_Graph\<close>, \<open>Workflow_Lint\<close>, \<open>Engagement_Lint\<close>, \<open>Lint_Properties\<close> (tools/workflow_lint.py): the search for
    a cycle, the parsers, the checks of an engagement, the run as a whole.
  \<^item> \<open>Conformance_Match\<close>, \<open>Conformance_Runner\<close>, \<open>Conformance_Target\<close>, \<open>Conformance_Properties\<close>,
    \<open>Conformance_Harness\<close> (tools/conformance_runner.py): the matcher of expected outputs, fixtures, steps
    and assertions, the in-process target and how far it agrees with the server.
  \<^item> \<open>Installer\<close>, \<open>Installer_Properties\<close> (adapters/runtimes/claude_code/install.py): the steps of \<open>install\<close> on
    the files of a project.

  \<^bold>\<open>What is shown.\<close> Stores, for calls that run one after the other: a message reaches a
  subscriber at most once, nothing a subscriber has not read is lost, and the messages of a channel are
  numbered without gaps (for the filesystem as long as no \<open>recv\<close> names a channel twice); the in-memory and
  the SQLite store hand over the same messages as long as no \<open>recv\<close> is cut by its bound among messages
  that wait out of order. SQLite sends that overlap are stored unaltered under distinct ids and delivered at
  most once; their numbers may repeat (\<open>sq_duplicate_numbers\<close>). Identity: \<open>verify\<close> accepts exactly the
  fresh, unused, correctly signed requests of registered agents, writes an audit line for each request it
  refuses, and accepts no request twice inside the window. Pipeline: the sorts yield a linear extension or
  report the cycle, the trace of a dispatch tells what each middleware did, and no enforced call without a
  verified identity reaches the store. Transports: what an accepted \<open>send\<close> stores, what \<open>recv\<close> hands
  over in a whole session, which answers a rejected call gets, and that the collect loop ends. Migration:
  an older file is brought to the current shape with its rows. Enforcer: the counters are those of the
  event history. Chat: the state shows the history of messages. Tools: a cycle is reported exactly when
  there is one, the exit status of the linter and of the conformance runner is that of their checks.
  Installer: a second installation changes nothing.
  Where the code does not do what its documentation says, the theorem states what it does.

  \<^bold>\<open>Modelling decisions.\<close> A float is the real number it denotes, an integer is \<^typ>\<open>int\<close> (Python's
  integers are unbounded), a string a list of characters with one character per code point
  below 256, a dict an association list in insertion order, an exception a value. Clock
  readings and drawn UUIDs are arguments. A table is the list of its rows and SQL statements are
  list functions; where SQL leaves the order open it is the table's. JSON is held decoded. Methods
  that run under an asyncio lock are one step; where the source awaits between statements without
  the lock (SQLite \<open>send\<close>, the HTTP handlers) the steps are separate and interleave.
  Ed25519, SHA-256, JSON text, YAML, \<open>packaging\<close>, \<open>jsonschema\<close> and the file system are parameters,
  with what a theorem needs of them as hypotheses.

  \<^bold>\<open>Recursion and fuel.\<close> The sorts, the glob matcher and the parsers terminate by a measure or
  structurally. The poll loop of \<open>channels_collect\<close> is bounded by a number of rounds;
  \<open>http_collect_returns\<close> shows that every bound above the number of clock readings before the
  deadline gives the result, whatever the store answers. The cycle search of the linter has one stack
  frame per phase, which \<open>has_cycle_correct\<close> shows to be enough; the frames left are its bound.

  \<^bold>\<open>Not modelled.\<close> Key files, the command line (argument parsing, session files and terminal output
  around the components above), the Textual widgets and background tasks, process control, FastMCP,
  FastAPI and uvicorn, the OpenAPI generator, the examples, log lines, trace timestamps, indexes and
  pragmas of the databases: I/O, library code or demonstrations. Transient errors of SQLite, after which
  the listener of the MCP server would be started again, and closing a store under a pending call are left
  out, as are the texts of internal errors, of lint issues and of conformance diffs.
\<close>

end
